theory Spec2Isabelle
  imports Main "HOL-Library.Word"
begin

unbundle bit_operations_syntax

section \<open>BOLT's YAML profile reader: data model\<close>

text \<open>
  A shallow embedding of \<^verbatim>\<open>bolt/lib/Profile/YAMLProfileReader.cpp\<close>.
  Pointers to binary functions and to basic blocks are natural numbers (addresses into
  a store), 64-bit counters are \<^typ>\<open>64 word\<close>, sizes, indices and byte offsets are
  natural numbers, the diagnostics stream \<^verbatim>\<open>errs()\<close> is a list of warnings.
\<close>

type_synonym u64 = "64 word"
type_synonym bfid = nat
type_synonym bbid = nat
type_synonym symbol = string
type_synonym error_code = nat

subsection \<open>The profile document\<close>

text \<open>
  Modelled from the spec: the types of the profile document are declared in
  \<^verbatim>\<open>bolt/Profile/ProfileYAMLMapping.h\<close>, which is not among the sources. Section 3 of
  the spec lists the fields; the fields that the reader does not touch are left out.
\<close>

record SuccessorInfo =
  SI_Index :: nat
  SI_Count :: u64
  SI_Mispreds :: u64

record CallSiteInfo =
  CSI_DestId :: nat
  CSI_EntryDiscriminator :: nat
  CSI_Offset :: nat
  CSI_Count :: u64
  CSI_Mispreds :: u64

record BinaryBasicBlockProfile =
  YBB_Index :: nat
  YBB_ExecCount :: u64
  YBB_EventCount :: u64
  YBB_CallSites :: "CallSiteInfo list"
  YBB_Successors :: "SuccessorInfo list"

record BinaryFunctionProfile =
  YBF_Name :: string
  YBF_Id :: nat
  YBF_Hash :: u64
  YBF_NumBasicBlocks :: nat
  YBF_ExecCount :: u64
  YBF_Blocks :: "BinaryBasicBlockProfile list"
  YBF_Used :: bool

datatype HashFunction = StdHash | XXH3

record BinaryProfileHeader =
  Hdr_Version :: nat
  Hdr_Flags :: "16 word"
  Hdr_EventNames :: string
  Hdr_HashFunction :: HashFunction
  Hdr_IsDFSOrder :: bool

record BinaryProfile =
  YamlBP_Header :: BinaryProfileHeader
  YamlBP_Functions :: "BinaryFunctionProfile list"

subsection \<open>The binary side\<close>

record BinaryBranchInfo =
  BI_Count :: u64
  BI_MispredictedCount :: u64

text \<open>
  Modelled from the spec: \<^verbatim>\<open>BinaryBasicBlock\<close>, \<^verbatim>\<open>MCInst\<close> with its annotations and
  \<^verbatim>\<open>BinaryFunction\<close> are declared in headers that are not among the sources.
  Section 3 of the spec: a function has its blocks in layout and in DFS order, a block
  has successor edges that each carry a count and a misprediction count, an
  instruction has a byte offset, capability predicates and a bag of annotations.

  A basic block: its successor edges are a list of pairs, the successor block and the
  branch info of that edge, in the order of the block's successor list.
\<close>

record BinaryBasicBlock =
  BB_ExecutionCount :: u64
  BB_NumNonPseudos :: nat
  BB_NumCalls :: nat
  BB_isEntryPoint :: bool
  BB_OriginalSize :: nat
  BB_InputOffset :: nat
  BB_Successors :: "(bbid \<times> BinaryBranchInfo) list"

text \<open>
  The annotation bag of an instruction maps a name to a scalar count or to an indirect
  call profile, a list of (callee symbol, count, mispredictions).
\<close>

datatype Annotation =
    Scalar u64
  | IndirectCallSiteProfile "(symbol option \<times> u64 \<times> u64) list"

record MCInst =
  MI_isCall :: bool
  MI_isIndirectCall :: bool
  MI_isIndirectBranch :: bool
  MI_isConditionalTailCall :: bool
  MI_Annotations :: "string \<rightharpoonup> Annotation"

record BinaryFunction =
  BF_ExecutionCount :: u64
  BF_RawBranchCount :: u64
  BF_Hash :: u64
  BF_BasicBlocks :: "bbid list"
  BF_Layout :: "bbid list"
  BF_DFS :: "bbid list"
  BF_Block :: "bbid \<Rightarrow> BinaryBasicBlock"
  BF_Instructions :: "nat \<rightharpoonup> MCInst"
  BF_AllCallSites :: "(symbol option \<times> u64 \<times> u64 \<times> nat) list"
  BF_ProfileFlags :: "16 word option"
  BF_DemangledName :: string
  BF_Ignored :: bool

subsection \<open>Options, diagnostics and what the file takes from elsewhere\<close>

record opts =
  Verbosity :: nat
  InferStaleProfile :: bool
  Lite :: bool
  NameSimilarityFunctionMatchingThreshold :: "32 word"
  IgnoreHash :: bool
  MatchProfileWithFunctionHash :: bool

datatype warning =
    CannotOpen error_code
  | SyntaxErrorParsing error_code
  | DroppingDuplicateProfile string
  | FunctionHashMismatch
  | NumberOfBasicBlocksMismatch
  | IndexOutOfBounds nat
  | OffsetOutOfBounds nat bbid
  | NoInstructionAtOffset nat bbid
  | ExpectedCallAtOffset nat bbid
  | IgnoringDuplicateInfo string nat
  | SuccessorIndexOutOfBounds
  | NoSuccessorForBlock bbid nat bbid
  | DidNotMatchFunction u64 u64 u64
  | ProfileIgnoredForFunction string

text \<open>
  Constants and functions that the reader uses and that are declared in other files:
  the flag bit \<^verbatim>\<open>BinaryFunction::PF_SAMPLE\<close>, the two \<^verbatim>\<open>COUNT_NO_PROFILE\<close>
  sentinels, hash computation, the stale-profile inference pass, symbol lookup by entry
  id, the YAML loader, the LTO common name of a symbol, demangling and edit distance,
  and the iteration orders of the hash containers. The definitions below take them as
  the fields of an environment, and the theorems hold for every environment.
\<close>

record Env =
  PF_SAMPLE :: "16 word"
  BF_COUNT_NO_PROFILE :: u64
  BB_COUNT_NO_PROFILE :: u64
  computeHash :: "bool \<Rightarrow> HashFunction \<Rightarrow> BinaryFunction \<Rightarrow> u64"
  inferStaleProfile :: "BinaryFunction \<Rightarrow> BinaryFunctionProfile \<Rightarrow> bool \<times> BinaryFunction"
  getSymbolForEntryID :: "bfid \<Rightarrow> nat \<Rightarrow> symbol option"
  yamlInput :: "string \<Rightarrow> BinaryProfile \<times> error_code option"
  getLTOCommonName :: "string \<Rightarrow> string option"
  DemangleName :: "string \<Rightarrow> string"
  DeriveNameSpace :: "string \<Rightarrow> string"
  edit_distance :: "string \<Rightarrow> string \<Rightarrow> 32 word"
  StringMapOrder :: "(string \<times> nat list) list \<Rightarrow> (string \<times> nat list) list"
  UnorderedSetOrder :: "bfid list \<Rightarrow> bfid list"

section \<open>The propagator: parseFunctionProfile\<close>

subsection \<open>Operations of blocks, instructions and functions\<close>

text \<open>
  The members of \<^verbatim>\<open>BinaryBasicBlock\<close> and \<^verbatim>\<open>BinaryFunction\<close> and of the
  instruction interface \<^verbatim>\<open>MIB\<close> that the reader calls are defined in headers and
  files that are not among the sources. Each is modelled from what the spec says of it.
\<close>

text \<open>
  Modelled from the spec: \<^verbatim>\<open>BinaryBasicBlock::succ_size\<close>, the number of successor
  edges of a block (section 3).
\<close>

definition succ_size :: "BinaryBasicBlock \<Rightarrow> nat" where
  "succ_size BB = length (BB_Successors BB)"

text \<open>
  Modelled from the spec: \<^verbatim>\<open>BinaryBasicBlock::getSuccessor\<close>, the successor of a block
  with a given label, or null (section 4.E, successors, step 2: "\<open>BB\<close> has no successor
  labeled by \<open>ToBB\<close>"). A block's label names the block, so
  \<^verbatim>\<open>BB.getSuccessor(ToBB->getLabel())\<close> looks \<open>ToBB\<close> up among the successors of
  \<open>BB\<close>.
\<close>

definition getSuccessor :: "BinaryBasicBlock \<Rightarrow> bbid \<Rightarrow> bbid option" where
  "getSuccessor BB Label = find (\<lambda>S. S = Label) (map fst (BB_Successors BB))"

text \<open>
  Modelled from the spec: \<^verbatim>\<open>BinaryBasicBlock::getConditionalSuccessor\<close>, for
  \<open>Condition = false\<close> the "false-branch conditional successor" of section 4.E: a
  block with exactly two successors has the taken one first and the fall-through
  second; any other block has no conditional successor.
\<close>

definition getConditionalSuccessor :: "BinaryBasicBlock \<Rightarrow> bool \<Rightarrow> bbid option" where
  "getConditionalSuccessor BB Condition =
     (if succ_size BB \<noteq> 2 then None
      else Some (fst (BB_Successors BB ! (if Condition then 0 else 1))))"

text \<open>
  Modelled from the spec: the write through \<^verbatim>\<open>BinaryBasicBlock::getBranchInfo(Succ)\<close>
  of lines 247 to 250 and 262 to 264, which adds a count and a misprediction count to
  the edge to \<open>Succ\<close> (section 4.E, successors, step 3): the first edge to \<open>Succ\<close>
  in the successor list.
\<close>

fun addToBranchInfo ::
  "bbid \<Rightarrow> u64 \<Rightarrow> u64 \<Rightarrow> (bbid \<times> BinaryBranchInfo) list \<Rightarrow> (bbid \<times> BinaryBranchInfo) list"
where
  "addToBranchInfo Succ c m [] = []"
| "addToBranchInfo Succ c m ((S, BI) # Es) =
     (if S = Succ
      then (S, BI\<lparr>BI_Count := BI_Count BI + c,
                  BI_MispredictedCount := BI_MispredictedCount BI + m\<rparr>) # Es
      else (S, BI) # addToBranchInfo Succ c m Es)"

text \<open>
  Modelled from the spec: \<^verbatim>\<open>BinaryBasicBlock::getBranchInfo\<close> as a read, the branch
  info of the first edge to \<open>Succ\<close>, if there is such an edge.
\<close>

definition getBranchInfo :: "BinaryBasicBlock \<Rightarrow> bbid \<Rightarrow> BinaryBranchInfo option" where
  "getBranchInfo BB Succ = map_option snd (find (\<lambda>E. fst E = Succ) (BB_Successors BB))"

text \<open>
  Modelled from the spec: \<^verbatim>\<open>MIB->hasAnnotation\<close> and \<^verbatim>\<open>MIB->addAnnotation\<close> on
  the annotation bag of an instruction, a map from names to values (sections 3 and 9).
\<close>

definition hasAnnotation :: "MCInst \<Rightarrow> string \<Rightarrow> bool" where
  "hasAnnotation Instr Name = (MI_Annotations Instr Name \<noteq> None)"

definition addAnnotation :: "MCInst \<Rightarrow> string \<Rightarrow> u64 \<Rightarrow> MCInst" where
  "addAnnotation Instr Name Val =
     Instr\<lparr>MI_Annotations := (MI_Annotations Instr)(Name \<mapsto> Scalar Val)\<rparr>"

text \<open>
  Modelled from the spec: \<^verbatim>\<open>MIB->getOrCreateAnnotationAs<IndirectCallSiteProfile>\<close>
  followed by \<^verbatim>\<open>emplace_back\<close> (section 4.E, call sites, step 4: "a list value
  created on first touch"). A scalar under the same name would be read as a list by the
  program; the model starts a new list there.
\<close>

definition appendCallProfile :: "MCInst \<Rightarrow> string \<Rightarrow> symbol option \<times> u64 \<times> u64 \<Rightarrow> MCInst" where
  "appendCallProfile Instr Name Entry =
     Instr\<lparr>MI_Annotations := (MI_Annotations Instr)
        (Name \<mapsto> IndirectCallSiteProfile
           ((case MI_Annotations Instr Name of
               Some (IndirectCallSiteProfile CSP) \<Rightarrow> CSP
             | _ \<Rightarrow> []) @ [Entry]))\<rparr>"

text \<open>
  Modelled from the spec: \<^verbatim>\<open>BinaryFunction::size\<close> and \<^verbatim>\<open>BinaryFunction::empty\<close>,
  the number of blocks of a function and whether it has none.
\<close>

definition BF_size :: "BinaryFunction \<Rightarrow> nat" where
  "BF_size BF = length (BF_BasicBlocks BF)"

definition BF_empty :: "BinaryFunction \<Rightarrow> bool" where
  "BF_empty BF = (BF_BasicBlocks BF = [])"

text \<open>
  Modelled from the spec: \<^verbatim>\<open>BinaryFunction::hasProfile\<close>. Section 4.C, stages S1 and
  S2: a function has a profile when it has a count, and its count is cleared by
  setting it to the sentinel \<^verbatim>\<open>COUNT_NO_PROFILE\<close>.
\<close>

definition hasProfile :: "Env \<Rightarrow> BinaryFunction \<Rightarrow> bool" where
  "hasProfile E BF = (BF_ExecutionCount BF \<noteq> BF_COUNT_NO_PROFILE E)"

text \<open>
  Modelled from the spec: \<^verbatim>\<open>BinaryFunction::markProfiled\<close> (section 4.E,
  finalization). The model records that it was called, and with which flags.
\<close>

definition markProfiled :: "16 word \<Rightarrow> BinaryFunction \<Rightarrow> BinaryFunction" where
  "markProfiled Flags BF = BF\<lparr>BF_ProfileFlags := Some Flags\<rparr>"

subsection \<open>The state of one propagation\<close>

text \<open>
  The function being written to, the locals of \<^verbatim>\<open>parseFunctionProfile\<close> that its
  loops update, and the diagnostics written so far.
\<close>

record PState =
  bf :: BinaryFunction
  MismatchedBlocks :: u64
  MismatchedCalls :: u64
  MismatchedEdges :: u64
  FunctionExecutionCount :: u64
  errs :: "warning list"

definition warn :: "opts \<Rightarrow> nat \<Rightarrow> warning \<Rightarrow> PState \<Rightarrow> PState" where
  "warn Op level W S = (if Verbosity Op \<ge> level then S\<lparr>errs := errs S @ [W]\<rparr> else S)"

definition setBlockExecutionCount :: "bbid \<Rightarrow> u64 \<Rightarrow> PState \<Rightarrow> PState" where
  "setBlockExecutionCount B Cnt S =
     S\<lparr>bf := (bf S)\<lparr>BF_Block := (BF_Block (bf S))
        (B := (BF_Block (bf S) B)\<lparr>BB_ExecutionCount := Cnt\<rparr>)\<rparr>\<rparr>"

definition addBranchInfo :: "bbid \<Rightarrow> bbid \<Rightarrow> u64 \<Rightarrow> u64 \<Rightarrow> PState \<Rightarrow> PState" where
  "addBranchInfo From To c m S =
     S\<lparr>bf := (bf S)\<lparr>BF_Block := (BF_Block (bf S))
        (From := (BF_Block (bf S) From)
           \<lparr>BB_Successors := addToBranchInfo To c m (BB_Successors (BF_Block (bf S) From))\<rparr>)\<rparr>\<rparr>"

definition setInstruction :: "nat \<Rightarrow> MCInst \<Rightarrow> PState \<Rightarrow> PState" where
  "setInstruction Off Instr S =
     S\<lparr>bf := (bf S)\<lparr>BF_Instructions := (BF_Instructions (bf S))(Off \<mapsto> Instr)\<rparr>\<rparr>"

subsection \<open>Call sites (lines 173 to 231)\<close>

text \<open>The lambda \<^verbatim>\<open>setAnnotation\<close> of lines 210 to 219, on the instruction at \<open>At\<close>.\<close>

definition setAnnotation :: "opts \<Rightarrow> nat \<Rightarrow> nat \<Rightarrow> string \<Rightarrow> u64 \<Rightarrow> PState \<Rightarrow> PState" where
  "setAnnotation Op At Offset Name Cnt S =
     (case BF_Instructions (bf S) At of
        None \<Rightarrow> S
      | Some Instr \<Rightarrow>
          if hasAnnotation Instr Name
          then warn Op 1 (IgnoringDuplicateInfo Name Offset) S
          else setInstruction At (addAnnotation Instr Name Cnt) S)"

text \<open>Lines 221 to 230: the annotation of a validated call-site instruction.\<close>

definition annotateCallSite ::
  "opts \<Rightarrow> nat \<Rightarrow> MCInst \<Rightarrow> symbol option \<Rightarrow> CallSiteInfo \<Rightarrow> PState \<Rightarrow> PState"
where
  "annotateCallSite Op At Instr CalleeSymbol YamlCSI S =
     (if MI_isIndirectCall Instr \<or> MI_isIndirectBranch Instr
      then setInstruction At
             (appendCallProfile Instr ''CallProfile''
                (CalleeSymbol, CSI_Count YamlCSI, CSI_Mispreds YamlCSI)) S
      else if MI_isConditionalTailCall Instr
      then setAnnotation Op At (CSI_Offset YamlCSI) ''CTCMispredCount'' (CSI_Mispreds YamlCSI)
             (setAnnotation Op At (CSI_Offset YamlCSI) ''CTCTakenCount'' (CSI_Count YamlCSI) S)
      else setAnnotation Op At (CSI_Offset YamlCSI) ''Count'' (CSI_Count YamlCSI) S)"

definition mismatchedCall :: "opts \<Rightarrow> warning \<Rightarrow> PState \<Rightarrow> PState" where
  "mismatchedCall Op W S = (warn Op 2 W S)\<lparr>MismatchedCalls := MismatchedCalls S + 1\<rparr>"

definition processCallSite ::
  "Env \<Rightarrow> opts \<Rightarrow> bfid option list \<Rightarrow> bbid \<Rightarrow> CallSiteInfo \<Rightarrow> PState \<Rightarrow> PState"
where
  "processCallSite E Op YamlProfileToFunction B YamlCSI S =
     (let BB = BF_Block (bf S) B;
          Callee = (if CSI_DestId YamlCSI < length YamlProfileToFunction
                    then YamlProfileToFunction ! CSI_DestId YamlCSI else None);
          CalleeSymbol = (case Callee of
                            None \<Rightarrow> None
                          | Some C \<Rightarrow> getSymbolForEntryID E C (CSI_EntryDiscriminator YamlCSI));
          S1 = S\<lparr>bf := (bf S)\<lparr>BF_AllCallSites := BF_AllCallSites (bf S) @
                   [(CalleeSymbol, CSI_Count YamlCSI, CSI_Mispreds YamlCSI,
                     CSI_Offset YamlCSI)]\<rparr>\<rparr>
      in if CSI_Offset YamlCSI \<ge> BB_OriginalSize BB
         then mismatchedCall Op (OffsetOutOfBounds (CSI_Offset YamlCSI) B) S1
         else (case BF_Instructions (bf S1) (BB_InputOffset BB + CSI_Offset YamlCSI) of
                 None \<Rightarrow> mismatchedCall Op (NoInstructionAtOffset (CSI_Offset YamlCSI) B) S1
               | Some Instr \<Rightarrow>
                   if \<not> MI_isCall Instr \<and> \<not> MI_isIndirectBranch Instr
                   then mismatchedCall Op (ExpectedCallAtOffset (CSI_Offset YamlCSI) B) S1
                   else annotateCallSite Op (BB_InputOffset BB + CSI_Offset YamlCSI)
                          Instr CalleeSymbol YamlCSI S1))"

subsection \<open>Successors (lines 233 to 265)\<close>

definition mismatchedEdge :: "opts \<Rightarrow> warning \<Rightarrow> PState \<Rightarrow> PState" where
  "mismatchedEdge Op W S = (warn Op 1 W S)\<lparr>MismatchedEdges := MismatchedEdges S + 1\<rparr>"

definition processSuccessor :: "opts \<Rightarrow> bbid list \<Rightarrow> bbid \<Rightarrow> SuccessorInfo \<Rightarrow> PState \<Rightarrow> PState" where
  "processSuccessor Op Order B YamlSI S =
     (if SI_Index YamlSI \<ge> length Order
      then mismatchedEdge Op SuccessorIndexOutOfBounds S
      else
        let ToBB = Order ! SI_Index YamlSI;
            BB = BF_Block (bf S) B
        in if getSuccessor BB ToBB = None
           then (case getConditionalSuccessor BB False of
                   None \<Rightarrow> mismatchedEdge Op (NoSuccessorForBlock B (SI_Index YamlSI) ToBB) S
                 | Some FTSuccessor \<Rightarrow>
                     if succ_size (BF_Block (bf S) FTSuccessor) = 1 \<and>
                        getSuccessor (BF_Block (bf S) FTSuccessor) ToBB \<noteq> None
                     then addBranchInfo B FTSuccessor (SI_Count YamlSI) (SI_Mispreds YamlSI)
                            (addBranchInfo FTSuccessor ToBB (SI_Count YamlSI)
                               (SI_Mispreds YamlSI) S)
                     else mismatchedEdge Op (NoSuccessorForBlock B (SI_Index YamlSI) ToBB) S)
           else addBranchInfo B ToBB (SI_Count YamlSI) (SI_Mispreds YamlSI) S)"

subsection \<open>The reader\<close>

text \<open>
  The members of \<^verbatim>\<open>YAMLProfileReader\<close>. A pointer to a profile record is its
  position in \<open>YamlBP.Functions\<close>. \<open>LTOCommonNameMap\<close> and
  \<open>LTOCommonNameFunctionMap\<close> are association lists with distinct keys, in the
  order in which the keys were first inserted; the sets of binary functions of the
  latter are lists without repetition.
\<close>

record YAMLProfileReader =
  YamlBP :: BinaryProfile
  ProfileFunctionNames :: "string set"
  ProfileBFs :: "bfid option list"
  LTOCommonNameMap :: "(string \<times> nat list) list"
  LTOCommonNameFunctionMap :: "(string \<times> bfid list) list"
  YamlProfileToFunction :: "bfid option list"
  ProfiledFunctions :: "bfid set"
  NormalizeByInsnCount :: bool
  NormalizeByCalls :: bool

definition isSample :: "Env \<Rightarrow> YAMLProfileReader \<Rightarrow> bool" where
  "isSample E R = (Hdr_Flags (YamlBP_Header (YamlBP R)) AND PF_SAMPLE E \<noteq> 0)"

subsection \<open>Blocks (lines 141 to 266)\<close>

definition processBlock ::
  "Env \<Rightarrow> opts \<Rightarrow> YAMLProfileReader \<Rightarrow> bbid list \<Rightarrow> BinaryBasicBlockProfile \<Rightarrow> PState \<Rightarrow> PState"
where
  "processBlock E Op R Order YamlBB S =
     (if YBB_Index YamlBB \<ge> length Order
      then (warn Op 2 (IndexOutOfBounds (YBB_Index YamlBB)) S)
             \<lparr>MismatchedBlocks := MismatchedBlocks S + 1\<rparr>
      else
        let B = Order ! YBB_Index YamlBB;
            BB = BF_Block (bf S) B
        in if isSample E R
           then (if YBB_EventCount YamlBB = 0
                 then setBlockExecutionCount B 0 S
                 else
                   let NumSamples0 = YBB_EventCount YamlBB * 1000;
                       NumSamples =
                         (if NormalizeByInsnCount R \<and> BB_NumNonPseudos BB \<noteq> 0
                          then NumSamples0 div of_nat (BB_NumNonPseudos BB)
                          else if NormalizeByCalls R
                          then NumSamples0 div of_nat (BB_NumCalls BB + 1)
                          else NumSamples0);
                       S1 = setBlockExecutionCount B NumSamples S
                   in if BB_isEntryPoint BB
                      then S1\<lparr>FunctionExecutionCount := FunctionExecutionCount S1 + NumSamples\<rparr>
                      else S1)
           else fold (processSuccessor Op Order B) (YBB_Successors YamlBB)
                  (fold (processCallSite E Op (YamlProfileToFunction R) B) (YBB_CallSites YamlBB)
                     (setBlockExecutionCount B (YBB_ExecCount YamlBB) S)))"

subsection \<open>The function (lines 95 to 294)\<close>

text \<open>Lines 110 to 113: the sum of the successor counts of all blocks of the record.\<close>

definition FuncRawBranchCount :: "BinaryFunctionProfile \<Rightarrow> u64" where
  "FuncRawBranchCount YamlBF =
     fold (\<lambda>YamlBB Acc. fold (\<lambda>YamlSI Acc'. Acc' + SI_Count YamlSI) (YBB_Successors YamlBB) Acc)
       (YBF_Blocks YamlBF) 0"

text \<open>Lines 268 to 271: a block whose count is still the sentinel gets the count 0.\<close>

definition clearNoProfile :: "Env \<Rightarrow> bbid \<Rightarrow> PState \<Rightarrow> PState" where
  "clearNoProfile E B S =
     (if BB_ExecutionCount (BF_Block (bf S) B) = BB_COUNT_NO_PROFILE E
      then setBlockExecutionCount B 0 S else S)"

text \<open>
  Lines 119 to 133: the hash is computed on first use and compared, then the block
  counts are compared. The result is the flag \<open>ProfileMatched\<close> and the state in
  which the loop over the blocks starts.
\<close>

definition checkShape ::
  "Env \<Rightarrow> opts \<Rightarrow> YAMLProfileReader \<Rightarrow> BinaryFunctionProfile \<Rightarrow> BinaryFunction \<Rightarrow>
   warning list \<Rightarrow> bool \<times> PState"
where
  "checkShape E Op R YamlBF BF1 Errs =
     (let Hdr = YamlBP_Header (YamlBP R);
          BF2 = (if \<not> IgnoreHash Op \<and> BF_Hash BF1 = 0
                 then BF1\<lparr>BF_Hash := computeHash E (Hdr_IsDFSOrder Hdr) (Hdr_HashFunction Hdr) BF1\<rparr>
                 else BF1);
          HashMismatch = (\<not> IgnoreHash Op \<and> YBF_Hash YamlBF \<noteq> BF_Hash BF2);
          SizeMismatch = (YBF_NumBasicBlocks YamlBF \<noteq> BF_size BF2);
          S0 = \<lparr>bf = BF2, MismatchedBlocks = 0, MismatchedCalls = 0, MismatchedEdges = 0,
                FunctionExecutionCount = 0, errs = Errs\<rparr>;
          S1 = (if HashMismatch then warn Op 1 FunctionHashMismatch S0 else S0);
          S2 = (if SizeMismatch then warn Op 1 NumberOfBasicBlocksMismatch S1 else S1)
      in (\<not> HashMismatch \<and> \<not> SizeMismatch, S2))"

text \<open>
  Lines 135 to 274: the order vector, the loop over the profiled blocks, the blocks
  left without a count, and the function's count in sample mode.
\<close>

definition propagateBlocks ::
  "Env \<Rightarrow> opts \<Rightarrow> YAMLProfileReader \<Rightarrow> BinaryFunctionProfile \<Rightarrow> PState \<Rightarrow> PState"
where
  "propagateBlocks E Op R YamlBF S2 =
     (let Order = (if Hdr_IsDFSOrder (YamlBP_Header (YamlBP R))
                   then BF_DFS (bf S2) else BF_Layout (bf S2));
          S3 = fold (processBlock E Op R Order) (YBF_Blocks YamlBF) S2;
          S4 = fold (clearNoProfile E) (BF_BasicBlocks (bf S3)) S3
      in if isSample E R
         then S4\<lparr>bf := (bf S4)\<lparr>BF_ExecutionCount := FunctionExecutionCount S4\<rparr>\<rparr>
         else S4)"

text \<open>
  Lines 276 to 293: the verdict, the stale-profile inference on a mismatch, and
  \<^verbatim>\<open>markProfiled\<close> on success. \<open>Stats\<close> is the counter
  \<^verbatim>\<open>BC.Stats.NumStaleFuncsWithEqualBlockCount\<close>.
\<close>

definition finishProfile ::
  "Env \<Rightarrow> opts \<Rightarrow> YAMLProfileReader \<Rightarrow> BinaryFunctionProfile \<Rightarrow> bool \<Rightarrow> PState \<Rightarrow> u64 \<Rightarrow>
   bool \<times> BinaryFunction \<times> u64 \<times> warning list"
where
  "finishProfile E Op R YamlBF ProfileMatched0 S5 Stats =
     (let Flags = Hdr_Flags (YamlBP_Header (YamlBP R));
          ProfileMatched = (ProfileMatched0 \<and> MismatchedBlocks S5 = 0 \<and>
                            MismatchedCalls S5 = 0 \<and> MismatchedEdges S5 = 0)
      in if \<not> ProfileMatched
         then
           let S6 = warn Op 1 (DidNotMatchFunction (MismatchedBlocks S5) (MismatchedCalls S5)
                                 (MismatchedEdges S5)) S5;
               Stats' = (if YBF_NumBasicBlocks YamlBF \<noteq> BF_size (bf S6) then Stats + 1 else Stats)
           in if InferStaleProfile Op
              then (case inferStaleProfile E (bf S6) YamlBF of
                      (True, BF') \<Rightarrow> (True, markProfiled Flags BF', Stats', errs S6)
                    | (False, BF') \<Rightarrow> (False, BF', Stats', errs S6))
              else (False, bf S6, Stats', errs S6)
         else (True, markProfiled Flags (bf S5), Stats, errs S5))"

text \<open>
  The function takes and returns the binary function, the counter
  \<^verbatim>\<open>BC.Stats.NumStaleFuncsWithEqualBlockCount\<close> and the diagnostics; the first
  component of the result is the returned verdict.
\<close>

definition parseFunctionProfile ::
  "Env \<Rightarrow> opts \<Rightarrow> YAMLProfileReader \<Rightarrow> BinaryFunctionProfile \<Rightarrow>
   BinaryFunction \<times> u64 \<times> warning list \<Rightarrow> bool \<times> BinaryFunction \<times> u64 \<times> warning list"
where
  "parseFunctionProfile E Op R YamlBF = (\<lambda>(BF0, Stats, Errs).
     let BF1 = BF0\<lparr>BF_ExecutionCount := YBF_ExecCount YamlBF,
                   BF_RawBranchCount := FuncRawBranchCount YamlBF\<rparr>
     in if BF_empty BF1 then (True, BF1, Stats, Errs)
        else (case checkShape E Op R YamlBF BF1 Errs of
                (ProfileMatched, S2) \<Rightarrow>
                  finishProfile E Op R YamlBF ProfileMatched
                    (propagateBlocks E Op R YamlBF S2) Stats))"

section \<open>The matcher: preprocessProfile and readProfile\<close>

subsection \<open>The binary context and the state of a run\<close>

text \<open>
  Modelled from the spec: \<^verbatim>\<open>BinaryContext\<close> is declared in a header that is not among
  the sources; section 6 of the spec lists what the reader consumes of it.
  The binary context: the store of binary functions, the functions that have an address
  (\<^verbatim>\<open>getBinaryFunctions\<close>, in address order), all functions
  (\<^verbatim>\<open>getAllBinaryFunctions\<close>), the symbol table in its iteration order, the
  lookup of a function by name (\<^verbatim>\<open>getBinaryDataByName\<close> followed by
  \<^verbatim>\<open>getFunctionForSymbol\<close>), and two counters.
\<close>

record BinaryContext =
  BC_Function :: "bfid \<Rightarrow> BinaryFunction"
  BC_BinaryFunctions :: "bfid list"
  BC_AllBinaryFunctions :: "bfid list"
  BC_SymbolToFunctionMap :: "(string \<times> bfid) list"
  BC_lookupFunction :: "string \<Rightarrow> bfid option"
  BC_NumStaleFuncsWithEqualBlockCount :: u64
  BC_NumUnusedProfiledObjects :: u64

text \<open>
  What a run reads and writes: the reader, the binary context, the diagnostics, and the
  four counters that \<open>readProfile\<close> keeps in local variables and reports.
\<close>

record World =
  W_Reader :: YAMLProfileReader
  W_BC :: BinaryContext
  W_errs :: "warning list"
  MatchedWithExactName :: u64
  MatchedWithHash :: u64
  MatchedWithLTOCommonName :: u64
  MatchedWithNameSimilarity :: u64

datatype Error =
    FileError error_code
  | ParseError error_code
  | UnsupportedVersion
  | MultipleEvents

definition Functions :: "World \<Rightarrow> BinaryFunctionProfile list" where
  "Functions W = YamlBP_Functions (YamlBP (W_Reader W))"

definition Header :: "World \<Rightarrow> BinaryProfileHeader" where
  "Header W = YamlBP_Header (YamlBP (W_Reader W))"

definition getFunction :: "World \<Rightarrow> bfid \<Rightarrow> BinaryFunction" where
  "getFunction W BF = BC_Function (W_BC W) BF"

definition updFunction :: "bfid \<Rightarrow> (BinaryFunction \<Rightarrow> BinaryFunction) \<Rightarrow> World \<Rightarrow> World" where
  "updFunction BF f W =
     W\<lparr>W_BC := (W_BC W)\<lparr>BC_Function := (BC_Function (W_BC W))(BF := f (BC_Function (W_BC W) BF))\<rparr>\<rparr>"

definition setExecutionCount :: "bfid \<Rightarrow> u64 \<Rightarrow> World \<Rightarrow> World" where
  "setExecutionCount BF Cnt W = updFunction BF (\<lambda>F. F\<lparr>BF_ExecutionCount := Cnt\<rparr>) W"

definition warnW :: "opts \<Rightarrow> nat \<Rightarrow> warning \<Rightarrow> World \<Rightarrow> World" where
  "warnW Op level Wn W = (if Verbosity Op \<ge> level then W\<lparr>W_errs := W_errs W @ [Wn]\<rparr> else W)"

subsection \<open>Strings\<close>

text \<open>
  \<^verbatim>\<open>StringRef::find\<close>: the position of the first occurrence of \<open>Str\<close>, or
  \<open>None\<close> for \<^verbatim>\<open>npos\<close>.
\<close>

fun starts_with :: "string \<Rightarrow> string \<Rightarrow> bool" where
  "starts_with S [] = True"
| "starts_with [] (c # Str) = False"
| "starts_with (x # S) (c # Str) = (x = c \<and> starts_with S Str)"

fun find_str :: "string \<Rightarrow> string \<Rightarrow> nat option" where
  "find_str [] Str = (if Str = [] then Some 0 else None)"
| "find_str (x # S) Str =
     (if starts_with (x # S) Str then Some 0 else map_option Suc (find_str S Str))"

text \<open>Lines 627 to 629.\<close>

definition usesEvent :: "YAMLProfileReader \<Rightarrow> string \<Rightarrow> bool" where
  "usesEvent R Name = (find_str (Hdr_EventNames (YamlBP_Header (YamlBP R))) Name \<noteq> None)"

subsection \<open>buildNameMaps (lines 63 to 87)\<close>

text \<open>\<^verbatim>\<open>Map[Key].push_back(V)\<close> and \<^verbatim>\<open>Map[Key].insert(V)\<close> on a string map.\<close>

definition pushBack :: "string \<Rightarrow> 'a \<Rightarrow> (string \<times> 'a list) list \<Rightarrow> (string \<times> 'a list) list" where
  "pushBack Key V M =
     (if map_of M Key = None then M @ [(Key, [V])]
      else map (\<lambda>(K, Vs). if K = Key then (K, Vs @ [V]) else (K, Vs)) M)"

definition insertInto :: "string \<Rightarrow> 'a \<Rightarrow> (string \<times> 'a list) list \<Rightarrow> (string \<times> 'a list) list" where
  "insertInto Key V M =
     (if map_of M Key = None then M @ [(Key, [V])]
      else map (\<lambda>(K, Vs). if K = Key then (K, if V \<in> set Vs then Vs else Vs @ [V]) else (K, Vs)) M)"

definition cleanName :: "string \<Rightarrow> string" where
  "cleanName Name = (case find_str Name ''(*'' of None \<Rightarrow> Name | Some Pos \<Rightarrow> take Pos Name)"

definition nameProfile :: "Env \<Rightarrow> BinaryContext \<Rightarrow> nat \<Rightarrow> YAMLProfileReader \<Rightarrow> YAMLProfileReader" where
  "nameProfile E Ctx I R =
     (let Name = cleanName (YBF_Name (YamlBP_Functions (YamlBP R) ! I));
          R1 = R\<lparr>ProfileFunctionNames := insert Name (ProfileFunctionNames R),
                  ProfileBFs := ProfileBFs R @ [BC_lookupFunction Ctx Name]\<rparr>
      in case getLTOCommonName E Name of
           None \<Rightarrow> R1
         | Some CommonName \<Rightarrow>
             R1\<lparr>LTOCommonNameMap := pushBack CommonName I (LTOCommonNameMap R1)\<rparr>)"

definition nameFunction :: "Env \<Rightarrow> string \<times> bfid \<Rightarrow> YAMLProfileReader \<Rightarrow> YAMLProfileReader" where
  "nameFunction E = (\<lambda>(Symbol, BF) R.
     case getLTOCommonName E Symbol of
       None \<Rightarrow> R
     | Some CommonName \<Rightarrow>
         R\<lparr>LTOCommonNameFunctionMap := insertInto CommonName BF (LTOCommonNameFunctionMap R)\<rparr>)"

definition buildNameMaps :: "Env \<Rightarrow> BinaryContext \<Rightarrow> YAMLProfileReader \<Rightarrow> YAMLProfileReader" where
  "buildNameMaps E Ctx R =
     fold (nameFunction E) (BC_SymbolToFunctionMap Ctx)
       (fold (nameProfile E Ctx) [0..<length (YamlBP_Functions (YamlBP R))] R)"

subsection \<open>preprocessProfile (lines 296 to 343)\<close>

text \<open>
  The pairs of \<^verbatim>\<open>zip_equal(YamlBP.Functions, ProfileBFs)\<close>, by position.
\<close>

definition pairedIndices :: "World \<Rightarrow> nat list" where
  "pairedIndices W = [0..<min (length (Functions W)) (length (ProfileBFs (W_Reader W)))]"

text \<open>Lines 328 to 340, one pair.\<close>

definition preliminaryCount :: "Env \<Rightarrow> opts \<Rightarrow> nat \<Rightarrow> World \<Rightarrow> World" where
  "preliminaryCount E Op I W =
     (case ProfileBFs (W_Reader W) ! I of
        None \<Rightarrow> W
      | Some BF \<Rightarrow>
          if \<not> hasProfile E (getFunction W BF)
          then setExecutionCount BF (YBF_ExecCount (Functions W ! I)) W
          else (warnW Op 1 (DroppingDuplicateProfile (YBF_Name (Functions W ! I))) W)
                 \<lparr>W_Reader := (W_Reader W)\<lparr>ProfileBFs := (ProfileBFs (W_Reader W))[I := None]\<rparr>\<rparr>)"

text \<open>
  \<open>MB\<close> is the result of \<^verbatim>\<open>MemoryBuffer::getFileOrSTDIN(Filename)\<close>: an error
  code or the contents of the file. The YAML loader fills \<open>YamlBP\<close> and may report a
  syntax error.
\<close>

definition preprocessProfile ::
  "Env \<Rightarrow> opts \<Rightarrow> error_code + string \<Rightarrow> World \<Rightarrow> Error option \<times> World"
where
  "preprocessProfile E Op MB W =
     (case MB of
        Inl EC \<Rightarrow> (Some (FileError EC), W\<lparr>W_errs := W_errs W @ [CannotOpen EC]\<rparr>)
      | Inr Buffer \<Rightarrow>
          (case yamlInput E Buffer of
             (Doc, YamlError) \<Rightarrow>
               let W1 = W\<lparr>W_Reader := (W_Reader W)\<lparr>YamlBP := Doc\<rparr>\<rparr>
               in (case YamlError of
                     Some EC \<Rightarrow>
                       (Some (ParseError EC), W1\<lparr>W_errs := W_errs W1 @ [SyntaxErrorParsing EC]\<rparr>)
                   | None \<Rightarrow>
                       if Hdr_Version (Header W1) \<noteq> 1 then (Some UnsupportedVersion, W1)
                       else if find_str (Hdr_EventNames (Header W1)) '','' \<noteq> None
                       then (Some MultipleEvents, W1)
                       else
                         let W2 = W1\<lparr>W_Reader := buildNameMaps E (W_BC W1) (W_Reader W1)\<rparr>
                         in (None, fold (preliminaryCount E Op) (pairedIndices W2) W2))))"

subsection \<open>The claim primitive\<close>

text \<open>
  Modelled from the spec: \<^verbatim>\<open>matchProfileToFunction\<close> is defined in the reader's
  header, which is not among the sources. Section 4.C: a claim sets
  \<open>YamlProfileToFunction[Id]\<close> to the binary function, sets \<open>Used\<close> and inserts
  the function into \<open>ProfiledFunctions\<close>. The table is a vector; an \<open>Id\<close> beyond
  its end extends it with null slots first (line 605 takes a record whose \<open>Id\<close> is
  beyond the table to be an ignored one). \<open>I\<close> is the position of the record in
  \<open>YamlBP.Functions\<close>.
\<close>

definition matchProfileToFunction :: "nat \<Rightarrow> bfid \<Rightarrow> YAMLProfileReader \<Rightarrow> YAMLProfileReader" where
  "matchProfileToFunction I BF R =
     (let Fs = YamlBP_Functions (YamlBP R);
          Id = YBF_Id (Fs ! I);
          Table = YamlProfileToFunction R;
          Table' = (if Id \<ge> length Table then Table @ replicate (Id + 1 - length Table) None
                    else Table)
      in R\<lparr>YamlProfileToFunction := Table'[Id := Some BF],
            YamlBP := (YamlBP R)\<lparr>YamlBP_Functions := Fs[I := (Fs ! I)\<lparr>YBF_Used := True\<rparr>]\<rparr>,
            ProfiledFunctions := insert BF (ProfiledFunctions R)\<rparr>)"

definition claim :: "nat \<Rightarrow> bfid \<Rightarrow> World \<Rightarrow> World" where
  "claim I BF W = W\<lparr>W_Reader := matchProfileToFunction I BF (W_Reader W)\<rparr>"

definition isUsed :: "World \<Rightarrow> nat \<Rightarrow> bool" where
  "isUsed W I = YBF_Used (Functions W ! I)"

definition isProfiled :: "World \<Rightarrow> bfid \<Rightarrow> bool" where
  "isProfiled W BF = (BF \<in> ProfiledFunctions (W_Reader W))"

subsection \<open>readProfile: the matching stages (lines 478 to 581)\<close>

text \<open>The lambda \<^verbatim>\<open>profileMatches\<close> of lines 480 to 485.\<close>

definition profileMatches :: "opts \<Rightarrow> BinaryFunctionProfile \<Rightarrow> BinaryFunction \<Rightarrow> bool" where
  "profileMatches Op Profile BF =
     (if IgnoreHash Op then YBF_NumBasicBlocks Profile = BF_size BF
      else YBF_Hash Profile = BF_Hash BF)"

text \<open>Lines 491 to 502: hashes of all functions, or of the functions paired by name.\<close>

definition computeHashOf :: "Env \<Rightarrow> bfid \<Rightarrow> World \<Rightarrow> World" where
  "computeHashOf E BF W =
     updFunction BF (\<lambda>F. F\<lparr>BF_Hash := computeHash E (Hdr_IsDFSOrder (Header W))
                                          (Hdr_HashFunction (Header W)) F\<rparr>) W"

definition computeHashes :: "Env \<Rightarrow> opts \<Rightarrow> World \<Rightarrow> World" where
  "computeHashes E Op W =
     (if MatchProfileWithFunctionHash Op
      then fold (computeHashOf E) (BC_BinaryFunctions (W_BC W)) W
      else if \<not> IgnoreHash Op
      then fold (\<lambda>Slot W'. case Slot of None \<Rightarrow> W' | Some BF \<Rightarrow> computeHashOf E BF W')
             (ProfileBFs (W_Reader W)) W
      else W)"

text \<open>Lines 504 to 517, one pair: the first pass, by name and by hash.\<close>

definition matchExact :: "Env \<Rightarrow> opts \<Rightarrow> nat \<Rightarrow> World \<Rightarrow> World" where
  "matchExact E Op I W =
     (case ProfileBFs (W_Reader W) ! I of
        None \<Rightarrow> W
      | Some BF \<Rightarrow>
          let W1 = setExecutionCount BF (BF_COUNT_NO_PROFILE E) W
          in if profileMatches Op (Functions W1 ! I) (getFunction W1 BF)
             then (claim I BF W1)\<lparr>MatchedWithExactName := MatchedWithExactName W1 + 1\<rparr>
             else W1)"

definition stageExact :: "Env \<Rightarrow> opts \<Rightarrow> World \<Rightarrow> World" where
  "stageExact E Op W = fold (matchExact E Op) (pairedIndices W) W"

text \<open>Lines 522 to 539: the map from hashes to functions, the last function of a hash winning.\<close>

definition StrictHashToBF :: "World \<Rightarrow> (u64 \<rightharpoonup> bfid)" where
  "StrictHashToBF W =
     fold (\<lambda>BF M. M(BF_Hash (getFunction W BF) \<mapsto> BF)) (BC_BinaryFunctions (W_BC W)) Map.empty"

definition matchHash :: "(u64 \<rightharpoonup> bfid) \<Rightarrow> nat \<Rightarrow> World \<Rightarrow> World" where
  "matchHash Table I W =
     (if isUsed W I then W
      else (case Table (YBF_Hash (Functions W ! I)) of
              None \<Rightarrow> W
            | Some BF \<Rightarrow>
                if \<not> isProfiled W BF
                then (claim I BF W)\<lparr>MatchedWithHash := MatchedWithHash W + 1\<rparr>
                else W))"

definition stageHash :: "opts \<Rightarrow> World \<Rightarrow> World" where
  "stageHash Op W =
     (if MatchProfileWithFunctionHash Op
      then fold (matchHash (StrictHashToBF W)) [0..<length (Functions W)] W
      else W)"

text \<open>
  Lines 541 to 571: the second pass, by LTO common name. \<open>matchProfile\<close> is the lambda
  of lines 549 to 560; \<^verbatim>\<open>llvm::any_of\<close> stops at the first profile for which it
  returns true.
\<close>

definition matchProfile :: "opts \<Rightarrow> bfid list \<Rightarrow> nat \<Rightarrow> World \<Rightarrow> bool \<times> World" where
  "matchProfile Op Fns I W =
     (if isUsed W I then (False, W)
      else (case find (\<lambda>BF. \<not> isProfiled W BF \<and> profileMatches Op (Functions W ! I) (getFunction W BF))
                   Fns of
              None \<Rightarrow> (False, W)
            | Some BF \<Rightarrow>
                (True, (claim I BF W)\<lparr>MatchedWithLTOCommonName := MatchedWithLTOCommonName W + 1\<rparr>)))"

fun any_of :: "(nat \<Rightarrow> World \<Rightarrow> bool \<times> World) \<Rightarrow> nat list \<Rightarrow> World \<Rightarrow> bool \<times> World" where
  "any_of P [] W = (False, W)"
| "any_of P (I # Is) W = (case P I W of (True, W') \<Rightarrow> (True, W') | (False, W') \<Rightarrow> any_of P Is W')"

definition matchLTO :: "Env \<Rightarrow> opts \<Rightarrow> string \<times> nat list \<Rightarrow> World \<Rightarrow> World" where
  "matchLTO E Op = (\<lambda>(CommonName, LTOProfiles) W.
     case map_of (LTOCommonNameFunctionMap (W_Reader W)) CommonName of
       None \<Rightarrow> W
     | Some FnSet \<Rightarrow>
         let Fns = UnorderedSetOrder E FnSet
         in (case any_of (matchProfile Op Fns) LTOProfiles W of
               (ProfileMatched, W1) \<Rightarrow>
                 if \<not> ProfileMatched \<and> length LTOProfiles = 1 \<and> length Fns = 1 \<and>
                    \<not> isUsed W1 (hd LTOProfiles) \<and> \<not> isProfiled W1 (hd Fns)
                 then (claim (hd LTOProfiles) (hd Fns) W1)
                        \<lparr>MatchedWithLTOCommonName := MatchedWithLTOCommonName W1 + 1\<rparr>
                 else W1))"

definition stageLTO :: "Env \<Rightarrow> opts \<Rightarrow> World \<Rightarrow> World" where
  "stageLTO E Op W = fold (matchLTO E Op) (StringMapOrder E (LTOCommonNameMap (W_Reader W))) W"

text \<open>Lines 573 to 575, one pair: what is left of the pairs by name.\<close>

definition matchResidual :: "nat \<Rightarrow> World \<Rightarrow> World" where
  "matchResidual I W =
     (case ProfileBFs (W_Reader W) ! I of
        None \<Rightarrow> W
      | Some BF \<Rightarrow> if \<not> isUsed W I \<and> \<not> isProfiled W BF then claim I BF W else W)"

definition stageResidual :: "World \<Rightarrow> World" where
  "stageResidual W = fold matchResidual (pairedIndices W) W"

subsection \<open>matchWithNameSimilarity (lines 361 to 464)\<close>

definition ProfileBFDemangledNames :: "Env \<Rightarrow> World \<Rightarrow> string list" where
  "ProfileBFDemangledNames E W = map (\<lambda>YamlBF. DemangleName E (YBF_Name YamlBF)) (Functions W)"

definition ProfiledBFNamespaces :: "Env \<Rightarrow> World \<Rightarrow> string list" where
  "ProfiledBFNamespaces E W = map (DeriveNameSpace E) (ProfileBFDemangledNames E W)"

definition NamespaceToProfiledBFSizes :: "Env \<Rightarrow> World \<Rightarrow> (string \<rightharpoonup> nat set)" where
  "NamespaceToProfiledBFSizes E W =
     fold (\<lambda>(Namespace, YamlBF) M.
             M(Namespace \<mapsto> insert (YBF_NumBasicBlocks YamlBF)
                                (case M Namespace of None \<Rightarrow> {} | Some Sizes \<Rightarrow> Sizes)))
       (zip (ProfiledBFNamespaces E W) (Functions W)) Map.empty"

definition NamespaceToBFs :: "Env \<Rightarrow> World \<Rightarrow> (string \<rightharpoonup> bfid list)" where
  "NamespaceToBFs E W =
     fold (\<lambda>BF M.
             let Namespace = DeriveNameSpace E (BF_DemangledName (getFunction W BF))
             in (case NamespaceToProfiledBFSizes E W Namespace of
                   None \<Rightarrow> M
                 | Some Sizes \<Rightarrow>
                     if BF_size (getFunction W BF) \<notin> Sizes then M
                     else (case M Namespace of
                             None \<Rightarrow> M(Namespace \<mapsto> [BF])
                           | Some BFs \<Rightarrow> M(Namespace \<mapsto> BFs @ [BF]))))
       (BC_AllBinaryFunctions (W_BC W)) Map.empty"

text \<open>Lines 442 to 454: the closest function by edit distance, starting from \<^verbatim>\<open>UINT_MAX\<close>.\<close>

definition closerName ::
  "Env \<Rightarrow> World \<Rightarrow> BinaryFunctionProfile \<Rightarrow> string \<Rightarrow> bfid \<Rightarrow> 32 word \<times> bfid option \<Rightarrow>
   32 word \<times> bfid option"
where
  "closerName E W YamlBF YamlBFDemangledName BF = (\<lambda>(MinEditDistance, ClosestNameBF).
     if isProfiled W BF then (MinEditDistance, ClosestNameBF)
     else if BF_size (getFunction W BF) \<noteq> YBF_NumBasicBlocks YamlBF
     then (MinEditDistance, ClosestNameBF)
     else
       let BFEditDistance = edit_distance E (BF_DemangledName (getFunction W BF)) YamlBFDemangledName
       in if BFEditDistance < MinEditDistance then (BFEditDistance, Some BF)
          else (MinEditDistance, ClosestNameBF))"

definition matchSimilar ::
  "Env \<Rightarrow> opts \<Rightarrow> string list \<Rightarrow> string list \<Rightarrow> (string \<rightharpoonup> bfid list) \<Rightarrow> nat \<Rightarrow> World \<Rightarrow> World"
where
  "matchSimilar E Op Names Namespaces ToBFs I W =
     (if isUsed W I then W
      else (case ToBFs (Namespaces ! I) of
              None \<Rightarrow> W
            | Some BFs \<Rightarrow>
                (case fold (closerName E W (Functions W ! I) (Names ! I)) BFs (- 1, None) of
                   (MinEditDistance, None) \<Rightarrow> W
                 | (MinEditDistance, Some ClosestNameBF) \<Rightarrow>
                     if MinEditDistance \<le> NameSimilarityFunctionMatchingThreshold Op
                     then (claim I ClosestNameBF W)
                            \<lparr>MatchedWithNameSimilarity := MatchedWithNameSimilarity W + 1\<rparr>
                     else W)))"

definition matchWithNameSimilarity :: "Env \<Rightarrow> opts \<Rightarrow> World \<Rightarrow> World" where
  "matchWithNameSimilarity E Op W =
     fold (matchSimilar E Op (ProfileBFDemangledNames E W) (ProfiledBFNamespaces E W)
             (NamespaceToBFs E W))
       [0..<length (Functions W)] (W\<lparr>MatchedWithNameSimilarity := 0\<rparr>)"

definition stageSimilarity :: "Env \<Rightarrow> opts \<Rightarrow> World \<Rightarrow> World" where
  "stageSimilarity E Op W =
     (if NameSimilarityFunctionMatchingThreshold Op > 0 then matchWithNameSimilarity E Op W
      else W\<lparr>MatchedWithNameSimilarity := 0\<rparr>)"

subsection \<open>readProfile (lines 466 to 625)\<close>

text \<open>
  Line 478 and the counters of lines 487 to 489. \<^verbatim>\<open>resize\<close> cuts the table or
  fills it with null slots.
\<close>

definition startMatching :: "World \<Rightarrow> World" where
  "startMatching W =
     (let N = length (Functions W) + 1;
          Table = YamlProfileToFunction (W_Reader W)
      in W\<lparr>W_Reader := (W_Reader W)
              \<lparr>YamlProfileToFunction := take N Table @ replicate (N - length Table) None\<rparr>,
            MatchedWithExactName := 0, MatchedWithHash := 0, MatchedWithLTOCommonName := 0\<rparr>)"

definition matchProfiles :: "Env \<Rightarrow> opts \<Rightarrow> World \<Rightarrow> World" where
  "matchProfiles E Op W =
     stageSimilarity E Op
       (stageResidual
          (stageLTO E Op
             (stageHash Op
                (stageExact E Op
                   (computeHashes E Op (startMatching W))))))"

text \<open>Lines 583 to 586: the records that no stage claimed.\<close>

definition warnIgnored :: "opts \<Rightarrow> World \<Rightarrow> World" where
  "warnIgnored Op W =
     fold (\<lambda>YamlBF W'. if \<not> YBF_Used YamlBF
                        then warnW Op 1 (ProfileIgnoredForFunction (YBF_Name YamlBF)) W' else W')
       (Functions W) W"

text \<open>Lines 599 to 601.\<close>

definition setNormalizers :: "World \<Rightarrow> World" where
  "setNormalizers W =
     W\<lparr>W_Reader := (W_Reader W)
         \<lparr>NormalizeByInsnCount := usesEvent (W_Reader W) ''cycles'' \<or>
                                   usesEvent (W_Reader W) ''instructions'',
          NormalizeByCalls := usesEvent (W_Reader W) ''branches''\<rparr>\<rparr>"

text \<open>Lines 603 to 616: propagation, one record; the second component is \<open>NumUnused\<close>.\<close>

definition propagateRecord :: "Env \<Rightarrow> opts \<Rightarrow> BinaryFunctionProfile \<Rightarrow> World \<times> u64 \<Rightarrow> World \<times> u64" where
  "propagateRecord E Op YamlBF = (\<lambda>(W, NumUnused).
     if YBF_Id YamlBF \<ge> length (YamlProfileToFunction (W_Reader W)) then (W, NumUnused + 1)
     else (case YamlProfileToFunction (W_Reader W) ! YBF_Id YamlBF of
             None \<Rightarrow> (W, NumUnused + 1)
           | Some BF \<Rightarrow>
               (case parseFunctionProfile E Op (W_Reader W) YamlBF
                       (getFunction W BF, BC_NumStaleFuncsWithEqualBlockCount (W_BC W), W_errs W) of
                  (Matched, BF', Stats', Errs') \<Rightarrow>
                    ((updFunction BF (\<lambda>_. BF') W)
                       \<lparr>W_BC := (W_BC (updFunction BF (\<lambda>_. BF') W))
                                  \<lparr>BC_NumStaleFuncsWithEqualBlockCount := Stats'\<rparr>,
                        W_errs := Errs'\<rparr>, NumUnused))))"

definition propagateProfiles :: "Env \<Rightarrow> opts \<Rightarrow> World \<Rightarrow> World" where
  "propagateProfiles E Op W =
     (case fold (propagateRecord E Op) (Functions W) (W, 0) of
        (W', NumUnused) \<Rightarrow> W'\<lparr>W_BC := (W_BC W')\<lparr>BC_NumUnusedProfiledObjects := NumUnused\<rparr>\<rparr>)"

text \<open>Lines 618 to 622.\<close>

definition ignoreUnprofiled :: "Env \<Rightarrow> opts \<Rightarrow> World \<Rightarrow> World" where
  "ignoreUnprofiled E Op W =
     (if Lite Op \<and> MatchProfileWithFunctionHash Op
      then fold (\<lambda>BF W'. if \<not> hasProfile E (getFunction W' BF)
                          then updFunction BF (\<lambda>F. F\<lparr>BF_Ignored := True\<rparr>) W' else W')
             (BC_AllBinaryFunctions (W_BC W)) W
      else W)"

text \<open>
  The whole function. It always returns \<^verbatim>\<open>Error::success()\<close>; the lines written to
  \<^verbatim>\<open>outs()\<close> report the hash function and the four counters and are left out.
\<close>

definition readProfile :: "Env \<Rightarrow> opts \<Rightarrow> World \<Rightarrow> World" where
  "readProfile E Op W =
     ignoreUnprofiled E Op
       (propagateProfiles E Op
          (setNormalizers
             (warnIgnored Op (matchProfiles E Op W))))"

section \<open>Reference definitions and example data\<close>

text \<open>
  The sum of all successor counts of a profile record, as spec property P3 words it.
\<close>

definition successorCounts :: "BinaryFunctionProfile \<Rightarrow> u64 list" where
  "successorCounts YamlBF = map SI_Count (concat (map YBB_Successors (YBF_Blocks YamlBF)))"

text \<open>
  The stale-profile inference is another pass of the optimizer. Where a theorem is about
  what \<open>parseFunctionProfile\<close> itself leaves in the binary function, it asks that
  the pass, when it is enabled, returns the function as it got it.
\<close>

definition staleInferenceInert :: "Env \<Rightarrow> opts \<Rightarrow> bool" where
  "staleInferenceInert E Op =
     (InferStaleProfile Op \<longrightarrow> (\<forall>BF Y. snd (inferStaleProfile E BF Y) = BF))"

text \<open>An environment, options and a reader in LBR mode, used by the examples.\<close>

definition Env0 :: Env where
  "Env0 = \<lparr>PF_SAMPLE = 2, BF_COUNT_NO_PROFILE = - 1, BB_COUNT_NO_PROFILE = - 1,
     computeHash = (\<lambda>_ _ BF. BF_Hash BF),
     inferStaleProfile = (\<lambda>BF _. (False, BF)),
     getSymbolForEntryID = (\<lambda>_ _. Some ''callee''),
     yamlInput = (\<lambda>_. (\<lparr>YamlBP_Header = \<lparr>Hdr_Version = 1, Hdr_Flags = 1, Hdr_EventNames = ''cycles'',
                     Hdr_HashFunction = StdHash, Hdr_IsDFSOrder = False\<rparr>,
                   YamlBP_Functions = []\<rparr>, None)),
     getLTOCommonName = (\<lambda>_. None),
     DemangleName = (\<lambda>N. N),
     DeriveNameSpace = (\<lambda>_. []),
     edit_distance = (\<lambda>_ _. 0),
     StringMapOrder = (\<lambda>M. M),
     UnorderedSetOrder = (\<lambda>Fs. Fs)\<rparr>"

definition Opts0 :: opts where
  "Opts0 = \<lparr>Verbosity = 0, InferStaleProfile = False, Lite = False,
     NameSimilarityFunctionMatchingThreshold = 0, IgnoreHash = False,
     MatchProfileWithFunctionHash = False\<rparr>"

definition Reader0 :: "16 word \<Rightarrow> YAMLProfileReader" where
  "Reader0 Flags = \<lparr>YamlBP = \<lparr>YamlBP_Header = \<lparr>Hdr_Version = 1, Hdr_Flags = Flags,
        Hdr_EventNames = ''cycles'', Hdr_HashFunction = StdHash, Hdr_IsDFSOrder = False\<rparr>,
        YamlBP_Functions = []\<rparr>,
     ProfileFunctionNames = {}, ProfileBFs = [], LTOCommonNameMap = [],
     LTOCommonNameFunctionMap = [], YamlProfileToFunction = [], ProfiledFunctions = {},
     NormalizeByInsnCount = True, NormalizeByCalls = False\<rparr>"

definition noBlock :: BinaryBasicBlock where
  "noBlock = \<lparr>BB_ExecutionCount = - 1, BB_NumNonPseudos = 0, BB_NumCalls = 0,
     BB_isEntryPoint = False, BB_OriginalSize = 0, BB_InputOffset = 0, BB_Successors = []\<rparr>"

text \<open>A binary function without blocks, and a profile record for it.\<close>

definition emptyBF :: BinaryFunction where
  "emptyBF = \<lparr>BF_ExecutionCount = - 1, BF_RawBranchCount = 0, BF_Hash = 0,
     BF_BasicBlocks = [], BF_Layout = [], BF_DFS = [], BF_Block = (\<lambda>_. noBlock),
     BF_Instructions = Map.empty, BF_AllCallSites = [], BF_ProfileFlags = None,
     BF_DemangledName = ''f'', BF_Ignored = False\<rparr>"

definition edgeProfile :: BinaryFunctionProfile where
  "edgeProfile = \<lparr>YBF_Name = ''f'', YBF_Id = 1, YBF_Hash = 7, YBF_NumBasicBlocks = 3,
     YBF_ExecCount = 5,
     YBF_Blocks = [\<lparr>YBB_Index = 0, YBB_ExecCount = 100, YBB_EventCount = 0, YBB_CallSites = [],
                    YBB_Successors = [\<lparr>SI_Index = 1, SI_Count = 70, SI_Mispreds = 2\<rparr>,
                                      \<lparr>SI_Index = 9, SI_Count = 30, SI_Mispreds = 0\<rparr>]\<rparr>],
     YBF_Used = False\<rparr>"

text \<open>
  Spec property P5 and the sample-mode paragraph of section 4.E: the count of a block
  from its event count, and what a profiled block adds to the function's count.
\<close>

definition sampleCount :: "YAMLProfileReader \<Rightarrow> BinaryBasicBlock \<Rightarrow> u64 \<Rightarrow> u64" where
  "sampleCount R BB EventCount =
     (if EventCount = 0 then 0
      else if NormalizeByInsnCount R \<and> 0 < BB_NumNonPseudos BB
      then (EventCount * 1000) div of_nat (BB_NumNonPseudos BB)
      else if NormalizeByCalls R
      then (EventCount * 1000) div of_nat (BB_NumCalls BB + 1)
      else EventCount * 1000)"

definition entrySamples ::
  "YAMLProfileReader \<Rightarrow> bbid list \<Rightarrow> (bbid \<Rightarrow> BinaryBasicBlock) \<Rightarrow> BinaryBasicBlockProfile \<Rightarrow> u64"
where
  "entrySamples R Order Blk YamlBB =
     (if YBB_Index YamlBB < length Order \<and> BB_isEntryPoint (Blk (Order ! YBB_Index YamlBB))
      then sampleCount R (Blk (Order ! YBB_Index YamlBB)) (YBB_EventCount YamlBB)
      else 0)"

definition blockOrder :: "YAMLProfileReader \<Rightarrow> BinaryFunction \<Rightarrow> bbid list" where
  "blockOrder R BF = (if Hdr_IsDFSOrder (YamlBP_Header (YamlBP R)) then BF_DFS BF else BF_Layout BF)"

text \<open>
  Spec property P6: the pass-through block of an edge from \<open>B\<close> to \<open>ToBB\<close> is the
  false-branch conditional successor of \<open>B\<close>, when its only successor is \<open>ToBB\<close>.
\<close>

definition passThrough :: "BinaryFunction \<Rightarrow> bbid \<Rightarrow> bbid \<Rightarrow> bbid option" where
  "passThrough BF B ToBB =
     (case getConditionalSuccessor (BF_Block BF B) False of
        None \<Rightarrow> None
      | Some FT \<Rightarrow> if map fst (BB_Successors (BF_Block BF FT)) = [ToBB] then Some FT else None)"

definition addCounts :: "u64 \<Rightarrow> u64 \<Rightarrow> BinaryBranchInfo \<Rightarrow> BinaryBranchInfo" where
  "addCounts c m BI = \<lparr>BI_Count = BI_Count BI + c, BI_MispredictedCount = BI_MispredictedCount BI + m\<rparr>"

text \<open>Section 4.E, call sites, steps 1 to 3: the callee symbol and the validation.\<close>

definition resolveCallee :: "Env \<Rightarrow> bfid option list \<Rightarrow> CallSiteInfo \<Rightarrow> symbol option" where
  "resolveCallee E Y2F YamlCSI =
     (if CSI_DestId YamlCSI < length Y2F
      then (case Y2F ! CSI_DestId YamlCSI of
              None \<Rightarrow> None
            | Some C \<Rightarrow> getSymbolForEntryID E C (CSI_EntryDiscriminator YamlCSI))
      else None)"

definition callSiteEntry ::
  "Env \<Rightarrow> bfid option list \<Rightarrow> CallSiteInfo \<Rightarrow> symbol option \<times> u64 \<times> u64 \<times> nat"
where
  "callSiteEntry E Y2F YamlCSI =
     (resolveCallee E Y2F YamlCSI, CSI_Count YamlCSI, CSI_Mispreds YamlCSI, CSI_Offset YamlCSI)"

definition invalidCallSite :: "BinaryFunction \<Rightarrow> bbid \<Rightarrow> CallSiteInfo \<Rightarrow> bool" where
  "invalidCallSite BF B YamlCSI =
     (\<not> CSI_Offset YamlCSI < BB_OriginalSize (BF_Block BF B) \<or>
      (case BF_Instructions BF (BB_InputOffset (BF_Block BF B) + CSI_Offset YamlCSI) of
         None \<Rightarrow> True
       | Some Instr \<Rightarrow> \<not> (MI_isCall Instr \<or> MI_isIndirectBranch Instr)))"

text \<open>
  Section 4.E, call sites, step 4: a scalar annotation is set unless one of that name is
  there already; the duplicates are the names that were there.
\<close>

definition keepOrSet :: "(string \<rightharpoonup> Annotation) \<Rightarrow> string \<Rightarrow> u64 \<Rightarrow> (string \<rightharpoonup> Annotation)" where
  "keepOrSet A Name Val = (case A Name of None \<Rightarrow> A(Name \<mapsto> Scalar Val) | Some _ \<Rightarrow> A)"

definition duplicateWarnings :: "opts \<Rightarrow> (string \<rightharpoonup> Annotation) \<Rightarrow> nat \<Rightarrow> string list \<Rightarrow> warning list" where
  "duplicateWarnings Op A Offset Names =
     (if Verbosity Op \<ge> 1
      then map (\<lambda>N. IgnoringDuplicateInfo N Offset) (filter (\<lambda>N. A N \<noteq> None) Names)
      else [])"

text \<open>
  A function of four blocks in layout order: block 0 is the entry and branches to block 1
  or falls through to block 2, whose only successor is block 3. The instruction at
  offset 8 is a direct call that already carries a \<open>Count\<close> annotation, the one at
  offset 12 an indirect call.
\<close>

definition noBranch :: BinaryBranchInfo where
  "noBranch = \<lparr>BI_Count = 0, BI_MispredictedCount = 0\<rparr>"

definition fourBlocks :: "bbid \<Rightarrow> BinaryBasicBlock" where
  "fourBlocks B =
     (if B = 0 then \<lparr>BB_ExecutionCount = - 1, BB_NumNonPseudos = 2, BB_NumCalls = 1,
          BB_isEntryPoint = True, BB_OriginalSize = 16, BB_InputOffset = 0,
          BB_Successors = [(1, noBranch), (2, noBranch)]\<rparr>
      else if B = 2 then noBlock\<lparr>BB_Successors := [(3, noBranch)]\<rparr>
      else noBlock)"

definition directCall :: MCInst where
  "directCall = \<lparr>MI_isCall = True, MI_isIndirectCall = False, MI_isIndirectBranch = False,
     MI_isConditionalTailCall = False, MI_Annotations = [''Count'' \<mapsto> Scalar 9]\<rparr>"

definition indirectCall :: MCInst where
  "indirectCall = \<lparr>MI_isCall = True, MI_isIndirectCall = True, MI_isIndirectBranch = False,
     MI_isConditionalTailCall = False, MI_Annotations = Map.empty\<rparr>"

definition fourBlockBF :: BinaryFunction where
  "fourBlockBF = \<lparr>BF_ExecutionCount = - 1, BF_RawBranchCount = 0, BF_Hash = 7,
     BF_BasicBlocks = [0, 1, 2, 3], BF_Layout = [0, 1, 2, 3], BF_DFS = [0, 1, 2, 3],
     BF_Block = fourBlocks,
     BF_Instructions = [8 \<mapsto> directCall, 12 \<mapsto> indirectCall],
     BF_AllCallSites = [], BF_ProfileFlags = None,
     BF_DemangledName = ''f'', BF_Ignored = False\<rparr>"

definition startState :: "BinaryFunction \<Rightarrow> PState" where
  "startState BF = \<lparr>bf = BF, MismatchedBlocks = 0, MismatchedCalls = 0, MismatchedEdges = 0,
     FunctionExecutionCount = 0, errs = []\<rparr>"

definition sampleProfile :: BinaryFunctionProfile where
  "sampleProfile = \<lparr>YBF_Name = ''f'', YBF_Id = 1, YBF_Hash = 7, YBF_NumBasicBlocks = 4,
     YBF_ExecCount = 5,
     YBF_Blocks = [\<lparr>YBB_Index = 0, YBB_ExecCount = 0, YBB_EventCount = 5, YBB_CallSites = [],
                    YBB_Successors = []\<rparr>],
     YBF_Used = False\<rparr>"

definition callAt :: "nat \<Rightarrow> CallSiteInfo" where
  "callAt Off = \<lparr>CSI_DestId = 0, CSI_EntryDiscriminator = 0, CSI_Offset = Off,
     CSI_Count = 40, CSI_Mispreds = 3\<rparr>"


text \<open>A profiled edge from block 0 to block 3, which block 0 reaches through block 2 only.\<close>

definition edge03 :: SuccessorInfo where
  "edge03 = \<lparr>SI_Index = 3, SI_Count = 70, SI_Mispreds = 2\<rparr>"

definition Opts1 :: opts where
  "Opts1 = Opts0\<lparr>Verbosity := 1\<rparr>"

text \<open>
  For the instruction at an offset, whether it is a call and whether it is an indirect
  branch; the state after line 182, with the call site appended; the offset passed to
  \<^verbatim>\<open>getInstructionAtOffset\<close>.
\<close>

definition callKinds :: "BinaryFunction \<Rightarrow> nat \<Rightarrow> (bool \<times> bool) option" where
  "callKinds BF At = map_option (\<lambda>I. (MI_isCall I, MI_isIndirectBranch I)) (BF_Instructions BF At)"

definition withCallSite :: "Env \<Rightarrow> bfid option list \<Rightarrow> CallSiteInfo \<Rightarrow> PState \<Rightarrow> PState" where
  "withCallSite E Y2F YamlCSI S =
     S\<lparr>bf := (bf S)\<lparr>BF_AllCallSites := BF_AllCallSites (bf S) @ [callSiteEntry E Y2F YamlCSI]\<rparr>\<rparr>"

definition callSiteAt :: "BinaryFunction \<Rightarrow> bbid \<Rightarrow> CallSiteInfo \<Rightarrow> nat" where
  "callSiteAt BF B YamlCSI = BB_InputOffset (BF_Block BF B) + CSI_Offset YamlCSI"

text \<open>A profiled block with a call site at offset 8 and one at offset 20, beyond the block.\<close>

definition callBlock :: BinaryBasicBlockProfile where
  "callBlock = \<lparr>YBB_Index = 0, YBB_ExecCount = 100, YBB_EventCount = 0,
     YBB_CallSites = [callAt 8, callAt 20], YBB_Successors = []\<rparr>"

text \<open>
  How a reader changes under claims: \<open>claims g R R'\<close> holds when \<open>R'\<close> comes from
  \<open>R\<close> by a sequence of calls of \<open>matchProfileToFunction\<close>; with \<open>g\<close> set, each
  of them claims a binary function that is not in \<open>ProfiledFunctions\<close> at that
  moment.
\<close>

inductive claims :: "bool \<Rightarrow> YAMLProfileReader \<Rightarrow> YAMLProfileReader \<Rightarrow> bool" where
  same: "claims g R R"
| more: "claims g R R' \<Longrightarrow> (g \<longrightarrow> BF \<notin> ProfiledFunctions R') \<Longrightarrow>
         claims g R (matchProfileToFunction I BF R')"

text \<open>Two lists of profile records that differ in \<open>Used\<close> flags set, at most.\<close>

definition sameButUsed :: "BinaryFunctionProfile list \<Rightarrow> BinaryFunctionProfile list \<Rightarrow> bool" where
  "sameButUsed Fs' Fs =
     (map (\<lambda>F. F\<lparr>YBF_Used := False\<rparr>) Fs' = map (\<lambda>F. F\<lparr>YBF_Used := False\<rparr>) Fs \<and>
      (\<forall>I < length Fs. YBF_Used (Fs ! I) \<longrightarrow> YBF_Used (Fs' ! I)))"

text \<open>
  Section 7 of the spec, tier 1, for a file that could be opened: a syntax error, a
  version other than 1, or a comma in the event names.
\<close>

definition hasSyntaxOrHeaderError :: "Env \<Rightarrow> string \<Rightarrow> bool" where
  "hasSyntaxOrHeaderError E Buffer =
     (snd (yamlInput E Buffer) \<noteq> None \<or>
      Hdr_Version (YamlBP_Header (fst (yamlInput E Buffer))) \<noteq> 1 \<or>
      CHR '','' \<in> set (Hdr_EventNames (YamlBP_Header (fst (yamlInput E Buffer)))))"

text \<open>\<open>Name\<close> occurs in \<open>S\<close> as a substring.\<close>

definition occursIn :: "string \<Rightarrow> string \<Rightarrow> bool" where
  "occursIn Name S = (\<exists>Pre Post. S = Pre @ Name @ Post)"

text \<open>
  A binary context with two functions, \<open>f\<close> of hash 7 at address 0 and \<open>g\<close> of
  hash 8 at address 1, and a run that starts with a new reader.
\<close>

definition twoFunctions :: "bfid \<Rightarrow> BinaryFunction" where
  "twoFunctions BF = (if BF = 0 then fourBlockBF else fourBlockBF\<lparr>BF_Hash := 8, BF_DemangledName := ''g''\<rparr>)"

definition Context0 :: BinaryContext where
  "Context0 = \<lparr>BC_Function = twoFunctions, BC_BinaryFunctions = [0, 1],
     BC_AllBinaryFunctions = [0, 1], BC_SymbolToFunctionMap = [(''f'', 0), (''g'', 1)],
     BC_lookupFunction = (\<lambda>Name. if Name = ''f'' then Some 0 else if Name = ''g'' then Some 1 else None),
     BC_NumStaleFuncsWithEqualBlockCount = 0, BC_NumUnusedProfiledObjects = 0\<rparr>"

definition World0 :: World where
  "World0 = \<lparr>W_Reader = Reader0 1, W_BC = Context0, W_errs = [], MatchedWithExactName = 0,
     MatchedWithHash = 0, MatchedWithLTOCommonName = 0, MatchedWithNameSimilarity = 0\<rparr>"

text \<open>Two states in which every binary function has the same hash and the same size.\<close>

definition sameShapes :: "World \<Rightarrow> World \<Rightarrow> bool" where
  "sameShapes W' W =
     (\<forall>b. BF_Hash (getFunction W' b) = BF_Hash (getFunction W b) \<and>
          BF_size (getFunction W' b) = BF_size (getFunction W b))"

text \<open>
  A run that has paired the record \<open>edgeProfile\<close> (hash 7) with the function at
  address 0 (hash 7) by name, with hash matching enabled.
\<close>

definition OptsHash :: opts where
  "OptsHash = Opts0\<lparr>MatchProfileWithFunctionHash := True\<rparr>"

definition World6 :: World where
  "World6 = World0\<lparr>W_Reader := (Reader0 1)
     \<lparr>YamlBP := (YamlBP (Reader0 1))\<lparr>YamlBP_Functions := [edgeProfile]\<rparr>,
      ProfileBFs := [Some 0], YamlProfileToFunction := [None, None]\<rparr>\<rparr>"

text \<open>
  Spec property P1. The table is sound when every function in it is in
  \<open>ProfiledFunctions\<close> and no function is in two of its slots; \<open>targetOf R I\<close> is
  the entry of the table for the record at position \<open>I\<close>, found at the record's
  \<open>Id\<close>; the slots of \<open>ProfileBFs\<close> have no duplicate when no function is in two
  of them.
\<close>

definition tableOK :: "YAMLProfileReader \<Rightarrow> bool" where
  "tableOK R =
     ((\<forall>Id < length (YamlProfileToFunction R). \<forall>BF.
         YamlProfileToFunction R ! Id = Some BF \<longrightarrow> BF \<in> ProfiledFunctions R) \<and>
      (\<forall>Id Id' BF. Id < length (YamlProfileToFunction R) \<and> Id' < length (YamlProfileToFunction R) \<and>
         YamlProfileToFunction R ! Id = Some BF \<and> YamlProfileToFunction R ! Id' = Some BF
           \<longrightarrow> Id = Id'))"

definition noDuplicateSlots :: "bfid option list \<Rightarrow> bool" where
  "noDuplicateSlots Slots =
     (\<forall>I J BF. I < length Slots \<and> J < length Slots \<and> Slots ! I = Some BF \<and> Slots ! J = Some BF
        \<longrightarrow> I = J)"

definition targetOf :: "YAMLProfileReader \<Rightarrow> nat \<Rightarrow> bfid option" where
  "targetOf R I =
     (let Id = YBF_Id (YamlBP_Functions (YamlBP R) ! I)
      in if Id < length (YamlProfileToFunction R) then YamlProfileToFunction R ! Id else None)"

text \<open>
  The first \<open>k\<close> pairs after their preliminary counts: the functions in these slots
  have a profile, and no function is in two of these slots.
\<close>

definition slotsProfiled :: "Env \<Rightarrow> nat \<Rightarrow> World \<Rightarrow> bool" where
  "slotsProfiled E k W =
     ((\<forall>J < k. \<forall>BF. ProfileBFs (W_Reader W) ! J = Some BF \<longrightarrow> hasProfile E (getFunction W BF)) \<and>
      (\<forall>J J' BF. J < k \<and> J' < k \<and> ProfileBFs (W_Reader W) ! J = Some BF \<and>
         ProfileBFs (W_Reader W) ! J' = Some BF \<longrightarrow> J = J'))"

text \<open>
  Runs on a profile of two records, for a binary in which \<open>f\<close> (address 0) and
  \<open>g\<close> (address 1) both have the hash 7. The first record is named \<open>f\<close> and has
  the \<open>Id\<close> 1; the name and the \<open>Id\<close> of the second and the execution count of
  the first are parameters. \<open>run Doc\<close> is the reader after \<open>preprocessProfile\<close> and
  \<open>readProfile\<close> on a new reader.
\<close>

definition twoRecords :: "string \<Rightarrow> nat \<Rightarrow> u64 \<Rightarrow> BinaryProfile" where
  "twoRecords NameG IdG CountF = \<lparr>YamlBP_Header = \<lparr>Hdr_Version = 1, Hdr_Flags = 1,
       Hdr_EventNames = ''cycles'', Hdr_HashFunction = StdHash, Hdr_IsDFSOrder = False\<rparr>,
     YamlBP_Functions =
       [\<lparr>YBF_Name = ''f'', YBF_Id = 1, YBF_Hash = 7, YBF_NumBasicBlocks = 4, YBF_ExecCount = CountF,
         YBF_Blocks = [], YBF_Used = False\<rparr>,
        \<lparr>YBF_Name = NameG, YBF_Id = IdG, YBF_Hash = 7, YBF_NumBasicBlocks = 4, YBF_ExecCount = 5,
         YBF_Blocks = [], YBF_Used = False\<rparr>]\<rparr>"

definition EnvDoc :: "BinaryProfile \<Rightarrow> Env" where
  "EnvDoc Doc = Env0\<lparr>yamlInput := (\<lambda>_. (Doc, None))\<rparr>"

definition twoHashSeven :: BinaryContext where
  "twoHashSeven = Context0\<lparr>BC_Function := (\<lambda>_. fourBlockBF)\<rparr>"

definition newWorld :: World where
  "newWorld = World0\<lparr>W_BC := twoHashSeven\<rparr>"

definition loadedWorld :: "BinaryProfile \<Rightarrow> World" where
  "loadedWorld Doc = snd (preprocessProfile (EnvDoc Doc) Opts0 (Inr ''---'') newWorld)"

definition run :: "BinaryProfile \<Rightarrow> YAMLProfileReader" where
  "run Doc = W_Reader (readProfile (EnvDoc Doc) Opts0 (loadedWorld Doc))"



text \<open>
  An environment whose stale-profile inference accepts every function and sets its
  execution count to 42, and options that enable the inference.
\<close>

definition EnvInfer :: Env where
  "EnvInfer = Env0\<lparr>inferStaleProfile := (\<lambda>BF _. (True, BF\<lparr>BF_ExecutionCount := 42\<rparr>))\<rparr>"

definition OptsInfer :: opts where
  "OptsInfer = Opts0\<lparr>InferStaleProfile := True\<rparr>"

text \<open>
  Spec property P6 for a whole record. The profiled edges of a record are the successor
  entries of its profiled blocks with an index in range, each with the binary block it
  starts from. An entry from \<open>B\<close> that names \<open>ToBB\<close> is credited to the edge from
  \<open>B\<close> to \<open>ToBB\<close> when \<open>ToBB\<close> is a successor of \<open>B\<close>; else, when \<open>B\<close> has a
  pass-through block \<open>FT\<close> to \<open>ToBB\<close>, to the two edges from \<open>FT\<close> to \<open>ToBB\<close>
  and from \<open>B\<close> to \<open>FT\<close>; else, and when its index is out of range, to no edge.
  \<open>credit\<close> adds up one field of the entries credited to an edge, in the 64-bit
  arithmetic of the counters, and \<open>mismatchedEntries\<close> counts the entries credited to
  no edge.
\<close>

definition blockEdges :: "bbid list \<Rightarrow> BinaryBasicBlockProfile \<Rightarrow> (bbid \<times> SuccessorInfo) list" where
  "blockEdges Order YamlBB =
     (if YBB_Index YamlBB < length Order
      then map (Pair (Order ! YBB_Index YamlBB)) (YBB_Successors YamlBB) else [])"

definition profiledEdges :: "bbid list \<Rightarrow> BinaryFunctionProfile \<Rightarrow> (bbid \<times> SuccessorInfo) list" where
  "profiledEdges Order YamlBF = concat (map (blockEdges Order) (YBF_Blocks YamlBF))"

definition creditedEdges :: "BinaryFunction \<Rightarrow> bbid list \<Rightarrow> bbid \<times> SuccessorInfo \<Rightarrow> (bbid \<times> bbid) list" where
  "creditedEdges BF Order = (\<lambda>(B, YamlSI).
     if SI_Index YamlSI < length Order
     then (let ToBB = Order ! SI_Index YamlSI
           in if ToBB \<in> set (map fst (BB_Successors (BF_Block BF B))) then [(B, ToBB)]
              else (case passThrough BF B ToBB of
                      None \<Rightarrow> []
                    | Some FT \<Rightarrow> [(FT, ToBB), (B, FT)]))
     else [])"

definition credit ::
  "BinaryFunction \<Rightarrow> bbid list \<Rightarrow> (bbid \<times> SuccessorInfo) list \<Rightarrow> bbid \<times> bbid \<Rightarrow> (SuccessorInfo \<Rightarrow> u64) \<Rightarrow> u64"
where
  "credit BF Order Entries Edge f =
     sum_list (map (\<lambda>En. f (snd En)) (filter (\<lambda>En. Edge \<in> set (creditedEdges BF Order En)) Entries))"

definition mismatchedEntries :: "BinaryFunction \<Rightarrow> bbid list \<Rightarrow> (bbid \<times> SuccessorInfo) list \<Rightarrow> nat" where
  "mismatchedEntries BF Order Entries = length (filter (\<lambda>En. creditedEdges BF Order En = []) Entries)"

text \<open>
  The state \<open>S'\<close> comes from \<open>S\<close> by crediting a list of entries: every block has
  the successors it had, every edge has gained the counts credited to it, and the
  edge-mismatch counter has gone up by the number of entries credited to no edge.
\<close>

definition credited :: "bbid list \<Rightarrow> (bbid \<times> SuccessorInfo) list \<Rightarrow> PState \<Rightarrow> PState \<Rightarrow> bool" where
  "credited Order Entries S S' =
     ((\<forall>X. map fst (BB_Successors (BF_Block (bf S') X)) = map fst (BB_Successors (BF_Block (bf S) X))) \<and>
      (\<forall>X Y. getBranchInfo (BF_Block (bf S') X) Y =
         map_option (addCounts (credit (bf S) Order Entries (X, Y) SI_Count)
                               (credit (bf S) Order Entries (X, Y) SI_Mispreds))
           (getBranchInfo (BF_Block (bf S) X) Y)) \<and>
      MismatchedEdges S' = MismatchedEdges S + of_nat (mismatchedEntries (bf S) Order Entries))"

text \<open>
  A record for the function of four blocks: block 0 with an edge to block 3, which it
  reaches through block 2 only, and an edge to its successor block 1; block 1 with an
  edge to block 3, which is not among its successors.
\<close>

definition passThroughProfile :: BinaryFunctionProfile where
  "passThroughProfile = \<lparr>YBF_Name = ''f'', YBF_Id = 1, YBF_Hash = 7, YBF_NumBasicBlocks = 4,
     YBF_ExecCount = 5,
     YBF_Blocks = [\<lparr>YBB_Index = 0, YBB_ExecCount = 100, YBB_EventCount = 0, YBB_CallSites = [],
                    YBB_Successors = [edge03, \<lparr>SI_Index = 1, SI_Count = 30, SI_Mispreds = 1\<rparr>]\<rparr>,
                   \<lparr>YBB_Index = 1, YBB_ExecCount = 30, YBB_EventCount = 0, YBB_CallSites = [],
                    YBB_Successors = [\<lparr>SI_Index = 3, SI_Count = 9, SI_Mispreds = 0\<rparr>]\<rparr>],
     YBF_Used = False\<rparr>"

text \<open>
  Spec property P7: the record at position \<open>I\<close> is paired by name with a binary
  function (its \<open>ProfileBFs\<close> slot is not null) and \<open>profileMatches\<close> holds for the
  two. In \<open>pairedAndMatching\<close> the hashes are those that \<open>readProfile\<close> has
  computed when its first pass starts (lines 478 to 502).
\<close>

definition matchesByName :: "opts \<Rightarrow> World \<Rightarrow> nat \<Rightarrow> bool" where
  "matchesByName Op W I =
     (case ProfileBFs (W_Reader W) ! I of
        None \<Rightarrow> False
      | Some BF \<Rightarrow> profileMatches Op (Functions W ! I) (getFunction W BF))"

definition pairedAndMatching :: "Env \<Rightarrow> opts \<Rightarrow> World \<Rightarrow> nat \<Rightarrow> bool" where
  "pairedAndMatching E Op W I =
     (I < length (ProfileBFs (W_Reader W)) \<and>
      matchesByName Op (computeHashes E Op (startMatching W)) I)"

text \<open>The counters of the first pass and of the hash-only stage.\<close>

definition counters :: "World \<Rightarrow> u64 \<times> u64" where
  "counters W = (MatchedWithExactName W, MatchedWithHash W)"

text \<open>
  The run \<open>World6\<close> in a binary where \<open>g\<close> at address 1 has the hash 7 as well, so
  that the map of the hash-only stage sends the hash of the record to \<open>g\<close>.
\<close>

definition World7 :: World where
  "World7 = World6\<lparr>W_BC := twoHashSeven\<rparr>"

text \<open>
  Section 4.E, call sites, for a whole record. The profiled call sites of a record are
  the call sites of its profiled blocks with an index in range, each with the binary
  block it belongs to. The state \<open>S'\<close> comes from \<open>S\<close> by recording a list of
  call sites: the same call sites are invalid in both, the function's list of call
  sites has grown by one entry for each of them, in order, and the counter of
  mismatched calls has gone up by the number of invalid ones.
\<close>

definition blockCallSites :: "bbid list \<Rightarrow> BinaryBasicBlockProfile \<Rightarrow> (bbid \<times> CallSiteInfo) list" where
  "blockCallSites Order YamlBB =
     (if YBB_Index YamlBB < length Order
      then map (Pair (Order ! YBB_Index YamlBB)) (YBB_CallSites YamlBB) else [])"

definition profiledCallSites :: "bbid list \<Rightarrow> BinaryFunctionProfile \<Rightarrow> (bbid \<times> CallSiteInfo) list" where
  "profiledCallSites Order YamlBF = concat (map (blockCallSites Order) (YBF_Blocks YamlBF))"

definition recorded ::
  "Env \<Rightarrow> bfid option list \<Rightarrow> (bbid \<times> CallSiteInfo) list \<Rightarrow> PState \<Rightarrow> PState \<Rightarrow> bool"
where
  "recorded E Y2F Sites S S' =
     ((\<forall>B C. invalidCallSite (bf S') B C = invalidCallSite (bf S) B C) \<and>
      BF_AllCallSites (bf S') = BF_AllCallSites (bf S) @ map (\<lambda>P. callSiteEntry E Y2F (snd P)) Sites \<and>
      MismatchedCalls S' =
        MismatchedCalls S + of_nat (length (filter (\<lambda>P. invalidCallSite (bf S) (fst P) (snd P)) Sites)))"

text \<open>A record for the function of four blocks whose only profiled block is \<open>callBlock\<close>.\<close>

definition callProfile :: BinaryFunctionProfile where
  "callProfile = \<lparr>YBF_Name = ''f'', YBF_Id = 1, YBF_Hash = 7, YBF_NumBasicBlocks = 4,
     YBF_ExecCount = 5, YBF_Blocks = [callBlock], YBF_Used = False\<rparr>"

section \<open>Verification\<close>

subsection \<open>Loops and sums\<close>

lemma fold_keeps: "(\<And>x S. g (f x S) = g S) \<Longrightarrow> g (fold f xs S) = g S"
  by (induction xs arbitrary: S) simp_all

lemma successor_loop_sum:
  "fold (\<lambda>YamlSI Acc'. Acc' + SI_Count YamlSI) Ss Acc = Acc + sum_list (map SI_Count Ss)"
  by (induction Ss arbitrary: Acc) (simp_all add: add.assoc)

lemma block_loop_sum:
  "fold (\<lambda>YamlBB Acc. fold (\<lambda>YamlSI Acc'. Acc' + SI_Count YamlSI) (YBB_Successors YamlBB) Acc)
     Bs Acc = Acc + sum_list (map SI_Count (concat (map YBB_Successors Bs)))"
  by (induction Bs arbitrary: Acc) (simp_all add: successor_loop_sum add.assoc)

lemma FuncRawBranchCount_sum: "FuncRawBranchCount YamlBF = sum_list (successorCounts YamlBF)"
  by (simp add: FuncRawBranchCount_def successorCounts_def block_loop_sum)

lemma unat_sum_list_small:
  "sum_list (map unat (ws :: u64 list)) < 2 ^ 64 \<Longrightarrow> unat (sum_list ws) = sum_list (map unat ws)"
proof (induction ws)
  case Nil
  then show ?case by simp
next
  case (Cons w ws)
  then have "sum_list (map unat ws) < 2 ^ 64" by simp
  with Cons have IH: "unat (sum_list ws) = sum_list (map unat ws)" by simp
  have "unat (w + sum_list ws) = (unat w + unat (sum_list ws)) mod 2 ^ 64"
    by (simp add: unat_word_ariths)
  with IH Cons.prems show ?case by simp
qed

subsection \<open>What the steps leave alone\<close>

lemma warn_bf [simp]: "bf (warn Op l W S) = bf S"
  and warn_MismatchedBlocks [simp]: "MismatchedBlocks (warn Op l W S) = MismatchedBlocks S"
  and warn_MismatchedCalls [simp]: "MismatchedCalls (warn Op l W S) = MismatchedCalls S"
  and warn_MismatchedEdges [simp]: "MismatchedEdges (warn Op l W S) = MismatchedEdges S"
  and warn_FunctionExecutionCount [simp]:
    "FunctionExecutionCount (warn Op l W S) = FunctionExecutionCount S"
  by (simp_all add: warn_def)

lemma setAnnotation_RawBranchCount:
  "BF_RawBranchCount (bf (setAnnotation Op At Off N C S)) = BF_RawBranchCount (bf S)"
  by (simp add: setAnnotation_def setInstruction_def split: option.splits)

lemma processCallSite_RawBranchCount:
  "BF_RawBranchCount (bf (processCallSite E Op Y B C S)) = BF_RawBranchCount (bf S)"
  by (simp add: processCallSite_def Let_def mismatchedCall_def annotateCallSite_def
      setAnnotation_RawBranchCount setInstruction_def split: option.splits)

lemma processSuccessor_RawBranchCount:
  "BF_RawBranchCount (bf (processSuccessor Op Order B Y S)) = BF_RawBranchCount (bf S)"
  by (simp add: processSuccessor_def Let_def mismatchedEdge_def addBranchInfo_def
      split: option.splits)

lemma processBlock_RawBranchCount:
  "BF_RawBranchCount (bf (processBlock E Op R Order Y S)) = BF_RawBranchCount (bf S)"
  by (simp add: processBlock_def Let_def setBlockExecutionCount_def
      fold_keeps [where g = "\<lambda>S. BF_RawBranchCount (bf S)"]
      processSuccessor_RawBranchCount processCallSite_RawBranchCount)

lemma clearNoProfile_RawBranchCount:
  "BF_RawBranchCount (bf (clearNoProfile E B S)) = BF_RawBranchCount (bf S)"
  by (simp add: clearNoProfile_def setBlockExecutionCount_def)

lemma checkShape_RawBranchCount:
  "BF_RawBranchCount (bf (snd (checkShape E Op R YamlBF BF1 Errs))) = BF_RawBranchCount BF1"
  by (simp add: checkShape_def Let_def)

lemma propagateBlocks_RawBranchCount:
  "BF_RawBranchCount (bf (propagateBlocks E Op R YamlBF S)) = BF_RawBranchCount (bf S)"
  by (simp add: propagateBlocks_def Let_def
      fold_keeps [where g = "\<lambda>S. BF_RawBranchCount (bf S)"]
      processBlock_RawBranchCount clearNoProfile_RawBranchCount)

lemma finishProfile_RawBranchCount:
  assumes "InferStaleProfile Op \<longrightarrow>
     (\<forall>BF Y. BF_RawBranchCount (snd (inferStaleProfile E BF Y)) = BF_RawBranchCount BF)"
  shows "BF_RawBranchCount (fst (snd (finishProfile E Op R YamlBF PM S Stats)))
           = BF_RawBranchCount (bf S)"
proof (cases "InferStaleProfile Op")
  case True
  with assms have "BF_RawBranchCount (snd (inferStaleProfile E BF Y)) = BF_RawBranchCount BF"
    for BF Y by simp
  then have h: "inferStaleProfile E BF Y = (b, BF') \<Longrightarrow>
      BF_RawBranchCount BF' = BF_RawBranchCount BF" for BF Y b BF'
    by (metis snd_conv)
  show ?thesis
    by (auto simp add: finishProfile_def Let_def markProfiled_def
        split: prod.splits bool.splits dest: h)
next
  case False
  then show ?thesis
    by (simp add: finishProfile_def Let_def markProfiled_def)
qed

lemma parseFunctionProfile_RawBranchCount:
  assumes "InferStaleProfile Op \<longrightarrow>
     (\<forall>BF Y. BF_RawBranchCount (snd (inferStaleProfile E BF Y)) = BF_RawBranchCount BF)"
  shows "BF_RawBranchCount (fst (snd (parseFunctionProfile E Op R YamlBF (BF, Stats, Errs))))
           = FuncRawBranchCount YamlBF"
proof (cases "BF_empty BF")
  case True
  then show ?thesis by (simp add: parseFunctionProfile_def BF_empty_def)
next
  case False
  define BF1 where "BF1 = BF\<lparr>BF_ExecutionCount := YBF_ExecCount YamlBF,
                              BF_RawBranchCount := FuncRawBranchCount YamlBF\<rparr>"
  obtain PM S2 where cs: "checkShape E Op R YamlBF BF1 Errs = (PM, S2)"
    by (cases "checkShape E Op R YamlBF BF1 Errs")
  have "BF_RawBranchCount (bf S2) = FuncRawBranchCount YamlBF"
    using checkShape_RawBranchCount [of E Op R YamlBF BF1 Errs] cs by (simp add: BF1_def)
  with False cs show ?thesis
    by (simp add: parseFunctionProfile_def BF_empty_def BF1_def
        finishProfile_RawBranchCount [OF assms] propagateBlocks_RawBranchCount)
qed

subsection \<open>Claim C4: the raw branch count\<close>

text \<open>
  Claim C4. Whatever the binary function and the profile record are (successor indices
  out of range, hash or block-count mismatch, an empty function), the function that
  \<open>parseFunctionProfile\<close> returns has as its \<open>RawBranchCount\<close> the sum of the
  \<open>Count\<close> of every successor entry of every block of the record. The sum is the
  64-bit sum of the counter's type; when the counts add up to less than \<open>2^64\<close> it is
  their sum as numbers. The stale-profile inference, when enabled, is taken not to
  change the counter.
\<close>

theorem RawBranchCount_is_successor_sum:
  assumes "InferStaleProfile Op \<longrightarrow>
     (\<forall>BF Y. BF_RawBranchCount (snd (inferStaleProfile E BF Y)) = BF_RawBranchCount BF)"
  shows "BF_RawBranchCount (fst (snd (parseFunctionProfile E Op R YamlBF (BF, Stats, Errs))))
           = sum_list (successorCounts YamlBF) \<and>
         (sum_list (map unat (successorCounts YamlBF)) < 2 ^ 64 \<longrightarrow>
          unat (BF_RawBranchCount
                 (fst (snd (parseFunctionProfile E Op R YamlBF (BF, Stats, Errs)))))
            = sum_list (map unat (successorCounts YamlBF)))"
  using parseFunctionProfile_RawBranchCount [OF assms]
  by (simp add: FuncRawBranchCount_sum unat_sum_list_small)

theorem RawBranchCount_is_successor_sum_witness:
  "BF_RawBranchCount (fst (snd (parseFunctionProfile Env0 Opts0 (Reader0 1) edgeProfile
      (emptyBF, 0, [])))) = 100"
proof -
  have h: "InferStaleProfile Opts0 \<longrightarrow>
     (\<forall>BF Y. BF_RawBranchCount (snd (inferStaleProfile Env0 BF Y)) = BF_RawBranchCount BF)"
    by (simp add: Opts0_def)
  have "sum_list (successorCounts edgeProfile) = 100"
    by (simp add: successorCounts_def edgeProfile_def)
  with RawBranchCount_is_successor_sum [OF h, of "Reader0 1" edgeProfile emptyBF 0 "[]"]
  show ?thesis by simp
qed

subsection \<open>Claim C9: an empty function\<close>

text \<open>
  Claim C9. When the binary function has no blocks, \<open>parseFunctionProfile\<close> returns
  true and changes two fields only: the execution count becomes the record's
  \<open>ExecCount\<close> and the raw branch count the sum of the successor counts. The hash is
  neither computed nor compared, the block counts are not compared, no block is
  touched, no warning is written, the stale counter is not incremented, and the profile
  flags stay as they were, so \<open>markProfiled\<close> has not run.
\<close>

theorem empty_function_returns_early: 
  assumes "BF_empty BF"
  shows "parseFunctionProfile E Op R YamlBF (BF, Stats, Errs) =
           (True, BF\<lparr>BF_ExecutionCount := YBF_ExecCount YamlBF,
                     BF_RawBranchCount := sum_list (successorCounts YamlBF)\<rparr>, Stats, Errs)"
  using assms by (simp add: parseFunctionProfile_def BF_empty_def FuncRawBranchCount_sum)

theorem empty_function_returns_early_witness:
  "BF_empty emptyBF \<and>
   parseFunctionProfile Env0 Opts0 (Reader0 1) edgeProfile (emptyBF, 0, []) =
     (True, emptyBF\<lparr>BF_ExecutionCount := 5, BF_RawBranchCount := 100\<rparr>, 0, []) \<and>
   BF_ProfileFlags emptyBF = None \<and> YBF_Hash edgeProfile \<noteq> BF_Hash emptyBF"
proof -
  have e: "BF_empty emptyBF" by (simp add: BF_empty_def emptyBF_def)
  have "sum_list (successorCounts edgeProfile) = 100" "YBF_ExecCount edgeProfile = 5"
    by (simp_all add: successorCounts_def edgeProfile_def)
  with empty_function_returns_early [OF e, of Env0 Opts0 "Reader0 1" edgeProfile 0 "[]"] e
  show ?thesis by (simp add: emptyBF_def edgeProfile_def)
qed

subsection \<open>Sample mode\<close>









lemma checkShape_bf:
  "\<exists>h. bf (snd (checkShape E Op R YamlBF BF1 Errs)) = BF1\<lparr>BF_Hash := h\<rparr>"
proof -
  have k: "BF = BF\<lparr>BF_Hash := BF_Hash BF\<rparr>" for BF :: BinaryFunction by simp
  show ?thesis
    apply (simp add: checkShape_def Let_def)
    using k by blast
qed




subsection \<open>The counts of the blocks in sample mode\<close>








subsection \<open>Claim C3: sample mode\<close>


text \<open>
  When the stale-profile inference runs (it is enabled, and the record does not match
  the function, here by its hash), the function is the one that the inference returns:
  with the inference of \<open>EnvInfer\<close> the execution count at the end is 42 and not the
  sum 2500 of the entry samples.
\<close>

lemma stale_inference_rewrites_sample_counts:
  "isSample EnvInfer (Reader0 2) \<and> \<not> BF_empty fourBlockBF \<and> \<not> staleInferenceInert EnvInfer OptsInfer \<and>
   BF_ExecutionCount (fst (snd (parseFunctionProfile EnvInfer OptsInfer (Reader0 2)
      (sampleProfile\<lparr>YBF_Hash := 99\<rparr>) (fourBlockBF, 0, [])))) = 42 \<and>
   sum_list (map (entrySamples (Reader0 2) (blockOrder (Reader0 2) fourBlockBF) (BF_Block fourBlockBF))
      (YBF_Blocks (sampleProfile\<lparr>YBF_Hash := 99\<rparr>))) = 2500"
proof -
  have a: "isSample EnvInfer (Reader0 2)" by (simp add: isSample_def EnvInfer_def Env0_def Reader0_def)
  have b: "\<not> BF_empty fourBlockBF" by (simp add: BF_empty_def fourBlockBF_def)
  have "snd (inferStaleProfile EnvInfer emptyBF sampleProfile) \<noteq> emptyBF"
    by (simp add: EnvInfer_def emptyBF_def)
  then have c: "\<not> staleInferenceInert EnvInfer OptsInfer"
    by (auto simp add: staleInferenceInert_def OptsInfer_def)
  have d: "BF_ExecutionCount (fst (snd (parseFunctionProfile EnvInfer OptsInfer (Reader0 2)
      (sampleProfile\<lparr>YBF_Hash := 99\<rparr>) (fourBlockBF, 0, [])))) = 42"
    by code_simp
  have e: "sum_list (map (entrySamples (Reader0 2) (blockOrder (Reader0 2) fourBlockBF) (BF_Block fourBlockBF))
      (YBF_Blocks (sampleProfile\<lparr>YBF_Hash := 99\<rparr>))) = 2500"
    by code_simp
  from a b c d e show ?thesis by blast
qed



subsection \<open>Successor edges\<close>

lemma addToBranchInfo_targets: "map fst (addToBranchInfo T c m Es) = map fst Es"
  by (induction Es) auto

lemma find_addToBranchInfo:
  "map_option snd (find (\<lambda>E. fst E = T) (addToBranchInfo T c m Es)) =
   map_option (addCounts c m) (map_option snd (find (\<lambda>E. fst E = T) Es))"
  by (induction Es) (auto simp add: addCounts_def)

lemma getBranchInfo_added:
  "getBranchInfo (BB\<lparr>BB_Successors := addToBranchInfo T c m (BB_Successors BB)\<rparr>) T =
   map_option (addCounts c m) (getBranchInfo BB T)"
  by (simp add: getBranchInfo_def find_addToBranchInfo)

lemma only_successor:
  "(succ_size BB = 1 \<and> getSuccessor BB T \<noteq> None) = (map fst (BB_Successors BB) = [T])"
proof (cases "BB_Successors BB")
  case Nil
  then show ?thesis by (simp add: succ_size_def)
next
  case (Cons e es)
  then show ?thesis by (cases es) (auto simp add: succ_size_def getSuccessor_def)
qed

lemma getBranchInfo_None: "(getBranchInfo BB T = None) = (T \<notin> fst ` set (BB_Successors BB))"
  by (auto simp add: getBranchInfo_def find_None_iff image_iff)

lemma passThrough_Some:
  assumes "passThrough BF B T = Some FT"
  shows "getConditionalSuccessor (BF_Block BF B) False = Some FT"
    and "succ_size (BF_Block BF FT) = 1 \<and> getSuccessor (BF_Block BF FT) T \<noteq> None"
    and "FT \<noteq> B"
    and "getBranchInfo (BF_Block BF FT) T \<noteq> None"
    and "getBranchInfo (BF_Block BF B) FT \<noteq> None"
proof -
  from assms show g: "getConditionalSuccessor (BF_Block BF B) False = Some FT"
    by (auto simp add: passThrough_def split: option.splits if_splits)
  from assms g have m: "map fst (BB_Successors (BF_Block BF FT)) = [T]"
    by (auto simp add: passThrough_def split: option.splits if_splits)
  then show o: "succ_size (BF_Block BF FT) = 1 \<and> getSuccessor (BF_Block BF FT) T \<noteq> None"
    by (rule iffD2 [OF only_successor])
  from g have two: "succ_size (BF_Block BF B) = 2" and ft: "FT = fst (BB_Successors (BF_Block BF B) ! 1)"
    by (auto simp add: getConditionalSuccessor_def split: if_splits)
  from two o show "FT \<noteq> B" by auto
  from m have "T \<in> set (map fst (BB_Successors (BF_Block BF FT)))" by simp
  then show "getBranchInfo (BF_Block BF FT) T \<noteq> None"
    by (simp add: getBranchInfo_None)
  from two ft have "FT \<in> fst ` set (BB_Successors (BF_Block BF B))"
    by (simp add: succ_size_def)
  then show "getBranchInfo (BF_Block BF B) FT \<noteq> None"
    by (simp add: getBranchInfo_None)
qed

lemma processSuccessor_passThrough:
  assumes r: "SI_Index YamlSI < length Order"
    and n: "getSuccessor (BF_Block (bf S) B) (Order ! SI_Index YamlSI) = None"
    and p: "passThrough (bf S) B (Order ! SI_Index YamlSI) = Some FT"
  shows "processSuccessor Op Order B YamlSI S =
     addBranchInfo B FT (SI_Count YamlSI) (SI_Mispreds YamlSI)
       (addBranchInfo FT (Order ! SI_Index YamlSI) (SI_Count YamlSI) (SI_Mispreds YamlSI) S)"
  using r n passThrough_Some(1,2) [OF p]
  by (simp add: processSuccessor_def Let_def)

lemma processSuccessor_mismatch:
  assumes r: "SI_Index YamlSI < length Order"
    and n: "getSuccessor (BF_Block (bf S) B) (Order ! SI_Index YamlSI) = None"
    and p: "passThrough (bf S) B (Order ! SI_Index YamlSI) = None"
  shows "processSuccessor Op Order B YamlSI S =
     mismatchedEdge Op (NoSuccessorForBlock B (SI_Index YamlSI) (Order ! SI_Index YamlSI)) S"
proof (cases "getConditionalSuccessor (BF_Block (bf S) B) False")
  case None
  with r n show ?thesis by (simp add: processSuccessor_def Let_def)
next
  case (Some FT)
  with p have "map fst (BB_Successors (BF_Block (bf S) FT)) \<noteq> [Order ! SI_Index YamlSI]"
    by (auto simp add: passThrough_def split: if_splits)
  then have "\<not> (succ_size (BF_Block (bf S) FT) = 1 \<and>
     getSuccessor (BF_Block (bf S) FT) (Order ! SI_Index YamlSI) \<noteq> None)"
    by (simp only: only_successor not_False_eq_True)
  then have c: "(if succ_size (BF_Block (bf S) FT) = 1 \<and>
     getSuccessor (BF_Block (bf S) FT) (Order ! SI_Index YamlSI) \<noteq> None then X else Y) = Y" for X Y :: PState
    by (simp only: if_False)
  from r n Some show ?thesis by (simp add: processSuccessor_def Let_def c del: One_nat_def not_None_eq)
qed

subsection \<open>Call sites\<close>

lemma setAnnotation_at:
  assumes "BF_Instructions (bf S) At = Some Instr"
  shows "BF_Instructions (bf (setAnnotation Op At Off Name Val S)) =
           (BF_Instructions (bf S))(At \<mapsto> Instr\<lparr>MI_Annotations := keepOrSet (MI_Annotations Instr) Name Val\<rparr>)"
    and "errs (setAnnotation Op At Off Name Val S) =
           errs S @ duplicateWarnings Op (MI_Annotations Instr) Off [Name]"
  using assms
  by (auto simp add: setAnnotation_def hasAnnotation_def addAnnotation_def setInstruction_def
      keepOrSet_def duplicateWarnings_def warn_def fun_eq_iff split: option.splits)

lemma setAnnotation_frame:
  "BF_AllCallSites (bf (setAnnotation Op At Off Name Val S)) = BF_AllCallSites (bf S)"
  "MismatchedCalls (setAnnotation Op At Off Name Val S) = MismatchedCalls S"
  "BF_Block (bf (setAnnotation Op At Off Name Val S)) = BF_Block (bf S)"
  by (simp_all add: setAnnotation_def setInstruction_def split: option.splits)

lemma annotateCallSite_frame:
  "BF_AllCallSites (bf (annotateCallSite Op At Instr Sym YamlCSI S)) = BF_AllCallSites (bf S)"
  "MismatchedCalls (annotateCallSite Op At Instr Sym YamlCSI S) = MismatchedCalls S"
  "BF_Block (bf (annotateCallSite Op At Instr Sym YamlCSI S)) = BF_Block (bf S)"
  by (simp_all add: annotateCallSite_def setAnnotation_frame setInstruction_def)

lemma duplicateWarnings_append:
  "duplicateWarnings Op A Off (Ns @ Ms) = duplicateWarnings Op A Off Ns @ duplicateWarnings Op A Off Ms"
  by (simp add: duplicateWarnings_def)

subsection \<open>Validation of call sites\<close>

lemma processCallSite_invalid:
  assumes "invalidCallSite (bf S) B YamlCSI"
  shows "bf (processCallSite E Op Y2F B YamlCSI S) = bf (withCallSite E Y2F YamlCSI S)"
    and "MismatchedCalls (processCallSite E Op Y2F B YamlCSI S) = MismatchedCalls S + 1"
  using assms
  by (auto simp add: processCallSite_def Let_def invalidCallSite_def mismatchedCall_def
      withCallSite_def callSiteEntry_def resolveCallee_def split: option.splits)

lemma processCallSite_valid:
  assumes "\<not> invalidCallSite (bf S) B YamlCSI"
  shows "processCallSite E Op Y2F B YamlCSI S =
     annotateCallSite Op (callSiteAt (bf S) B YamlCSI)
       (the (BF_Instructions (bf S) (callSiteAt (bf S) B YamlCSI)))
       (resolveCallee E Y2F YamlCSI) YamlCSI (withCallSite E Y2F YamlCSI S)"
  using assms
  by (auto simp add: processCallSite_def Let_def invalidCallSite_def callSiteAt_def
      withCallSite_def callSiteEntry_def resolveCallee_def split: option.splits)

lemma processCallSite_AllCallSites:
  "BF_AllCallSites (bf (processCallSite E Op Y2F B YamlCSI S)) =
     BF_AllCallSites (bf S) @ [callSiteEntry E Y2F YamlCSI]"
proof (cases "invalidCallSite (bf S) B YamlCSI")
  case True
  then show ?thesis by (simp add: processCallSite_invalid(1) withCallSite_def)
next
  case False
  then show ?thesis by (simp add: processCallSite_valid annotateCallSite_frame(1) withCallSite_def)
qed

lemma processCallSite_MismatchedCalls:
  "MismatchedCalls (processCallSite E Op Y2F B YamlCSI S) =
     MismatchedCalls S + (if invalidCallSite (bf S) B YamlCSI then 1 else 0)"
proof (cases "invalidCallSite (bf S) B YamlCSI")
  case True
  then show ?thesis by (simp add: processCallSite_invalid(2))
next
  case False
  then show ?thesis by (simp add: processCallSite_valid annotateCallSite_frame(2) withCallSite_def)
qed

lemma setAnnotation_callKinds:
  "callKinds (bf (setAnnotation Op At Off Name Val S)) = callKinds (bf S)"
  by (auto simp add: setAnnotation_def setInstruction_def addAnnotation_def callKinds_def fun_eq_iff
      split: option.splits)

lemma annotateCallSite_callKinds:
  assumes "BF_Instructions (bf S) At = Some Instr"
  shows "callKinds (bf (annotateCallSite Op At Instr Sym YamlCSI S)) = callKinds (bf S)"
proof (cases "MI_isIndirectCall Instr \<or> MI_isIndirectBranch Instr")
  case True
  with assms show ?thesis
    by (auto simp add: annotateCallSite_def setInstruction_def appendCallProfile_def
        callKinds_def fun_eq_iff)
next
  case False
  then show ?thesis
    by (simp add: annotateCallSite_def setAnnotation_callKinds)
qed

lemma invalidCallSite_cong:
  assumes "callKinds BF' = callKinds BF"
    and "\<And>B. BB_OriginalSize (BF_Block BF' B) = BB_OriginalSize (BF_Block BF B)"
    and "\<And>B. BB_InputOffset (BF_Block BF' B) = BB_InputOffset (BF_Block BF B)"
  shows "invalidCallSite BF' B YamlCSI = invalidCallSite BF B YamlCSI"
proof -
  have "callKinds BF' (BB_InputOffset (BF_Block BF B) + CSI_Offset YamlCSI) =
        callKinds BF (BB_InputOffset (BF_Block BF B) + CSI_Offset YamlCSI)"
    using assms(1) by simp
  then show ?thesis
    by (auto simp add: invalidCallSite_def assms(2,3) callKinds_def split: option.splits)
qed

lemma processCallSite_callKinds:
  "callKinds (bf (processCallSite E Op Y2F B YamlCSI S)) = callKinds (bf S)"
proof (cases "invalidCallSite (bf S) B YamlCSI")
  case True
  then show ?thesis by (simp add: processCallSite_invalid(1) withCallSite_def callKinds_def fun_eq_iff)
next
  case False
  then obtain Instr where
    "BF_Instructions (bf (withCallSite E Y2F YamlCSI S)) (callSiteAt (bf S) B YamlCSI) = Some Instr"
    "the (BF_Instructions (bf S) (callSiteAt (bf S) B YamlCSI)) = Instr"
    by (auto simp add: invalidCallSite_def callSiteAt_def withCallSite_def split: option.splits)
  with False show ?thesis
    by (simp add: processCallSite_valid annotateCallSite_callKinds)
       (simp add: withCallSite_def callKinds_def fun_eq_iff)
qed

lemma processCallSite_Block:
  "BF_Block (bf (processCallSite E Op Y2F B YamlCSI S)) = BF_Block (bf S)"
proof (cases "invalidCallSite (bf S) B YamlCSI")
  case True
  then show ?thesis by (simp add: processCallSite_invalid(1) withCallSite_def)
next
  case False
  then show ?thesis by (simp add: processCallSite_valid annotateCallSite_frame(3) withCallSite_def)
qed

lemma processCallSite_invalidCallSite:
  "invalidCallSite (bf (processCallSite E Op Y2F B YamlCSI S)) B' C = invalidCallSite (bf S) B' C"
  by (rule invalidCallSite_cong) (simp_all add: processCallSite_callKinds processCallSite_Block)

lemma fold_processCallSite:
  "BF_AllCallSites (bf (fold (processCallSite E Op Y2F B) Cs S)) =
     BF_AllCallSites (bf S) @ map (callSiteEntry E Y2F) Cs \<and>
   MismatchedCalls (fold (processCallSite E Op Y2F B) Cs S) =
     MismatchedCalls S + of_nat (length (filter (invalidCallSite (bf S) B) Cs))"
proof (induction Cs arbitrary: S)
  case Nil
  then show ?case by simp
next
  case (Cons C Cs)
  have f: "filter (invalidCallSite (bf (processCallSite E Op Y2F B C S)) B) Cs =
           filter (invalidCallSite (bf S) B) Cs"
    by (simp add: processCallSite_invalidCallSite cong: filter_cong)
  show ?case
    by (simp add: Cons.IH f processCallSite_AllCallSites processCallSite_MismatchedCalls)
qed

lemma processSuccessor_calls:
  "BF_AllCallSites (bf (processSuccessor Op Order B Y S)) = BF_AllCallSites (bf S)"
  "MismatchedCalls (processSuccessor Op Order B Y S) = MismatchedCalls S"
  by (simp_all add: processSuccessor_def Let_def mismatchedEdge_def addBranchInfo_def
      split: option.splits)

lemma processBlock_calls:
  assumes "\<not> isSample E R" "YBB_Index YamlBB < length Order"
  shows "BF_AllCallSites (bf (processBlock E Op R Order YamlBB S)) =
           BF_AllCallSites (bf S) @ map (callSiteEntry E (YamlProfileToFunction R)) (YBB_CallSites YamlBB)"
    and "MismatchedCalls (processBlock E Op R Order YamlBB S) =
           MismatchedCalls S + of_nat (length (filter (invalidCallSite (bf S) (Order ! YBB_Index YamlBB))
              (YBB_CallSites YamlBB)))"
proof -
  let ?B = "Order ! YBB_Index YamlBB"
  let ?S1 = "setBlockExecutionCount ?B (YBB_ExecCount YamlBB) S"
  let ?S2 = "fold (processCallSite E Op (YamlProfileToFunction R) ?B) (YBB_CallSites YamlBB) ?S1"
  have e: "processBlock E Op R Order YamlBB S = fold (processSuccessor Op Order ?B) (YBB_Successors YamlBB) ?S2"
    using assms by (simp add: processBlock_def Let_def)
  have a: "BF_AllCallSites (bf (fold (processSuccessor Op Order ?B) (YBB_Successors YamlBB) ?S2))
      = BF_AllCallSites (bf ?S2)"
    by (rule fold_keeps [where g = "\<lambda>S. BF_AllCallSites (bf S)"]) (rule processSuccessor_calls(1))
  have m: "MismatchedCalls (fold (processSuccessor Op Order ?B) (YBB_Successors YamlBB) ?S2)
      = MismatchedCalls ?S2"
    by (rule fold_keeps [where g = MismatchedCalls]) (rule processSuccessor_calls(2))
  have i: "invalidCallSite (bf ?S1) ?B = invalidCallSite (bf S) ?B"
    by (rule ext, rule invalidCallSite_cong)
       (simp_all add: setBlockExecutionCount_def callKinds_def fun_eq_iff)
  show "BF_AllCallSites (bf (processBlock E Op R Order YamlBB S)) =
           BF_AllCallSites (bf S) @ map (callSiteEntry E (YamlProfileToFunction R)) (YBB_CallSites YamlBB)"
    by (simp add: e a fold_processCallSite) (simp add: setBlockExecutionCount_def)
  show "MismatchedCalls (processBlock E Op R Order YamlBB S) =
           MismatchedCalls S + of_nat (length (filter (invalidCallSite (bf S) ?B) (YBB_CallSites YamlBB)))"
    by (simp add: e m fold_processCallSite i) (simp add: setBlockExecutionCount_def)
qed

subsection \<open>Call sites of a whole record\<close>

lemma recorded_trans:
  assumes a: "recorded E Y2F Si1 S S'" and b: "recorded E Y2F Si2 S' S''"
  shows "recorded E Y2F (Si1 @ Si2) S S''"
  using a b by (simp add: recorded_def)

lemma recorded_Nil:
  assumes "callKinds (bf S') = callKinds (bf S)"
    and "\<And>B. BB_OriginalSize (BF_Block (bf S') B) = BB_OriginalSize (BF_Block (bf S) B)"
    and "\<And>B. BB_InputOffset (BF_Block (bf S') B) = BB_InputOffset (BF_Block (bf S) B)"
    and "BF_AllCallSites (bf S') = BF_AllCallSites (bf S)"
    and "MismatchedCalls S' = MismatchedCalls S"
  shows "recorded E Y2F [] S S'"
  using assms(4,5) invalidCallSite_cong [OF assms(1-3)]
  by (simp add: recorded_def)

lemma processSuccessor_Instructions:
  "BF_Instructions (bf (processSuccessor Op Order B Y S)) = BF_Instructions (bf S)"
  by (simp add: processSuccessor_def Let_def mismatchedEdge_def addBranchInfo_def split: option.splits)

lemma processSuccessor_site_frame:
  "callKinds (bf (processSuccessor Op Order B Y S)) = callKinds (bf S)"
  "BB_OriginalSize (BF_Block (bf (processSuccessor Op Order B Y S)) B') = BB_OriginalSize (BF_Block (bf S) B')"
  "BB_InputOffset (BF_Block (bf (processSuccessor Op Order B Y S)) B') = BB_InputOffset (BF_Block (bf S) B')"
proof -
  show "callKinds (bf (processSuccessor Op Order B Y S)) = callKinds (bf S)"
    by (simp add: callKinds_def fun_eq_iff processSuccessor_Instructions)
  show "BB_OriginalSize (BF_Block (bf (processSuccessor Op Order B Y S)) B') = BB_OriginalSize (BF_Block (bf S) B')"
    "BB_InputOffset (BF_Block (bf (processSuccessor Op Order B Y S)) B') = BB_InputOffset (BF_Block (bf S) B')"
    by (simp_all add: processSuccessor_def Let_def mismatchedEdge_def addBranchInfo_def split: option.splits)
qed

lemma processCallSite_recorded:
  "recorded E Y2F [(B, C)] S (processCallSite E Op Y2F B C S)"
  by (simp add: recorded_def processCallSite_invalidCallSite processCallSite_AllCallSites
      processCallSite_MismatchedCalls)

lemma fold_processCallSite_recorded:
  "recorded E Y2F (map (Pair B) Cs) S (fold (processCallSite E Op Y2F B) Cs S)"
proof (induction Cs arbitrary: S)
  case Nil
  show ?case by (simp add: recorded_def)
next
  case (Cons C Cs)
  from recorded_trans [OF processCallSite_recorded Cons.IH]
  show ?case by simp
qed

lemma processBlock_recorded:
  assumes "\<not> isSample E R"
  shows "recorded E (YamlProfileToFunction R) (blockCallSites Order YamlBB) S
           (processBlock E Op R Order YamlBB S)"
proof (cases "YBB_Index YamlBB < length Order")
  case False
  then show ?thesis
    by (simp add: blockCallSites_def processBlock_def recorded_def invalidCallSite_def)
next
  case True
  let ?B = "Order ! YBB_Index YamlBB"
  let ?S1 = "setBlockExecutionCount ?B (YBB_ExecCount YamlBB) S"
  let ?S2 = "fold (processCallSite E Op (YamlProfileToFunction R) ?B) (YBB_CallSites YamlBB) ?S1"
  let ?S3 = "fold (processSuccessor Op Order ?B) (YBB_Successors YamlBB) ?S2"
  have e: "processBlock E Op R Order YamlBB S = ?S3"
    using assms True by (simp add: processBlock_def Let_def)
  have r1: "recorded E (YamlProfileToFunction R) [] S ?S1"
    by (rule recorded_Nil) (simp_all add: setBlockExecutionCount_def callKinds_def fun_eq_iff)
  have k: "callKinds (bf ?S3) = callKinds (bf ?S2)"
    by (rule fold_keeps [where g = "\<lambda>S. callKinds (bf S)"]) (rule processSuccessor_site_frame)
  have o: "(\<lambda>B. BB_OriginalSize (BF_Block (bf ?S3) B)) = (\<lambda>B. BB_OriginalSize (BF_Block (bf ?S2) B))"
    by (rule fold_keeps [where g = "\<lambda>S. (\<lambda>B. BB_OriginalSize (BF_Block (bf S) B))"])
       (simp add: processSuccessor_site_frame)
  have i: "(\<lambda>B. BB_InputOffset (BF_Block (bf ?S3) B)) = (\<lambda>B. BB_InputOffset (BF_Block (bf ?S2) B))"
    by (rule fold_keeps [where g = "\<lambda>S. (\<lambda>B. BB_InputOffset (BF_Block (bf S) B))"])
       (simp add: processSuccessor_site_frame)
  have a: "BF_AllCallSites (bf ?S3) = BF_AllCallSites (bf ?S2)"
    by (rule fold_keeps [where g = "\<lambda>S. BF_AllCallSites (bf S)"]) (rule processSuccessor_calls(1))
  have m: "MismatchedCalls ?S3 = MismatchedCalls ?S2"
    by (rule fold_keeps [where g = MismatchedCalls]) (rule processSuccessor_calls(2))
  have r3: "recorded E (YamlProfileToFunction R) [] ?S2 ?S3"
    by (rule recorded_Nil) (use k o i a m in \<open>simp_all add: fun_eq_iff\<close>)
  from recorded_trans [OF recorded_trans [OF r1 fold_processCallSite_recorded] r3]
  show ?thesis using True by (simp add: e blockCallSites_def)
qed

lemma fold_processBlock_recorded:
  assumes "\<not> isSample E R"
  shows "recorded E (YamlProfileToFunction R) (concat (map (blockCallSites Order) Ys)) S
           (fold (processBlock E Op R Order) Ys S)"
proof (induction Ys arbitrary: S)
  case Nil
  show ?case by (simp add: recorded_def)
next
  case (Cons Y Ys)
  from recorded_trans [OF processBlock_recorded [OF assms] Cons.IH]
  show ?case by simp
qed

lemma clearNoProfile_site_frame:
  "callKinds (bf (clearNoProfile E B S)) = callKinds (bf S)"
  "BB_OriginalSize (BF_Block (bf (clearNoProfile E B S)) B') = BB_OriginalSize (BF_Block (bf S) B')"
  "BB_InputOffset (BF_Block (bf (clearNoProfile E B S)) B') = BB_InputOffset (BF_Block (bf S) B')"
  "BF_AllCallSites (bf (clearNoProfile E B S)) = BF_AllCallSites (bf S)"
  "MismatchedCalls (clearNoProfile E B S) = MismatchedCalls S"
  by (simp_all add: clearNoProfile_def setBlockExecutionCount_def callKinds_def fun_eq_iff)

lemma propagateBlocks_recorded:
  assumes "\<not> isSample E R"
  shows "recorded E (YamlProfileToFunction R) (profiledCallSites (blockOrder R (bf S)) YamlBF) S
           (propagateBlocks E Op R YamlBF S)"
proof -
  let ?O = "blockOrder R (bf S)"
  let ?S3 = "fold (processBlock E Op R ?O) (YBF_Blocks YamlBF) S"
  let ?S4 = "fold (clearNoProfile E) (BF_BasicBlocks (bf ?S3)) ?S3"
  have e: "propagateBlocks E Op R YamlBF S = ?S4"
    using assms by (simp add: propagateBlocks_def blockOrder_def Let_def)
  have k: "callKinds (bf ?S4) = callKinds (bf ?S3)"
    by (rule fold_keeps [where g = "\<lambda>S. callKinds (bf S)"]) (rule clearNoProfile_site_frame)
  have o: "(\<lambda>B. BB_OriginalSize (BF_Block (bf ?S4) B)) = (\<lambda>B. BB_OriginalSize (BF_Block (bf ?S3) B))"
    by (rule fold_keeps [where g = "\<lambda>S. (\<lambda>B. BB_OriginalSize (BF_Block (bf S) B))"])
       (simp add: clearNoProfile_site_frame)
  have i: "(\<lambda>B. BB_InputOffset (BF_Block (bf ?S4) B)) = (\<lambda>B. BB_InputOffset (BF_Block (bf ?S3) B))"
    by (rule fold_keeps [where g = "\<lambda>S. (\<lambda>B. BB_InputOffset (BF_Block (bf S) B))"])
       (simp add: clearNoProfile_site_frame)
  have a: "BF_AllCallSites (bf ?S4) = BF_AllCallSites (bf ?S3)"
    by (rule fold_keeps [where g = "\<lambda>S. BF_AllCallSites (bf S)"]) (rule clearNoProfile_site_frame)
  have m: "MismatchedCalls ?S4 = MismatchedCalls ?S3"
    by (rule fold_keeps [where g = MismatchedCalls]) (rule clearNoProfile_site_frame)
  have "recorded E (YamlProfileToFunction R) [] ?S3 ?S4"
    by (rule recorded_Nil) (use k o i a m in \<open>simp_all add: fun_eq_iff\<close>)
  from recorded_trans [OF fold_processBlock_recorded [OF assms] this]
  show ?thesis by (simp add: e profiledCallSites_def)
qed

lemma parse_lbr_callsites:
  assumes s: "\<not> isSample E R" and ne: "\<not> BF_empty BF"
    and i: "InferStaleProfile Op \<longrightarrow> (\<forall>F Y. BF_AllCallSites (snd (inferStaleProfile E F Y)) = BF_AllCallSites F)"
  shows "BF_AllCallSites (fst (snd (parseFunctionProfile E Op R YamlBF (BF, Stats, Errs)))) =
     BF_AllCallSites BF @ map (\<lambda>P. callSiteEntry E (YamlProfileToFunction R) (snd P))
        (profiledCallSites (blockOrder R BF) YamlBF)"
proof -
  define BF1 where "BF1 = BF\<lparr>BF_ExecutionCount := YBF_ExecCount YamlBF,
                              BF_RawBranchCount := FuncRawBranchCount YamlBF\<rparr>"
  obtain PM S2 where cs: "checkShape E Op R YamlBF BF1 Errs = (PM, S2)"
    by (cases "checkShape E Op R YamlBF BF1 Errs")
  obtain h where h: "bf S2 = BF1\<lparr>BF_Hash := h\<rparr>"
    using checkShape_bf [of E Op R YamlBF BF1 Errs] cs by auto
  have o2: "blockOrder R (bf S2) = blockOrder R BF" "BF_AllCallSites (bf S2) = BF_AllCallSites BF"
    by (simp_all add: h BF1_def blockOrder_def)
  have p: "parseFunctionProfile E Op R YamlBF (BF, Stats, Errs) =
             finishProfile E Op R YamlBF PM (propagateBlocks E Op R YamlBF S2) Stats"
    using ne cs by (simp add: parseFunctionProfile_def BF_empty_def BF1_def [symmetric])
  have f: "BF_AllCallSites (fst (snd (finishProfile E Op R YamlBF PM S Stats))) = BF_AllCallSites (bf S)" for S
  proof (cases "InferStaleProfile Op")
    case True
    with i have "BF_AllCallSites (snd (inferStaleProfile E F Y)) = BF_AllCallSites F" for F Y by simp
    then have h: "inferStaleProfile E F Y = (v, F') \<Longrightarrow> BF_AllCallSites F' = BF_AllCallSites F" for F Y v F'
      by (metis snd_conv)
    show ?thesis
      by (auto simp add: finishProfile_def Let_def markProfiled_def split: prod.splits bool.splits dest: h)
  next
    case False
    then show ?thesis by (simp add: finishProfile_def Let_def markProfiled_def)
  qed
  from propagateBlocks_recorded [OF s, of S2 YamlBF Op]
  have "BF_AllCallSites (bf (propagateBlocks E Op R YamlBF S2)) =
     BF_AllCallSites (bf S2) @ map (\<lambda>P. callSiteEntry E (YamlProfileToFunction R) (snd P))
        (profiledCallSites (blockOrder R (bf S2)) YamlBF)"
    by (simp add: recorded_def)
  then show ?thesis unfolding p f o2 .
qed

lemma processBlock_Instructions:
  assumes "\<not> isSample E R" "YBB_Index YamlBB < length Order"
  shows "BF_Instructions (bf (processBlock E Op R Order YamlBB S)) =
     BF_Instructions (bf (fold (processCallSite E Op (YamlProfileToFunction R) (Order ! YBB_Index YamlBB))
        (YBB_CallSites YamlBB)
        (setBlockExecutionCount (Order ! YBB_Index YamlBB) (YBB_ExecCount YamlBB) S)))"
  using assms
  by (simp add: processBlock_def Let_def fold_keeps [where g = "\<lambda>S. BF_Instructions (bf S)"]
      processSuccessor_Instructions)

subsection \<open>Claim C8: the annotation of a call site\<close>

text \<open>
  Claim C8, as stated, fails at the default verbosity 0: a direct call that already
  carries a \<open>Count\<close> annotation keeps it, and no warning is written, because the
  warning is behind the test \<^verbatim>\<open>opts::Verbosity >= 1\<close>.
\<close>

theorem duplicate_annotation_silent_counterexample:
  "BF_Instructions fourBlockBF 8 = Some directCall \<and>
   MI_Annotations directCall ''Count'' = Some (Scalar 9) \<and>
   Verbosity Opts0 = 0 \<and>
   BF_Instructions (bf (annotateCallSite Opts0 8 directCall None (callAt 8) (startState fourBlockBF))) 8
     = Some directCall \<and>
   errs (annotateCallSite Opts0 8 directCall None (callAt 8) (startState fourBlockBF)) = []"
  by (simp add: annotateCallSite_def setAnnotation_def hasAnnotation_def warn_def
      fourBlockBF_def directCall_def Opts0_def startState_def callAt_def)

text \<open>
  Claim C8, amended. For the instruction \<open>Instr\<close> at the call site: if it is an
  indirect call or indirect branch, the entry (callee symbol, count, mispredictions) is
  appended to its \<open>CallProfile\<close> list, which is created when absent, and nothing is
  written to the diagnostics; else if it is a conditional tail call, \<open>CTCTakenCount\<close>
  and \<open>CTCMispredCount\<close> are set to the count and the mispredictions; otherwise
  \<open>Count\<close> is set to the count. A scalar annotation already present is left
  unchanged, and a warning is written for it exactly when the verbosity is at least 1.
  The step for a valid call site is this annotation, applied to the instruction at the
  call site in the state with the call site appended; and in LBR mode the instructions
  after a profiled block with an index in range are those that the call-site steps of
  the block leave, in the order of the block's call sites.
\<close>

theorem call_site_annotation_dispatch:
  assumes i: "BF_Instructions (bf S) At = Some Instr"
  shows "(MI_isIndirectCall Instr \<or> MI_isIndirectBranch Instr \<longrightarrow>
            errs (annotateCallSite Op At Instr Sym YamlCSI S) = errs S \<and>
            (MI_Annotations Instr ''CallProfile'' = None \<longrightarrow>
               BF_Instructions (bf (annotateCallSite Op At Instr Sym YamlCSI S)) At =
                 Some (Instr\<lparr>MI_Annotations := (MI_Annotations Instr)(''CallProfile'' \<mapsto>
                    IndirectCallSiteProfile [(Sym, CSI_Count YamlCSI, CSI_Mispreds YamlCSI)])\<rparr>)) \<and>
            (\<forall>CSP. MI_Annotations Instr ''CallProfile'' = Some (IndirectCallSiteProfile CSP) \<longrightarrow>
               BF_Instructions (bf (annotateCallSite Op At Instr Sym YamlCSI S)) At =
                 Some (Instr\<lparr>MI_Annotations := (MI_Annotations Instr)(''CallProfile'' \<mapsto>
                    IndirectCallSiteProfile (CSP @ [(Sym, CSI_Count YamlCSI, CSI_Mispreds YamlCSI)]))\<rparr>))) \<and>
         (\<not> (MI_isIndirectCall Instr \<or> MI_isIndirectBranch Instr) \<and> MI_isConditionalTailCall Instr \<longrightarrow>
            BF_Instructions (bf (annotateCallSite Op At Instr Sym YamlCSI S)) At =
              Some (Instr\<lparr>MI_Annotations :=
                 keepOrSet (keepOrSet (MI_Annotations Instr) ''CTCTakenCount'' (CSI_Count YamlCSI))
                   ''CTCMispredCount'' (CSI_Mispreds YamlCSI)\<rparr>) \<and>
            errs (annotateCallSite Op At Instr Sym YamlCSI S) =
              errs S @ duplicateWarnings Op (MI_Annotations Instr) (CSI_Offset YamlCSI)
                         [''CTCTakenCount'', ''CTCMispredCount'']) \<and>
         (\<not> (MI_isIndirectCall Instr \<or> MI_isIndirectBranch Instr) \<and> \<not> MI_isConditionalTailCall Instr \<longrightarrow>
            BF_Instructions (bf (annotateCallSite Op At Instr Sym YamlCSI S)) At =
              Some (Instr\<lparr>MI_Annotations :=
                 keepOrSet (MI_Annotations Instr) ''Count'' (CSI_Count YamlCSI)\<rparr>) \<and>
            errs (annotateCallSite Op At Instr Sym YamlCSI S) =
              errs S @ duplicateWarnings Op (MI_Annotations Instr) (CSI_Offset YamlCSI) [''Count'']) \<and>
         (\<not> invalidCallSite (bf S) B YamlCSI \<longrightarrow>
            processCallSite E Op Y2F B YamlCSI S =
              annotateCallSite Op (callSiteAt (bf S) B YamlCSI)
                (the (BF_Instructions (bf S) (callSiteAt (bf S) B YamlCSI)))
                (resolveCallee E Y2F YamlCSI) YamlCSI (withCallSite E Y2F YamlCSI S)) \<and>
         (\<not> isSample E R \<and> YBB_Index YamlBB < length Order \<longrightarrow>
            BF_Instructions (bf (processBlock E Op R Order YamlBB S)) =
              BF_Instructions (bf (fold (processCallSite E Op (YamlProfileToFunction R) (Order ! YBB_Index YamlBB))
                 (YBB_CallSites YamlBB)
                 (setBlockExecutionCount (Order ! YBB_Index YamlBB) (YBB_ExecCount YamlBB) S))))"
proof (intro conjI impI allI)
  assume "\<not> invalidCallSite (bf S) B YamlCSI"
  then show "processCallSite E Op Y2F B YamlCSI S =
              annotateCallSite Op (callSiteAt (bf S) B YamlCSI)
                (the (BF_Instructions (bf S) (callSiteAt (bf S) B YamlCSI)))
                (resolveCallee E Y2F YamlCSI) YamlCSI (withCallSite E Y2F YamlCSI S)"
    by (rule processCallSite_valid)
next
  assume "\<not> isSample E R \<and> YBB_Index YamlBB < length Order"
  then show "BF_Instructions (bf (processBlock E Op R Order YamlBB S)) =
              BF_Instructions (bf (fold (processCallSite E Op (YamlProfileToFunction R) (Order ! YBB_Index YamlBB))
                 (YBB_CallSites YamlBB)
                 (setBlockExecutionCount (Order ! YBB_Index YamlBB) (YBB_ExecCount YamlBB) S)))"
    by (simp add: processBlock_Instructions)
next
  assume a: "MI_isIndirectCall Instr \<or> MI_isIndirectBranch Instr"
  then have e: "annotateCallSite Op At Instr Sym YamlCSI S = setInstruction At
             (appendCallProfile Instr ''CallProfile''
                (Sym, CSI_Count YamlCSI, CSI_Mispreds YamlCSI)) S"
    by (simp add: annotateCallSite_def)
  show "errs (annotateCallSite Op At Instr Sym YamlCSI S) = errs S"
    by (simp add: e setInstruction_def)
  { assume "MI_Annotations Instr ''CallProfile'' = None"
    then show "BF_Instructions (bf (annotateCallSite Op At Instr Sym YamlCSI S)) At =
                 Some (Instr\<lparr>MI_Annotations := (MI_Annotations Instr)(''CallProfile'' \<mapsto>
                    IndirectCallSiteProfile [(Sym, CSI_Count YamlCSI, CSI_Mispreds YamlCSI)])\<rparr>)"
      by (simp add: e setInstruction_def appendCallProfile_def) }
  { fix CSP assume "MI_Annotations Instr ''CallProfile'' = Some (IndirectCallSiteProfile CSP)"
    then show "BF_Instructions (bf (annotateCallSite Op At Instr Sym YamlCSI S)) At =
                 Some (Instr\<lparr>MI_Annotations := (MI_Annotations Instr)(''CallProfile'' \<mapsto>
                    IndirectCallSiteProfile (CSP @ [(Sym, CSI_Count YamlCSI, CSI_Mispreds YamlCSI)]))\<rparr>)"
      by (simp add: e setInstruction_def appendCallProfile_def) }
next
  assume a: "\<not> (MI_isIndirectCall Instr \<or> MI_isIndirectBranch Instr) \<and> MI_isConditionalTailCall Instr"
  let ?S1 = "setAnnotation Op At (CSI_Offset YamlCSI) ''CTCTakenCount'' (CSI_Count YamlCSI) S"
  let ?I1 = "Instr\<lparr>MI_Annotations := keepOrSet (MI_Annotations Instr) ''CTCTakenCount'' (CSI_Count YamlCSI)\<rparr>"
  from a have e: "annotateCallSite Op At Instr Sym YamlCSI S =
      setAnnotation Op At (CSI_Offset YamlCSI) ''CTCMispredCount'' (CSI_Mispreds YamlCSI) ?S1"
    by (simp add: annotateCallSite_def)
  have i1: "BF_Instructions (bf ?S1) At = Some ?I1"
    by (simp add: setAnnotation_at(1) [OF i])
  have k: "(MI_Annotations ?I1 ''CTCMispredCount'' \<noteq> None) = (MI_Annotations Instr ''CTCMispredCount'' \<noteq> None)"
    by (simp add: keepOrSet_def split: option.splits)
  show "BF_Instructions (bf (annotateCallSite Op At Instr Sym YamlCSI S)) At =
              Some (Instr\<lparr>MI_Annotations :=
                 keepOrSet (keepOrSet (MI_Annotations Instr) ''CTCTakenCount'' (CSI_Count YamlCSI))
                   ''CTCMispredCount'' (CSI_Mispreds YamlCSI)\<rparr>)"
    by (simp add: e setAnnotation_at(1) [OF i1])
  show "errs (annotateCallSite Op At Instr Sym YamlCSI S) =
              errs S @ duplicateWarnings Op (MI_Annotations Instr) (CSI_Offset YamlCSI)
                         [''CTCTakenCount'', ''CTCMispredCount'']"
    using k
    by (simp add: e setAnnotation_at(2) [OF i1] setAnnotation_at(2) [OF i] duplicateWarnings_def)
next
  assume a: "\<not> (MI_isIndirectCall Instr \<or> MI_isIndirectBranch Instr) \<and> \<not> MI_isConditionalTailCall Instr"
  then have e: "annotateCallSite Op At Instr Sym YamlCSI S =
      setAnnotation Op At (CSI_Offset YamlCSI) ''Count'' (CSI_Count YamlCSI) S"
    by (simp add: annotateCallSite_def)
  show "BF_Instructions (bf (annotateCallSite Op At Instr Sym YamlCSI S)) At =
              Some (Instr\<lparr>MI_Annotations :=
                 keepOrSet (MI_Annotations Instr) ''Count'' (CSI_Count YamlCSI)\<rparr>)"
    by (simp add: e setAnnotation_at(1) [OF i])
  show "errs (annotateCallSite Op At Instr Sym YamlCSI S) =
              errs S @ duplicateWarnings Op (MI_Annotations Instr) (CSI_Offset YamlCSI) [''Count'']"
    by (simp add: e setAnnotation_at(2) [OF i])
qed

theorem call_site_annotation_dispatch_witness:
  "BF_Instructions (bf (startState fourBlockBF)) 8 = Some directCall \<and>
   BF_Instructions (bf (annotateCallSite Opts1 8 directCall None (callAt 8) (startState fourBlockBF))) 8
     = Some directCall \<and>
   errs (annotateCallSite Opts1 8 directCall None (callAt 8) (startState fourBlockBF))
     = [IgnoringDuplicateInfo ''Count'' 8] \<and>
   BF_Instructions (bf (startState fourBlockBF)) 12 = Some indirectCall \<and>
   BF_Instructions (bf (annotateCallSite Opts1 12 indirectCall (Some ''g'') (callAt 12) (startState fourBlockBF))) 12
     = Some (indirectCall\<lparr>MI_Annotations := [''CallProfile'' \<mapsto> IndirectCallSiteProfile [(Some ''g'', 40, 3)]]\<rparr>) \<and>
   \<not> invalidCallSite (bf (startState fourBlockBF)) 0 (callAt 8) \<and>
   errs (processCallSite Env0 Opts1 [] 0 (callAt 8) (startState fourBlockBF))
     = [IgnoringDuplicateInfo ''Count'' 8] \<and>
   \<not> isSample Env0 (Reader0 1) \<and> YBB_Index callBlock < length (BF_Layout fourBlockBF) \<and>
   map_option (\<lambda>I. MI_Annotations I ''Count'')
     (BF_Instructions (bf (processBlock Env0 Opts1 (Reader0 1) (BF_Layout fourBlockBF) callBlock
        (startState fourBlockBF))) 8) = Some (Some (Scalar 9)) \<and>
   errs (processBlock Env0 Opts1 (Reader0 1) (BF_Layout fourBlockBF) callBlock (startState fourBlockBF))
     = [IgnoringDuplicateInfo ''Count'' 8]"
proof -
  have y: "errs (processBlock Env0 Opts1 (Reader0 1) (BF_Layout fourBlockBF) callBlock (startState fourBlockBF))
     = [IgnoringDuplicateInfo ''Count'' 8]"
    by code_simp
  have v: "\<not> invalidCallSite (bf (startState fourBlockBF)) 0 (callAt 8)"
    by (simp add: invalidCallSite_def startState_def fourBlockBF_def fourBlocks_def callAt_def directCall_def)
  have w: "callSiteAt (bf (startState fourBlockBF)) 0 (callAt 8) = 8"
    "BF_Instructions (bf (withCallSite Env0 [] (callAt 8) (startState fourBlockBF))) 8 = Some directCall"
    "errs (withCallSite Env0 [] (callAt 8) (startState fourBlockBF)) = []"
    "resolveCallee Env0 [] (callAt 8) = None"
    by (simp_all add: callSiteAt_def startState_def fourBlockBF_def fourBlocks_def callAt_def
        withCallSite_def resolveCallee_def)
  have r: "\<not> isSample Env0 (Reader0 1)" "YBB_Index callBlock < length (BF_Layout fourBlockBF)"
    by (simp_all add: isSample_def Env0_def Reader0_def callBlock_def fourBlockBF_def)
  have f: "map_option (\<lambda>I. MI_Annotations I ''Count'')
     (BF_Instructions (bf (fold (processCallSite Env0 Opts1 (YamlProfileToFunction (Reader0 1))
         (BF_Layout fourBlockBF ! YBB_Index callBlock)) (YBB_CallSites callBlock)
         (setBlockExecutionCount (BF_Layout fourBlockBF ! YBB_Index callBlock) (YBB_ExecCount callBlock)
            (startState fourBlockBF)))) 8) = Some (Some (Scalar 9))"
    by code_simp
  have a: "BF_Instructions (bf (startState fourBlockBF)) 8 = Some directCall"
    by (simp add: startState_def fourBlockBF_def)
  have b: "BF_Instructions (bf (startState fourBlockBF)) 12 = Some indirectCall"
    by (simp add: startState_def fourBlockBF_def)
  have k: "keepOrSet (MI_Annotations directCall) ''Count'' 40 = MI_Annotations directCall"
    "duplicateWarnings Opts1 (MI_Annotations directCall) 8 [''Count''] = [IgnoringDuplicateInfo ''Count'' 8]"
    by (simp_all add: keepOrSet_def directCall_def duplicateWarnings_def Opts1_def)
  have d: "\<not> MI_isIndirectCall directCall" "\<not> MI_isIndirectBranch directCall"
    "\<not> MI_isConditionalTailCall directCall" "MI_isIndirectCall indirectCall"
    "MI_Annotations indirectCall = Map.empty" "errs (startState fourBlockBF) = []"
    "CSI_Count (callAt n) = 40" "CSI_Mispreds (callAt n) = 3" "CSI_Offset (callAt n) = n" for n
    by (simp_all add: directCall_def indirectCall_def startState_def callAt_def)
  from call_site_annotation_dispatch [OF w(2), where Op = Opts1 and Sym = None and YamlCSI = "callAt 8"]
  have x: "errs (annotateCallSite Opts1 8 directCall None (callAt 8)
      (withCallSite Env0 [] (callAt 8) (startState fourBlockBF))) = [IgnoringDuplicateInfo ''Count'' 8]"
    by (simp add: k d w)
  from call_site_annotation_dispatch [OF a, where Op = Opts1 and Sym = None and YamlCSI = "callAt 8"
         and B = 0 and E = Env0 and ?Y2F = "[]" and R = "Reader0 1" and YamlBB = callBlock
         and Order = "BF_Layout fourBlockBF"]
       call_site_annotation_dispatch [OF b, where Op = Opts1 and Sym = "Some ''g''" and YamlCSI = "callAt 12"]
  show ?thesis using a b v r y by (simp add: k d w x f)
qed

subsection \<open>Claim C7: call sites are recorded, then validated\<close>

text \<open>
  Claim C7. One call-site step appends (callee symbol, count, mispredictions, offset) to
  the function's call-site list, whatever the validation says. The counter
  \<open>MismatchedCalls\<close> goes up by one exactly when the call site is invalid: its
  offset is not below the block's original size, or there is no instruction at the
  block's input offset plus the offset, or that instruction is neither a call nor an
  indirect branch. For an invalid call site the instructions keep their annotations;
  for a valid one the counter is unchanged and the step is the annotation of that
  instruction. For a whole profiled block in LBR mode with an index in range, the list
  grows by one entry for each call site of the block, in order, and the counter by the
  number of invalid ones. For the whole propagation in LBR mode the list grows by one
  entry for each call site of each profiled block with an index in range, in the order
  of the record, and the counter by the number of invalid ones; and the function that
  \<open>parseFunctionProfile\<close> returns has this list, when the function is not empty and
  the stale-profile inference is disabled or leaves the list alone.
\<close>

theorem call_sites_recorded_then_validated:
  "BF_AllCallSites (bf (processCallSite E Op Y2F B YamlCSI S)) =
     BF_AllCallSites (bf S) @
       [(resolveCallee E Y2F YamlCSI, CSI_Count YamlCSI, CSI_Mispreds YamlCSI, CSI_Offset YamlCSI)] \<and>
   (MismatchedCalls (processCallSite E Op Y2F B YamlCSI S) = MismatchedCalls S + 1)
     = invalidCallSite (bf S) B YamlCSI \<and>
   (invalidCallSite (bf S) B YamlCSI \<longrightarrow>
      BF_Instructions (bf (processCallSite E Op Y2F B YamlCSI S)) = BF_Instructions (bf S)) \<and>
   (\<not> invalidCallSite (bf S) B YamlCSI \<longrightarrow>
      MismatchedCalls (processCallSite E Op Y2F B YamlCSI S) = MismatchedCalls S \<and>
      processCallSite E Op Y2F B YamlCSI S =
        annotateCallSite Op (callSiteAt (bf S) B YamlCSI)
          (the (BF_Instructions (bf S) (callSiteAt (bf S) B YamlCSI)))
          (resolveCallee E Y2F YamlCSI) YamlCSI (withCallSite E Y2F YamlCSI S)) \<and>
   (\<not> isSample E R \<and> YBB_Index YamlBB < length Order \<longrightarrow>
      BF_AllCallSites (bf (processBlock E Op R Order YamlBB S)) =
        BF_AllCallSites (bf S) @ map (callSiteEntry E (YamlProfileToFunction R)) (YBB_CallSites YamlBB) \<and>
      MismatchedCalls (processBlock E Op R Order YamlBB S) =
        MismatchedCalls S + of_nat (length (filter (invalidCallSite (bf S) (Order ! YBB_Index YamlBB))
              (YBB_CallSites YamlBB)))) \<and>
   (\<not> isSample E R \<longrightarrow>
      BF_AllCallSites (bf (propagateBlocks E Op R YamlBF S)) =
        BF_AllCallSites (bf S) @
          map (\<lambda>P. callSiteEntry E (YamlProfileToFunction R) (snd P))
            (profiledCallSites (blockOrder R (bf S)) YamlBF) \<and>
      MismatchedCalls (propagateBlocks E Op R YamlBF S) =
        MismatchedCalls S +
        of_nat (length (filter (\<lambda>P. invalidCallSite (bf S) (fst P) (snd P))
                  (profiledCallSites (blockOrder R (bf S)) YamlBF)))) \<and>
   (\<not> isSample E R \<and> \<not> BF_empty BF \<and>
    (InferStaleProfile Op \<longrightarrow>
       (\<forall>F P. BF_AllCallSites (snd (inferStaleProfile E F P)) = BF_AllCallSites F)) \<longrightarrow>
      BF_AllCallSites (fst (snd (parseFunctionProfile E Op R YamlBF (BF, Stats, Errs)))) =
        BF_AllCallSites BF @
          map (\<lambda>P. callSiteEntry E (YamlProfileToFunction R) (snd P))
            (profiledCallSites (blockOrder R BF) YamlBF))"
proof -
  have 1: "BF_AllCallSites (bf (processCallSite E Op Y2F B YamlCSI S)) =
     BF_AllCallSites (bf S) @
       [(resolveCallee E Y2F YamlCSI, CSI_Count YamlCSI, CSI_Mispreds YamlCSI, CSI_Offset YamlCSI)]"
    by (simp add: processCallSite_AllCallSites callSiteEntry_def)
  have 2: "(MismatchedCalls (processCallSite E Op Y2F B YamlCSI S) = MismatchedCalls S + 1)
     = invalidCallSite (bf S) B YamlCSI"
    by (simp add: processCallSite_MismatchedCalls)
  have 3: "invalidCallSite (bf S) B YamlCSI \<longrightarrow>
      BF_Instructions (bf (processCallSite E Op Y2F B YamlCSI S)) = BF_Instructions (bf S)"
    by (simp add: processCallSite_invalid(1) withCallSite_def)
  have 4: "\<not> invalidCallSite (bf S) B YamlCSI \<longrightarrow>
      MismatchedCalls (processCallSite E Op Y2F B YamlCSI S) = MismatchedCalls S \<and>
      processCallSite E Op Y2F B YamlCSI S =
        annotateCallSite Op (callSiteAt (bf S) B YamlCSI)
          (the (BF_Instructions (bf S) (callSiteAt (bf S) B YamlCSI)))
          (resolveCallee E Y2F YamlCSI) YamlCSI (withCallSite E Y2F YamlCSI S)"
    using processCallSite_valid [of S B YamlCSI E Op Y2F] processCallSite_MismatchedCalls [of E Op Y2F B YamlCSI S]
    by auto
  have 5: "\<not> isSample E R \<longrightarrow>
      BF_AllCallSites (bf (propagateBlocks E Op R YamlBF S)) =
        BF_AllCallSites (bf S) @
          map (\<lambda>P. callSiteEntry E (YamlProfileToFunction R) (snd P))
            (profiledCallSites (blockOrder R (bf S)) YamlBF) \<and>
      MismatchedCalls (propagateBlocks E Op R YamlBF S) =
        MismatchedCalls S +
        of_nat (length (filter (\<lambda>P. invalidCallSite (bf S) (fst P) (snd P))
                  (profiledCallSites (blockOrder R (bf S)) YamlBF)))"
    using propagateBlocks_recorded [of E R S YamlBF Op] by (simp add: recorded_def)
  from 1 2 3 4 5 processBlock_calls [of E R YamlBB Order Op S]
    parse_lbr_callsites [of E R BF Op YamlBF Stats Errs]
  show ?thesis by blast
qed

theorem call_sites_recorded_then_validated_witness:
  "invalidCallSite fourBlockBF 0 (callAt 20) \<and> \<not> invalidCallSite fourBlockBF 0 (callAt 8) \<and>
   \<not> isSample Env0 (Reader0 1) \<and> YBB_Index callBlock < length (BF_Layout fourBlockBF) \<and>
   \<not> BF_empty fourBlockBF \<and> \<not> InferStaleProfile Opts0 \<and>
   BF_AllCallSites (bf (processCallSite Env0 Opts0 [] 0 (callAt 20) (startState fourBlockBF)))
     = [(None, 40, 3, 20)] \<and>
   MismatchedCalls (processCallSite Env0 Opts0 [] 0 (callAt 20) (startState fourBlockBF)) = 1 \<and>
   BF_Instructions (bf (processCallSite Env0 Opts0 [] 0 (callAt 20) (startState fourBlockBF)))
     = BF_Instructions fourBlockBF \<and>
   MismatchedCalls (processCallSite Env0 Opts0 [] 0 (callAt 8) (startState fourBlockBF)) = 0 \<and>
   BF_AllCallSites (bf (processBlock Env0 Opts0 (Reader0 1) (BF_Layout fourBlockBF) callBlock
      (startState fourBlockBF))) = [(None, 40, 3, 8), (None, 40, 3, 20)] \<and>
   MismatchedCalls (processBlock Env0 Opts0 (Reader0 1) (BF_Layout fourBlockBF) callBlock
      (startState fourBlockBF)) = 1 \<and>
   MismatchedCalls (propagateBlocks Env0 Opts0 (Reader0 1) callProfile (startState fourBlockBF)) = 1 \<and>
   BF_AllCallSites (fst (snd (parseFunctionProfile Env0 Opts0 (Reader0 1) callProfile (fourBlockBF, 0, []))))
     = [(None, 40, 3, 8), (None, 40, 3, 20)] \<and>
   length (BF_AllCallSites (bf (propagateBlocks Env0 Opts0 (Reader0 1) callProfile (startState fourBlockBF)))) = 2"
proof -
  have y: "length (BF_AllCallSites (bf (propagateBlocks Env0 Opts0 (Reader0 1) callProfile
      (startState fourBlockBF)))) = 2"
    by code_simp
  have s: "bf (startState fourBlockBF) = fourBlockBF" "MismatchedCalls (startState fourBlockBF) = 0"
    "BF_AllCallSites fourBlockBF = []"
    by (simp_all add: startState_def fourBlockBF_def)
  have i: "invalidCallSite fourBlockBF 0 (callAt 20)" "\<not> invalidCallSite fourBlockBF 0 (callAt 8)"
    by (simp_all add: invalidCallSite_def fourBlockBF_def fourBlocks_def callAt_def directCall_def)
  have r: "\<not> isSample Env0 (Reader0 1)" "YBB_Index callBlock < length (BF_Layout fourBlockBF)"
    "BF_Layout fourBlockBF ! YBB_Index callBlock = 0" "YamlProfileToFunction (Reader0 1) = []"
    "YBB_CallSites callBlock = [callAt 8, callAt 20]"
    by (simp_all add: isSample_def Env0_def Reader0_def callBlock_def fourBlockBF_def)
  have c: "resolveCallee Env0 [] (callAt n) = None" "callSiteEntry Env0 [] (callAt n) = (None, 40, 3, n)" for n
    by (simp_all add: callSiteEntry_def resolveCallee_def callAt_def)
  have v: "CSI_Count (callAt n) = 40" "CSI_Mispreds (callAt n) = 3" "CSI_Offset (callAt n) = n" for n
    by (simp_all add: callAt_def)
  have e: "\<not> BF_empty fourBlockBF" "\<not> InferStaleProfile Opts0"
    by (simp_all add: BF_empty_def fourBlockBF_def Opts0_def)
  have p1: "map (\<lambda>P. callSiteEntry Env0 [] (snd P))
      (profiledCallSites (blockOrder (Reader0 1) fourBlockBF) callProfile) = [(None, 40, 3, 8), (None, 40, 3, 20)]"
    by code_simp
  have p2: "length (filter (\<lambda>P. invalidCallSite fourBlockBF (fst P) (snd P))
      (profiledCallSites (blockOrder (Reader0 1) fourBlockBF) callProfile)) = 1"
    by code_simp
  from call_sites_recorded_then_validated [where E = Env0 and Op = Opts0 and ?Y2F = "[]" and B = 0 and YamlCSI = "callAt 20"
        and S = "startState fourBlockBF" and R = "Reader0 1" and YamlBB = callBlock
        and Order = "BF_Layout fourBlockBF" and YamlBF = callProfile and BF = fourBlockBF
        and Stats = 0 and Errs = "[]"]
       call_sites_recorded_then_validated [where E = Env0 and Op = Opts0 and ?Y2F = "[]" and B = 0 and YamlCSI = "callAt 8"
        and S = "startState fourBlockBF" and R = "Reader0 1" and YamlBB = callBlock
        and Order = "BF_Layout fourBlockBF" and YamlBF = callProfile and BF = fourBlockBF
        and Stats = 0 and Errs = "[]"]
  show ?thesis using i r e y by (simp add: s c v r p1 p2 annotateCallSite_frame(2) withCallSite_def)
qed

subsection \<open>The edges of a whole record\<close>

lemma getSuccessor_None: "(getSuccessor BB T = None) = (T \<notin> set (map fst (BB_Successors BB)))"
  by (auto simp add: getSuccessor_def find_None_iff)

lemma getConditionalSuccessor_targets:
  "getConditionalSuccessor BB c =
     (if length (map fst (BB_Successors BB)) \<noteq> 2 then None
      else Some (map fst (BB_Successors BB) ! (if c then 0 else 1)))"
  by (simp add: getConditionalSuccessor_def succ_size_def)

lemma passThrough_cong:
  assumes "\<And>X. map fst (BB_Successors (BF_Block BF' X)) = map fst (BB_Successors (BF_Block BF X))"
  shows "passThrough BF' B T = passThrough BF B T"
  by (simp add: passThrough_def getConditionalSuccessor_targets assms split: option.splits)

lemma creditedEdges_cong:
  assumes "\<And>X. map fst (BB_Successors (BF_Block BF' X)) = map fst (BB_Successors (BF_Block BF X))"
  shows "creditedEdges BF' Order = creditedEdges BF Order"
  by (simp add: creditedEdges_def fun_eq_iff assms passThrough_cong [OF assms] Let_def)

lemma credit_cong:
  assumes "\<And>X. map fst (BB_Successors (BF_Block BF' X)) = map fst (BB_Successors (BF_Block BF X))"
  shows "credit BF' Order = credit BF Order" "mismatchedEntries BF' Order = mismatchedEntries BF Order"
  by (simp_all add: credit_def mismatchedEntries_def fun_eq_iff creditedEdges_cong [OF assms])

lemma credit_append:
  "credit BF Order (En1 @ En2) Edge f = credit BF Order En1 Edge f + credit BF Order En2 Edge f"
  "mismatchedEntries BF Order (En1 @ En2) = mismatchedEntries BF Order En1 + mismatchedEntries BF Order En2"
  by (simp_all add: credit_def mismatchedEntries_def)

lemma addCounts_addCounts: "addCounts c m (addCounts c' m' BI) = addCounts (c' + c) (m' + m) BI"
  by (simp add: addCounts_def)

lemma addCounts_zero: "addCounts 0 0 BI = BI"
  by (simp add: addCounts_def)

lemma map_option_addCounts_zero: "map_option (addCounts 0 0) x = x"
  by (cases x) (simp_all add: addCounts_zero)

lemma credited_trans:
  assumes a: "credited Order En1 S S'" and b: "credited Order En2 S' S''"
  shows "credited Order (En1 @ En2) S S''"
proof -
  from a have t: "\<And>X. map fst (BB_Successors (BF_Block (bf S') X)) = map fst (BB_Successors (BF_Block (bf S) X))"
    by (simp add: credited_def)
  note c = credit_cong [OF t]
  from a b show ?thesis
    by (simp add: credited_def c credit_append option.map_comp comp_def addCounts_addCounts)
qed

lemma credited_Nil:
  assumes "\<And>X. BB_Successors (BF_Block (bf S') X) = BB_Successors (BF_Block (bf S) X)"
    and "MismatchedEdges S' = MismatchedEdges S"
  shows "credited Order [] S S'"
  using assms
  by (simp add: credited_def credit_def mismatchedEntries_def getBranchInfo_def map_option_addCounts_zero)

lemma find_other:
  "Y \<noteq> T \<Longrightarrow> find (\<lambda>E. fst E = Y) (addToBranchInfo T c m Es) = find (\<lambda>E. fst E = Y) Es"
  by (induction Es) auto

lemma getBranchInfo_addBranchInfo:
  "getBranchInfo (BF_Block (bf (addBranchInfo From To c m S)) X) Y =
     (if X = From \<and> Y = To then map_option (addCounts c m) (getBranchInfo (BF_Block (bf S) X) Y)
      else getBranchInfo (BF_Block (bf S) X) Y)"
  by (simp add: addBranchInfo_def getBranchInfo_added) (simp add: getBranchInfo_def find_other)

lemma addBranchInfo_targets:
  "map fst (BB_Successors (BF_Block (bf (addBranchInfo From To c m S)) X)) =
   map fst (BB_Successors (BF_Block (bf S) X))"
  by (simp add: addBranchInfo_def addToBranchInfo_targets)

lemma addBranchInfo_MismatchedEdges: "MismatchedEdges (addBranchInfo From To c m S) = MismatchedEdges S"
  by (simp add: addBranchInfo_def)

lemma processSuccessor_credited:
  "credited Order [(B, YamlSI)] S (processSuccessor Op Order B YamlSI S)"
proof (cases "SI_Index YamlSI < length Order")
  case False
  then have c: "creditedEdges (bf S) Order (B, YamlSI) = []" by (simp add: creditedEdges_def)
  from False show ?thesis
    by (simp add: credited_def credit_def mismatchedEntries_def c processSuccessor_def mismatchedEdge_def
        map_option_addCounts_zero)
next
  case r: True
  let ?T = "Order ! SI_Index YamlSI"
  show ?thesis
  proof (cases "getSuccessor (BF_Block (bf S) B) ?T = None")
    case False
    then have c: "creditedEdges (bf S) Order (B, YamlSI) = [(B, ?T)]"
      using r by (simp add: creditedEdges_def getSuccessor_None del: set_map)
    from False r have e: "processSuccessor Op Order B YamlSI S =
        addBranchInfo B ?T (SI_Count YamlSI) (SI_Mispreds YamlSI) S"
      by (simp add: processSuccessor_def Let_def del: not_None_eq)
    show ?thesis
      by (simp add: credited_def credit_def mismatchedEntries_def c e getBranchInfo_addBranchInfo
          addBranchInfo_targets addBranchInfo_MismatchedEdges map_option_addCounts_zero)
  next
    case n: True
    show ?thesis
    proof (cases "passThrough (bf S) B ?T")
      case None
      then have c: "creditedEdges (bf S) Order (B, YamlSI) = []"
        using r n by (simp add: creditedEdges_def getSuccessor_None del: set_map)
      show ?thesis
        by (simp add: credited_def credit_def mismatchedEntries_def c
            processSuccessor_mismatch [OF r n None] mismatchedEdge_def map_option_addCounts_zero)
    next
      case (Some FT)
      then have c: "creditedEdges (bf S) Order (B, YamlSI) = [(FT, ?T), (B, FT)]"
        using r n by (simp add: creditedEdges_def getSuccessor_None del: set_map)
      note ne = passThrough_Some(3) [OF Some]
      show ?thesis
        using ne
        by (auto simp add: credited_def credit_def mismatchedEntries_def c
            processSuccessor_passThrough [OF r n Some] getBranchInfo_addBranchInfo
            addBranchInfo_targets addBranchInfo_MismatchedEdges map_option_addCounts_zero)
    qed
  qed
qed

lemma fold_processSuccessor_credited:
  "credited Order (map (Pair B) Ss) S (fold (processSuccessor Op Order B) Ss S)"
proof (induction Ss arbitrary: S)
  case Nil
  show ?case by (simp add: credited_Nil)
next
  case (Cons Y Ss)
  from credited_trans [OF processSuccessor_credited Cons.IH]
  show ?case by simp
qed

lemma setAnnotation_MismatchedEdges:
  "MismatchedEdges (setAnnotation Op At Off N C S) = MismatchedEdges S"
  by (simp add: setAnnotation_def setInstruction_def split: option.splits)

lemma annotateCallSite_MismatchedEdges:
  "MismatchedEdges (annotateCallSite Op At Instr Sym C S) = MismatchedEdges S"
  by (simp add: annotateCallSite_def setAnnotation_MismatchedEdges setInstruction_def)

lemma processCallSite_MismatchedEdges:
  "MismatchedEdges (processCallSite E Op Y2F B C S) = MismatchedEdges S"
  by (simp add: processCallSite_def Let_def mismatchedCall_def annotateCallSite_MismatchedEdges
      split: option.splits)

lemma processBlock_credited:
  assumes "\<not> isSample E R"
  shows "credited Order (blockEdges Order YamlBB) S (processBlock E Op R Order YamlBB S)"
proof (cases "YBB_Index YamlBB < length Order")
  case False
  then show ?thesis
    by (simp add: blockEdges_def processBlock_def credited_Nil)
next
  case True
  let ?B = "Order ! YBB_Index YamlBB"
  let ?S1 = "setBlockExecutionCount ?B (YBB_ExecCount YamlBB) S"
  let ?S2 = "fold (processCallSite E Op (YamlProfileToFunction R) ?B) (YBB_CallSites YamlBB) ?S1"
  have e: "processBlock E Op R Order YamlBB S = fold (processSuccessor Op Order ?B) (YBB_Successors YamlBB) ?S2"
    using assms True by (simp add: processBlock_def Let_def)
  have b: "BF_Block (bf ?S2) = BF_Block (bf ?S1)"
    by (rule fold_keeps [where g = "\<lambda>S. BF_Block (bf S)"]) (rule processCallSite_Block)
  have m: "MismatchedEdges ?S2 = MismatchedEdges ?S1"
    by (rule fold_keeps [where g = MismatchedEdges]) (rule processCallSite_MismatchedEdges)
  have "credited Order [] S ?S2"
    by (rule credited_Nil) (simp_all add: b m, simp_all add: setBlockExecutionCount_def)
  from credited_trans [OF this fold_processSuccessor_credited]
  show ?thesis using True by (simp add: e blockEdges_def)
qed

lemma fold_processBlock_credited:
  assumes "\<not> isSample E R"
  shows "credited Order (concat (map (blockEdges Order) Ys)) S (fold (processBlock E Op R Order) Ys S)"
proof (induction Ys arbitrary: S)
  case Nil
  show ?case by (simp add: credited_Nil)
next
  case (Cons Y Ys)
  from credited_trans [OF processBlock_credited [OF assms] Cons.IH]
  show ?case by simp
qed

lemma clearNoProfile_edges:
  "BB_Successors (BF_Block (bf (clearNoProfile E B S)) X) = BB_Successors (BF_Block (bf S) X)"
  "MismatchedEdges (clearNoProfile E B S) = MismatchedEdges S"
  by (simp_all add: clearNoProfile_def setBlockExecutionCount_def)

lemma propagateBlocks_credited:
  assumes "\<not> isSample E R"
  shows "credited (blockOrder R (bf S)) (profiledEdges (blockOrder R (bf S)) YamlBF) S
           (propagateBlocks E Op R YamlBF S)"
proof -
  let ?O = "blockOrder R (bf S)"
  let ?S3 = "fold (processBlock E Op R ?O) (YBF_Blocks YamlBF) S"
  let ?S4 = "fold (clearNoProfile E) (BF_BasicBlocks (bf ?S3)) ?S3"
  have e: "propagateBlocks E Op R YamlBF S = ?S4"
    using assms by (simp add: propagateBlocks_def blockOrder_def Let_def)
  have a: "(\<lambda>X. BB_Successors (BF_Block (bf ?S4) X)) = (\<lambda>X. BB_Successors (BF_Block (bf ?S3) X))"
    by (rule fold_keeps [where g = "\<lambda>S. (\<lambda>X. BB_Successors (BF_Block (bf S) X))"])
       (simp add: clearNoProfile_edges)
  have m: "MismatchedEdges ?S4 = MismatchedEdges ?S3"
    by (rule fold_keeps [where g = MismatchedEdges]) (rule clearNoProfile_edges)
  have "credited ?O [] ?S3 ?S4"
    by (rule credited_Nil) (use a m in \<open>simp_all add: fun_eq_iff\<close>)
  from credited_trans [OF fold_processBlock_credited [OF assms] this]
  show ?thesis by (simp add: e profiledEdges_def)
qed

lemma finishProfile_verdict:
  assumes "\<not> InferStaleProfile Op"
  shows "fst (finishProfile E Op R YamlBF PM S Stats) =
           (PM \<and> MismatchedBlocks S = 0 \<and> MismatchedCalls S = 0 \<and> MismatchedEdges S = 0)"
  using assms by (simp add: finishProfile_def Let_def)

lemma checkShape_MismatchedEdges: "MismatchedEdges (snd (checkShape E Op R YamlBF BF1 Errs)) = 0"
  by (simp add: checkShape_def Let_def)

lemma credit_Block:
  assumes "BF_Block BF' = BF_Block BF"
  shows "credit BF' Order = credit BF Order" "mismatchedEntries BF' Order = mismatchedEntries BF Order"
  by (rule credit_cong, simp add: assms)+

lemma parse_lbr_nonempty:
  assumes s: "\<not> isSample E R" and ne: "\<not> BF_empty BF"
  shows "\<exists>S2 PM. BF_Block (bf S2) = BF_Block BF \<and> blockOrder R (bf S2) = blockOrder R BF \<and>
           MismatchedEdges S2 = 0 \<and>
           parseFunctionProfile E Op R YamlBF (BF, Stats, Errs) =
             finishProfile E Op R YamlBF PM (propagateBlocks E Op R YamlBF S2) Stats"
proof -
  define BF1 where "BF1 = BF\<lparr>BF_ExecutionCount := YBF_ExecCount YamlBF,
                              BF_RawBranchCount := FuncRawBranchCount YamlBF\<rparr>"
  obtain PM S2 where cs: "checkShape E Op R YamlBF BF1 Errs = (PM, S2)"
    by (cases "checkShape E Op R YamlBF BF1 Errs")
  obtain h where h: "bf S2 = BF1\<lparr>BF_Hash := h\<rparr>"
    using checkShape_bf [of E Op R YamlBF BF1 Errs] cs by auto
  have m: "MismatchedEdges S2 = 0"
    using checkShape_MismatchedEdges [of E Op R YamlBF BF1 Errs] cs by simp
  have o2: "blockOrder R (bf S2) = blockOrder R BF" "BF_Block (bf S2) = BF_Block BF"
    by (simp_all add: h BF1_def blockOrder_def)
  have "parseFunctionProfile E Op R YamlBF (BF, Stats, Errs) =
             finishProfile E Op R YamlBF PM (propagateBlocks E Op R YamlBF S2) Stats"
    using ne cs by (simp add: parseFunctionProfile_def BF_empty_def BF1_def [symmetric])
  with o2 m show ?thesis by blast
qed

lemma parse_lbr_edges:
  assumes s: "\<not> isSample E R" and ne: "\<not> BF_empty BF"
    and i: "InferStaleProfile Op \<longrightarrow> (\<forall>F Y. BF_Block (snd (inferStaleProfile E F Y)) = BF_Block F)"
  shows "getBranchInfo (BF_Block (fst (snd (parseFunctionProfile E Op R YamlBF (BF, Stats, Errs)))) X) Y =
     map_option (addCounts (credit BF (blockOrder R BF) (profiledEdges (blockOrder R BF) YamlBF) (X, Y) SI_Count)
                           (credit BF (blockOrder R BF) (profiledEdges (blockOrder R BF) YamlBF) (X, Y) SI_Mispreds))
       (getBranchInfo (BF_Block BF X) Y)"
proof -
  from parse_lbr_nonempty [OF s ne, of Op YamlBF Stats Errs]
  obtain S2 PM where b: "BF_Block (bf S2) = BF_Block BF" and o: "blockOrder R (bf S2) = blockOrder R BF"
    and p: "parseFunctionProfile E Op R YamlBF (BF, Stats, Errs) =
             finishProfile E Op R YamlBF PM (propagateBlocks E Op R YamlBF S2) Stats"
    by blast
  have f: "BF_Block (fst (snd (finishProfile E Op R YamlBF PM S Stats))) = BF_Block (bf S)" for S
  proof (cases "InferStaleProfile Op")
    case True
    with i have "BF_Block (snd (inferStaleProfile E F Y)) = BF_Block F" for F Y by simp
    then have h: "inferStaleProfile E F Y = (v, F') \<Longrightarrow> BF_Block F' = BF_Block F" for F Y v F'
      by (metis snd_conv)
    show ?thesis
      by (auto simp add: finishProfile_def Let_def markProfiled_def split: prod.splits bool.splits dest: h)
  next
    case False
    then show ?thesis by (simp add: finishProfile_def Let_def markProfiled_def)
  qed
  from propagateBlocks_credited [OF s, of S2 YamlBF Op]
  have "getBranchInfo (BF_Block (bf (propagateBlocks E Op R YamlBF S2)) X) Y =
     map_option (addCounts (credit (bf S2) (blockOrder R (bf S2)) (profiledEdges (blockOrder R (bf S2)) YamlBF) (X, Y) SI_Count)
                           (credit (bf S2) (blockOrder R (bf S2)) (profiledEdges (blockOrder R (bf S2)) YamlBF) (X, Y) SI_Mispreds))
       (getBranchInfo (BF_Block (bf S2) X) Y)"
    unfolding credited_def by blast
  then show ?thesis
    unfolding p f o credit_Block(1) [OF b] b .
qed

lemma parse_lbr_verdict:
  assumes s: "\<not> isSample E R" and ne: "\<not> BF_empty BF" and i: "\<not> InferStaleProfile Op"
    and v: "fst (parseFunctionProfile E Op R YamlBF (BF, Stats, Errs))"
  shows "(of_nat (mismatchedEntries BF (blockOrder R BF) (profiledEdges (blockOrder R BF) YamlBF)) :: u64) = 0"
proof -
  from parse_lbr_nonempty [OF s ne, of Op YamlBF Stats Errs]
  obtain S2 PM where b: "BF_Block (bf S2) = BF_Block BF" and o: "blockOrder R (bf S2) = blockOrder R BF"
    and m: "MismatchedEdges S2 = 0"
    and p: "parseFunctionProfile E Op R YamlBF (BF, Stats, Errs) =
             finishProfile E Op R YamlBF PM (propagateBlocks E Op R YamlBF S2) Stats"
    by blast
  from v have "MismatchedEdges (propagateBlocks E Op R YamlBF S2) = 0"
    by (simp add: p finishProfile_verdict [OF i])
  moreover from propagateBlocks_credited [OF s, of S2 YamlBF Op]
  have "MismatchedEdges (propagateBlocks E Op R YamlBF S2) =
     MismatchedEdges S2 + of_nat (mismatchedEntries (bf S2) (blockOrder R (bf S2))
        (profiledEdges (blockOrder R (bf S2)) YamlBF))"
    unfolding credited_def by blast
  ultimately show ?thesis
    unfolding m o credit_Block(2) [OF b] by simp
qed

subsection \<open>Claim C5: the pass-through heuristic\<close>

text \<open>
  Claim C5. First one successor step: let a successor entry with an index in range name
  the block \<open>ToBB\<close>, not a successor of \<open>B\<close>. If the false-branch conditional
  successor \<open>FT\<close> of \<open>B\<close> exists and its only successor is \<open>ToBB\<close>, the step adds
  the entry's count and mispredictions to the branch info of the edge from \<open>FT\<close> to
  \<open>ToBB\<close> and to that of the edge from \<open>B\<close> to \<open>FT\<close> (both edges exist), and
  leaves the edge-mismatch counter as it is. Otherwise the counter goes up by one and
  the function is unchanged. Then the whole propagation in LBR mode (in sample mode no
  successor entry is read): after the loops every edge from \<open>X\<close> to \<open>Y\<close> carries the
  counts it had plus the counts of all successor entries of the record that are credited
  to it, so that a pass-through entry of \<open>B\<close> is counted on the edge from \<open>FT\<close> to
  \<open>ToBB\<close> and on the edge from \<open>B\<close> to \<open>FT\<close>, and the edge-mismatch counter has
  gone up by the number of entries credited to no edge. The edges are the same in the
  function that \<open>parseFunctionProfile\<close> returns, when the function is not empty and
  the stale-profile inference is disabled or leaves the blocks alone; and with the
  inference disabled, a verdict of true says that the number of entries credited to no
  edge is 0 as a 64-bit counter.
\<close>

theorem passthrough_heuristic:
  "(SI_Index YamlSI < length Order \<and>
    getSuccessor (BF_Block (bf S) B) (Order ! SI_Index YamlSI) = None \<longrightarrow>
      (passThrough (bf S) B (Order ! SI_Index YamlSI) = Some FT \<longrightarrow>
         getBranchInfo (BF_Block (bf S) FT) (Order ! SI_Index YamlSI) \<noteq> None \<and>
         getBranchInfo (BF_Block (bf (processSuccessor Op Order B YamlSI S)) FT) (Order ! SI_Index YamlSI)
           = map_option (addCounts (SI_Count YamlSI) (SI_Mispreds YamlSI))
               (getBranchInfo (BF_Block (bf S) FT) (Order ! SI_Index YamlSI)) \<and>
         getBranchInfo (BF_Block (bf S) B) FT \<noteq> None \<and>
         getBranchInfo (BF_Block (bf (processSuccessor Op Order B YamlSI S)) B) FT
           = map_option (addCounts (SI_Count YamlSI) (SI_Mispreds YamlSI))
               (getBranchInfo (BF_Block (bf S) B) FT) \<and>
         MismatchedEdges (processSuccessor Op Order B YamlSI S) = MismatchedEdges S) \<and>
      (passThrough (bf S) B (Order ! SI_Index YamlSI) = None \<longrightarrow>
         MismatchedEdges (processSuccessor Op Order B YamlSI S) = MismatchedEdges S + 1 \<and>
         bf (processSuccessor Op Order B YamlSI S) = bf S)) \<and>
   (\<not> isSample E R \<longrightarrow>
      getBranchInfo (BF_Block (bf (propagateBlocks E Op R YamlBF S)) X) Y =
        map_option
          (addCounts
             (credit (bf S) (blockOrder R (bf S)) (profiledEdges (blockOrder R (bf S)) YamlBF) (X, Y) SI_Count)
             (credit (bf S) (blockOrder R (bf S)) (profiledEdges (blockOrder R (bf S)) YamlBF) (X, Y) SI_Mispreds))
          (getBranchInfo (BF_Block (bf S) X) Y) \<and>
      MismatchedEdges (propagateBlocks E Op R YamlBF S) =
        MismatchedEdges S +
        of_nat (mismatchedEntries (bf S) (blockOrder R (bf S)) (profiledEdges (blockOrder R (bf S)) YamlBF))) \<and>
   (\<not> isSample E R \<and> \<not> BF_empty BF \<and>
    (InferStaleProfile Op \<longrightarrow> (\<forall>F P. BF_Block (snd (inferStaleProfile E F P)) = BF_Block F)) \<longrightarrow>
      getBranchInfo (BF_Block (fst (snd (parseFunctionProfile E Op R YamlBF (BF, Stats, Errs)))) X) Y =
        map_option
          (addCounts
             (credit BF (blockOrder R BF) (profiledEdges (blockOrder R BF) YamlBF) (X, Y) SI_Count)
             (credit BF (blockOrder R BF) (profiledEdges (blockOrder R BF) YamlBF) (X, Y) SI_Mispreds))
          (getBranchInfo (BF_Block BF X) Y)) \<and>
   (\<not> isSample E R \<and> \<not> BF_empty BF \<and> \<not> InferStaleProfile Op \<and>
    fst (parseFunctionProfile E Op R YamlBF (BF, Stats, Errs)) \<longrightarrow>
      (of_nat (mismatchedEntries BF (blockOrder R BF) (profiledEdges (blockOrder R BF) YamlBF)) :: u64) = 0)"
proof -
  have 1: "SI_Index YamlSI < length Order \<and>
    getSuccessor (BF_Block (bf S) B) (Order ! SI_Index YamlSI) = None \<longrightarrow>
      (passThrough (bf S) B (Order ! SI_Index YamlSI) = Some FT \<longrightarrow>
         getBranchInfo (BF_Block (bf S) FT) (Order ! SI_Index YamlSI) \<noteq> None \<and>
         getBranchInfo (BF_Block (bf (processSuccessor Op Order B YamlSI S)) FT) (Order ! SI_Index YamlSI)
           = map_option (addCounts (SI_Count YamlSI) (SI_Mispreds YamlSI))
               (getBranchInfo (BF_Block (bf S) FT) (Order ! SI_Index YamlSI)) \<and>
         getBranchInfo (BF_Block (bf S) B) FT \<noteq> None \<and>
         getBranchInfo (BF_Block (bf (processSuccessor Op Order B YamlSI S)) B) FT
           = map_option (addCounts (SI_Count YamlSI) (SI_Mispreds YamlSI))
               (getBranchInfo (BF_Block (bf S) B) FT) \<and>
         MismatchedEdges (processSuccessor Op Order B YamlSI S) = MismatchedEdges S) \<and>
      (passThrough (bf S) B (Order ! SI_Index YamlSI) = None \<longrightarrow>
         MismatchedEdges (processSuccessor Op Order B YamlSI S) = MismatchedEdges S + 1 \<and>
         bf (processSuccessor Op Order B YamlSI S) = bf S)"
  proof (intro conjI impI; elim conjE)
    assume r: "SI_Index YamlSI < length Order"
      and n: "getSuccessor (BF_Block (bf S) B) (Order ! SI_Index YamlSI) = None"
    {
      assume p: "passThrough (bf S) B (Order ! SI_Index YamlSI) = None"
      show "MismatchedEdges (processSuccessor Op Order B YamlSI S) = MismatchedEdges S + 1"
        and "bf (processSuccessor Op Order B YamlSI S) = bf S"
        by (simp_all add: processSuccessor_mismatch [OF r n p] mismatchedEdge_def)
    }
    {
      assume p: "passThrough (bf S) B (Order ! SI_Index YamlSI) = Some FT"
      note eq = processSuccessor_passThrough [OF r n p]
      note pt = passThrough_Some [OF p]
      show "getBranchInfo (BF_Block (bf S) FT) (Order ! SI_Index YamlSI) \<noteq> None" by (rule pt(4))
      show "getBranchInfo (BF_Block (bf S) B) FT \<noteq> None" by (rule pt(5))
      show "MismatchedEdges (processSuccessor Op Order B YamlSI S) = MismatchedEdges S"
        by (simp add: eq addBranchInfo_def)
      show "getBranchInfo (BF_Block (bf (processSuccessor Op Order B YamlSI S)) FT) (Order ! SI_Index YamlSI)
             = map_option (addCounts (SI_Count YamlSI) (SI_Mispreds YamlSI))
                 (getBranchInfo (BF_Block (bf S) FT) (Order ! SI_Index YamlSI))"
        using pt(3) by (simp add: eq addBranchInfo_def getBranchInfo_added)
      show "getBranchInfo (BF_Block (bf (processSuccessor Op Order B YamlSI S)) B) FT
             = map_option (addCounts (SI_Count YamlSI) (SI_Mispreds YamlSI))
                 (getBranchInfo (BF_Block (bf S) B) FT)"
        using pt(3) by (simp add: eq addBranchInfo_def getBranchInfo_added)
    }
  qed
  have 2: "\<not> isSample E R \<longrightarrow>
      getBranchInfo (BF_Block (bf (propagateBlocks E Op R YamlBF S)) X) Y =
        map_option
          (addCounts
             (credit (bf S) (blockOrder R (bf S)) (profiledEdges (blockOrder R (bf S)) YamlBF) (X, Y) SI_Count)
             (credit (bf S) (blockOrder R (bf S)) (profiledEdges (blockOrder R (bf S)) YamlBF) (X, Y) SI_Mispreds))
          (getBranchInfo (BF_Block (bf S) X) Y) \<and>
      MismatchedEdges (propagateBlocks E Op R YamlBF S) =
        MismatchedEdges S +
        of_nat (mismatchedEntries (bf S) (blockOrder R (bf S)) (profiledEdges (blockOrder R (bf S)) YamlBF))"
  proof
    assume "\<not> isSample E R"
    from propagateBlocks_credited [OF this, of S YamlBF Op]
    show "getBranchInfo (BF_Block (bf (propagateBlocks E Op R YamlBF S)) X) Y =
        map_option
          (addCounts
             (credit (bf S) (blockOrder R (bf S)) (profiledEdges (blockOrder R (bf S)) YamlBF) (X, Y) SI_Count)
             (credit (bf S) (blockOrder R (bf S)) (profiledEdges (blockOrder R (bf S)) YamlBF) (X, Y) SI_Mispreds))
          (getBranchInfo (BF_Block (bf S) X) Y) \<and>
      MismatchedEdges (propagateBlocks E Op R YamlBF S) =
        MismatchedEdges S +
        of_nat (mismatchedEntries (bf S) (blockOrder R (bf S)) (profiledEdges (blockOrder R (bf S)) YamlBF))"
      unfolding credited_def by blast
  qed
  from 1 2 parse_lbr_edges [of E R BF Op YamlBF Stats Errs X Y]
    parse_lbr_verdict [of E R BF Op YamlBF Stats Errs]
  show ?thesis by blast
qed

theorem passthrough_heuristic_witness:
  "SI_Index edge03 < length (BF_Layout fourBlockBF) \<and>
   getSuccessor (fourBlocks 0) 3 = None \<and>
   passThrough fourBlockBF 0 3 = Some 2 \<and>
   \<not> isSample Env0 (Reader0 1) \<and> \<not> BF_empty fourBlockBF \<and> \<not> InferStaleProfile Opts0 \<and>
   getBranchInfo (BF_Block (bf (processSuccessor Opts0 (BF_Layout fourBlockBF) 0 edge03 (startState fourBlockBF))) 2) 3
     = Some \<lparr>BI_Count = 70, BI_MispredictedCount = 2\<rparr> \<and>
   getBranchInfo (BF_Block (bf (processSuccessor Opts0 (BF_Layout fourBlockBF) 0 edge03 (startState fourBlockBF))) 0) 2
     = Some \<lparr>BI_Count = 70, BI_MispredictedCount = 2\<rparr> \<and>
   MismatchedEdges (processSuccessor Opts0 (BF_Layout fourBlockBF) 0 edge03 (startState fourBlockBF)) = 0 \<and>
   getBranchInfo (BF_Block (fst (snd (parseFunctionProfile Env0 Opts0 (Reader0 1) passThroughProfile
      (fourBlockBF, 0, [])))) 2) 3 = Some \<lparr>BI_Count = 70, BI_MispredictedCount = 2\<rparr> \<and>
   MismatchedEdges (propagateBlocks Env0 Opts0 (Reader0 1) passThroughProfile (startState fourBlockBF)) = 1 \<and>
   \<not> fst (parseFunctionProfile Env0 Opts0 (Reader0 1) passThroughProfile (fourBlockBF, 0, [])) \<and>
   getBranchInfo (BF_Block (fst (snd (parseFunctionProfile Env0 Opts0 (Reader0 1) passThroughProfile
      (fourBlockBF, 0, [])))) 0) 2 = Some \<lparr>BI_Count = 70, BI_MispredictedCount = 2\<rparr> \<and>
   getBranchInfo (BF_Block (fst (snd (parseFunctionProfile Env0 Opts0 (Reader0 1) passThroughProfile
      (fourBlockBF, 0, [])))) 0) 1 = Some \<lparr>BI_Count = 30, BI_MispredictedCount = 1\<rparr>"
proof -
  have y1: "getBranchInfo (BF_Block (fst (snd (parseFunctionProfile Env0 Opts0 (Reader0 1) passThroughProfile
      (fourBlockBF, 0, [])))) 0) 2 = Some \<lparr>BI_Count = 70, BI_MispredictedCount = 2\<rparr>"
    by code_simp
  have y2: "getBranchInfo (BF_Block (fst (snd (parseFunctionProfile Env0 Opts0 (Reader0 1) passThroughProfile
      (fourBlockBF, 0, [])))) 0) 1 = Some \<lparr>BI_Count = 30, BI_MispredictedCount = 1\<rparr>"
    by code_simp
  have l: "BF_Layout fourBlockBF ! 3 = 3" "SI_Index edge03 = 3" "SI_Count edge03 = 70"
    "SI_Mispreds edge03 = 2" by (simp_all add: fourBlockBF_def edge03_def)
  have b: "bf (startState fourBlockBF) = fourBlockBF" "BF_Block fourBlockBF = fourBlocks"
    "MismatchedEdges (startState fourBlockBF) = 0"
    by (simp_all add: startState_def fourBlockBF_def)
  have r: "SI_Index edge03 < length (BF_Layout fourBlockBF)" by (simp add: fourBlockBF_def edge03_def)
  have n: "getSuccessor (fourBlocks 0) 3 = None" by (simp add: getSuccessor_def fourBlocks_def)
  have p: "passThrough fourBlockBF 0 3 = Some 2"
    by (simp add: passThrough_def getConditionalSuccessor_def succ_size_def b fourBlocks_def noBlock_def)
  have g: "getBranchInfo (fourBlocks 2) 3 = Some noBranch" "getBranchInfo (fourBlocks 0) 2 = Some noBranch"
    by (simp_all add: getBranchInfo_def fourBlocks_def noBlock_def)
  have s: "\<not> isSample Env0 (Reader0 1)" by (simp add: isSample_def Env0_def Reader0_def)
  have e: "\<not> BF_empty fourBlockBF" by (simp add: BF_empty_def fourBlockBF_def)
  have i: "\<not> InferStaleProfile Opts0" by (simp add: Opts0_def)
  have c1: "credit fourBlockBF (blockOrder (Reader0 1) fourBlockBF)
      (profiledEdges (blockOrder (Reader0 1) fourBlockBF) passThroughProfile) (2, 3) SI_Count = 70"
    by code_simp
  have c2: "credit fourBlockBF (blockOrder (Reader0 1) fourBlockBF)
      (profiledEdges (blockOrder (Reader0 1) fourBlockBF) passThroughProfile) (2, 3) SI_Mispreds = 2"
    by code_simp
  have c3: "mismatchedEntries fourBlockBF (blockOrder (Reader0 1) fourBlockBF)
      (profiledEdges (blockOrder (Reader0 1) fourBlockBF) passThroughProfile) = 1"
    by code_simp
  note c = c1 c2 c3
  have n': "getSuccessor (BF_Block (bf (startState fourBlockBF)) 0) (BF_Layout fourBlockBF ! SI_Index edge03) = None"
    using n by (simp add: b l)
  from passthrough_heuristic [where YamlSI = edge03 and Order = "BF_Layout fourBlockBF"
      and S = "startState fourBlockBF" and B = 0 and FT = 2 and Op = Opts0 and E = Env0
      and R = "Reader0 1" and YamlBF = passThroughProfile and BF = fourBlockBF and X = 2 and Y = 3
      and Stats = 0 and Errs = "[]"] r n' n p g s e i
  show ?thesis using y1 y2 by (simp add: b l c addCounts_def noBranch_def)
qed

subsection \<open>Searching strings\<close>

lemma starts_with_iff: "starts_with S Str = (\<exists>Post. S = Str @ Post)"
  by (induction S Str rule: starts_with.induct) auto

lemma find_str_iff: "(find_str S Str \<noteq> None) = (\<exists>Pre Post. S = Pre @ Str @ Post)"
proof (induction S)
  case Nil
  then show ?case by simp
next
  case (Cons x S)
  show ?case
  proof (cases "starts_with (x # S) Str")
    case True
    then obtain Post where "x # S = [] @ Str @ Post" by (auto simp add: starts_with_iff)
    then have "\<exists>Pre Post. x # S = Pre @ Str @ Post" by blast
    with True show ?thesis by simp
  next
    case False
    have "(\<exists>Pre Post. x # S = Pre @ Str @ Post) = (\<exists>Pre Post. S = Pre @ Str @ Post)"
    proof
      assume "\<exists>Pre Post. x # S = Pre @ Str @ Post"
      then obtain Pre Post where e: "x # S = Pre @ Str @ Post" by blast
      show "\<exists>Pre Post. S = Pre @ Str @ Post"
      proof (cases Pre)
        case Nil
        with e False show ?thesis by (simp add: starts_with_iff)
      next
        case (Cons y Pre')
        with e have "S = Pre' @ Str @ Post" by simp
        then show ?thesis by blast
      qed
    next
      assume "\<exists>Pre Post. S = Pre @ Str @ Post"
      then obtain Pre Post where "S = Pre @ Str @ Post" by blast
      then have "x # S = (x # Pre) @ Str @ Post" by simp
      then show "\<exists>Pre Post. x # S = Pre @ Str @ Post" by blast
    qed
    with False Cons.IH show ?thesis by simp
  qed
qed

lemma find_str_None: "(find_str S Str = None) = (\<not> (\<exists>Pre Post. S = Pre @ Str @ Post))"
  using find_str_iff [of S Str] by blast

lemma find_char_iff: "(find_str S [c] = None) = (c \<notin> set S)"
  by (simp only: find_str_None) (auto simp add: in_set_conv_decomp)

subsection \<open>Claim C2: the errors of preprocessProfile\<close>

text \<open>
  Claim C2. \<open>preprocessProfile\<close> returns an error exactly when the file cannot be
  opened or, for a file that was opened, the loader reports a syntax error, the header
  version is not 1, or the event names contain a comma. When it returns an error, the
  name maps (\<open>ProfileFunctionNames\<close>, \<open>ProfileBFs\<close> and the two LTO maps) and the
  whole binary context, execution counts included, are as they were.
\<close>

theorem preprocessProfile_error_iff:
  "(fst (preprocessProfile E Op MB W) \<noteq> None) =
     (case MB of Inl EC \<Rightarrow> True | Inr Buffer \<Rightarrow> hasSyntaxOrHeaderError E Buffer) \<and>
   (fst (preprocessProfile E Op MB W) \<noteq> None \<longrightarrow>
      ProfileFunctionNames (W_Reader (snd (preprocessProfile E Op MB W))) = ProfileFunctionNames (W_Reader W) \<and>
      ProfileBFs (W_Reader (snd (preprocessProfile E Op MB W))) = ProfileBFs (W_Reader W) \<and>
      LTOCommonNameMap (W_Reader (snd (preprocessProfile E Op MB W))) = LTOCommonNameMap (W_Reader W) \<and>
      LTOCommonNameFunctionMap (W_Reader (snd (preprocessProfile E Op MB W)))
        = LTOCommonNameFunctionMap (W_Reader W) \<and>
      W_BC (snd (preprocessProfile E Op MB W)) = W_BC W)"
proof (cases MB)
  case (Inl EC)
  then show ?thesis by (simp add: preprocessProfile_def)
next
  case (Inr Buffer)
  obtain Doc YamlError where y: "yamlInput E Buffer = (Doc, YamlError)" by (cases "yamlInput E Buffer")
  show ?thesis
  proof (cases YamlError)
    case (Some EC)
    with Inr y show ?thesis by (simp add: preprocessProfile_def hasSyntaxOrHeaderError_def)
  next
    case None
    with Inr y show ?thesis
      by (simp add: preprocessProfile_def hasSyntaxOrHeaderError_def Header_def find_char_iff Let_def)
  qed
qed

theorem preprocessProfile_error_iff_witness:
  "fst (preprocessProfile Env0 Opts0 (Inl 2) World0) \<noteq> None \<and>
   ProfileBFs (W_Reader (snd (preprocessProfile Env0 Opts0 (Inl 2) World0))) = [] \<and>
   W_BC (snd (preprocessProfile Env0 Opts0 (Inl 2) World0)) = Context0 \<and>
   fst (preprocessProfile Env0 Opts0 (Inr ''---'') World0) = None"
proof -
  have "\<not> hasSyntaxOrHeaderError Env0 ''---''"
    by (simp add: hasSyntaxOrHeaderError_def Env0_def)
  with preprocessProfile_error_iff [of Env0 Opts0 "Inl 2" World0]
    preprocessProfile_error_iff [of Env0 Opts0 "Inr ''---''" World0]
  show ?thesis by (simp add: World0_def Reader0_def)
qed

subsection \<open>Readers under claims\<close>

lemma fold_inv: "(\<And>x W. P W \<Longrightarrow> P (f x W)) \<Longrightarrow> P W \<Longrightarrow> P (fold f xs W)"
  by (induction xs arbitrary: W) simp_all

lemma claims_trans: "claims g R' R'' \<Longrightarrow> claims g R R' \<Longrightarrow> claims g R R''"
  by (induction rule: claims.induct) (auto intro: claims.intros)

lemma claims_weaken: "claims g0 R R' \<Longrightarrow> g0 \<Longrightarrow> claims g R R'"
  by (induction rule: claims.induct) (auto intro: claims.intros)

lemma sameButUsed_refl: "sameButUsed Fs Fs"
  by (simp add: sameButUsed_def)

lemma sameButUsed_update:
  "sameButUsed Fs' Fs \<Longrightarrow> sameButUsed (Fs'[I := (Fs' ! I)\<lparr>YBF_Used := True\<rparr>]) Fs"
proof -
  assume a: "sameButUsed Fs' Fs"
  then have l: "length Fs' = length Fs"
    using map_eq_imp_length_eq by (auto simp add: sameButUsed_def)
  have "map (\<lambda>F. F\<lparr>YBF_Used := False\<rparr>) (Fs'[I := (Fs' ! I)\<lparr>YBF_Used := True\<rparr>])
        = (map (\<lambda>F. F\<lparr>YBF_Used := False\<rparr>) Fs')[I := (Fs' ! I)\<lparr>YBF_Used := False\<rparr>]"
    by (simp add: map_update)
  also have "\<dots> = map (\<lambda>F. F\<lparr>YBF_Used := False\<rparr>) Fs'"
    by (cases "I < length Fs'") (simp_all add: list_update_same_conv list_update_beyond)
  finally have m: "map (\<lambda>F. F\<lparr>YBF_Used := False\<rparr>) (Fs'[I := (Fs' ! I)\<lparr>YBF_Used := True\<rparr>])
        = map (\<lambda>F. F\<lparr>YBF_Used := False\<rparr>) Fs" using a by (simp add: sameButUsed_def)
  have "YBF_Used (Fs'[I := (Fs' ! I)\<lparr>YBF_Used := True\<rparr>] ! J)" if "J < length Fs" "YBF_Used (Fs ! J)" for J
  proof (cases "J = I")
    case True
    with that l show ?thesis by simp
  next
    case False
    with that a show ?thesis by (simp add: sameButUsed_def)
  qed
  with m show ?thesis by (simp add: sameButUsed_def)
qed

lemma claims_frame:
  assumes "claims g R R'"
  shows "YamlBP_Header (YamlBP R') = YamlBP_Header (YamlBP R)"
    and "ProfileBFs R' = ProfileBFs R"
    and "LTOCommonNameMap R' = LTOCommonNameMap R"
    and "LTOCommonNameFunctionMap R' = LTOCommonNameFunctionMap R"
    and "sameButUsed (YamlBP_Functions (YamlBP R')) (YamlBP_Functions (YamlBP R))"
    and "ProfiledFunctions R \<subseteq> ProfiledFunctions R'"
  using assms
proof (induction rule: claims.induct)
  case (same g R)
  {
    case 1 show ?case by simp
  next
    case 2 show ?case by simp
  next
    case 3 show ?case by simp
  next
    case 4 show ?case by simp
  next
    case 5 show ?case by (rule sameButUsed_refl)
  next
    case 6 show ?case by simp
  }
next
  case (more g R R' BF I)
  {
    case 1 with more show ?case by (simp add: matchProfileToFunction_def Let_def)
  next
    case 2 with more show ?case by (simp add: matchProfileToFunction_def Let_def)
  next
    case 3 with more show ?case by (simp add: matchProfileToFunction_def Let_def)
  next
    case 4 with more show ?case by (simp add: matchProfileToFunction_def Let_def)
  next
    case 5 with more show ?case by (simp add: matchProfileToFunction_def Let_def sameButUsed_update)
  next
    case 6 with more show ?case by (auto simp add: matchProfileToFunction_def Let_def)
  }
qed

lemma W_Reader_simps [simp]:
  "W_Reader (warnW Op l Wn W) = W_Reader W"
  "W_Reader (updFunction BF f W) = W_Reader W"
  "W_Reader (setExecutionCount BF Cnt W) = W_Reader W"
  "W_Reader (computeHashOf E BF W) = W_Reader W"
  "W_Reader (claim I BF W) = matchProfileToFunction I BF (W_Reader W)"
  by (simp_all add: warnW_def updFunction_def setExecutionCount_def computeHashOf_def claim_def)

lemma fold_claims:
  assumes "\<And>x W. claims g (W_Reader W) (W_Reader (f x W))"
  shows "claims g (W_Reader W) (W_Reader (fold f xs W))"
proof (induction xs arbitrary: W)
  case Nil
  show ?case by (simp add: claims.same)
next
  case (Cons x xs)
  show ?case using Cons.IH [of "f x W"] assms [of W x] by (simp add: claims_trans)
qed

lemma claim_claims:
  "\<not> isProfiled W BF \<Longrightarrow> claims g (W_Reader W) (matchProfileToFunction I BF (W_Reader W))"
  by (simp add: isProfiled_def claims.more [OF claims.same])

lemma matchExact_claims:
  assumes "\<And>BF. ProfileBFs (W_Reader W) ! I = Some BF \<Longrightarrow> g \<Longrightarrow> \<not> isProfiled W BF"
  shows "claims g (W_Reader W) (W_Reader (matchExact E Op I W))"
proof (cases "ProfileBFs (W_Reader W) ! I")
  case None
  then show ?thesis by (simp add: matchExact_def claims.same)
next
  case (Some BF)
  have "claims g (W_Reader W) (matchProfileToFunction I BF (W_Reader W))"
    using assms [OF Some] by (simp add: isProfiled_def claims.more [OF claims.same])
  with Some show ?thesis by (simp add: matchExact_def Let_def claims.same)
qed

lemma matchHash_claims: "claims g (W_Reader W) (W_Reader (matchHash T I W))"
  by (simp add: matchHash_def claims.same claim_claims split: option.splits)

lemma matchProfile_claims: "claims g (W_Reader W) (W_Reader (snd (matchProfile Op Fns I W)))"
  by (auto simp add: matchProfile_def claims.same claim_claims find_Some_iff split: option.splits)

lemma any_of_claims: "claims g (W_Reader W) (W_Reader (snd (any_of (matchProfile Op Fns) Is W)))"
proof (induction Is arbitrary: W)
  case Nil
  show ?case by (simp add: claims.same)
next
  case (Cons I Is)
  obtain b W' where p: "matchProfile Op Fns I W = (b, W')" by (cases "matchProfile Op Fns I W")
  then have c: "claims g (W_Reader W) (W_Reader W')"
    using matchProfile_claims [of g W Op Fns I] by simp
  show ?case
  proof (cases b)
    case True
    with p c show ?thesis by simp
  next
    case False
    with p c Cons.IH [of W'] show ?thesis by (simp add: claims_trans)
  qed
qed

lemma matchLTO_claims: "claims g (W_Reader W) (W_Reader (matchLTO E Op P W))"
proof (cases P)
  case (Pair CommonName LTOProfiles)
  show ?thesis
  proof (cases "map_of (LTOCommonNameFunctionMap (W_Reader W)) CommonName")
    case None
    with Pair show ?thesis by (simp add: matchLTO_def claims.same)
  next
    case (Some FnSet)
    obtain b W1 where a: "any_of (matchProfile Op (UnorderedSetOrder E FnSet)) LTOProfiles W = (b, W1)"
      by (cases "any_of (matchProfile Op (UnorderedSetOrder E FnSet)) LTOProfiles W")
    then have c: "claims g (W_Reader W) (W_Reader W1)"
      using any_of_claims [of g W Op "UnorderedSetOrder E FnSet" LTOProfiles] by simp
    have "claims g (W_Reader W) (matchProfileToFunction I BF (W_Reader W1))" if "\<not> isProfiled W1 BF" for I BF
      using claim_claims [of W1 BF g I] that c by (simp add: claims_trans)
    with Pair Some a c show ?thesis by (simp add: matchLTO_def Let_def)
  qed
qed

lemma matchResidual_claims: "claims g (W_Reader W) (W_Reader (matchResidual I W))"
  by (simp add: matchResidual_def claims.same claim_claims split: option.splits)

lemma closerName_unprofiled:
  "fold (closerName E W YamlBF N) BFs (m, c) = (m', Some BF) \<Longrightarrow> c = Some BF \<or> \<not> isProfiled W BF"
proof (induction BFs arbitrary: m c)
  case Nil
  then show ?case by simp
next
  case (Cons B BFs)
  obtain m1 c1 where s: "closerName E W YamlBF N B (m, c) = (m1, c1)"
    by (cases "closerName E W YamlBF N B (m, c)")
  with Cons.prems have "fold (closerName E W YamlBF N) BFs (m1, c1) = (m', Some BF)" by simp
  from Cons.IH [OF this] have "c1 = Some BF \<or> \<not> isProfiled W BF" .
  moreover from s have "c1 = c \<or> (c1 = Some B \<and> \<not> isProfiled W B)"
    by (auto simp add: closerName_def Let_def split: if_splits)
  ultimately show ?case by auto
qed

lemma matchSimilar_claims: "claims g (W_Reader W) (W_Reader (matchSimilar E Op Ns Nss T I W))"
proof -
  have "\<not> isProfiled W BF" if "fold (closerName E W (Functions W ! I) (Ns ! I)) BFs (- 1, None) = (m, Some BF)"
    for BFs m BF
    using closerName_unprofiled [OF that] by simp
  then show ?thesis
    by (auto simp add: matchSimilar_def claims.same claim_claims split: option.splits prod.splits)
qed

lemma W_Reader_fold_same:
  "(\<And>x W. W_Reader (f x W) = W_Reader W) \<Longrightarrow> W_Reader (fold f xs W) = W_Reader W"
  by (rule fold_keeps)

lemma computeHashes_Reader [simp]: "W_Reader (computeHashes E Op W) = W_Reader W"
  by (simp add: computeHashes_def W_Reader_fold_same split: option.splits)

lemma stageHash_claims: "claims g (W_Reader W) (W_Reader (stageHash Op W))"
  by (simp add: stageHash_def claims.same fold_claims matchHash_claims)

lemma stageLTO_claims: "claims g (W_Reader W) (W_Reader (stageLTO E Op W))"
  by (simp add: stageLTO_def fold_claims matchLTO_claims)

lemma stageResidual_claims: "claims g (W_Reader W) (W_Reader (stageResidual W))"
  by (simp add: stageResidual_def fold_claims matchResidual_claims)

lemma stageSimilarity_claims: "claims g (W_Reader W) (W_Reader (stageSimilarity E Op W))"
proof -
  have "claims g (W_Reader (W\<lparr>MatchedWithNameSimilarity := 0\<rparr>))
     (W_Reader (fold (matchSimilar E Op Ns Nss T) Is (W\<lparr>MatchedWithNameSimilarity := 0\<rparr>)))" for Ns Nss T Is
    by (rule fold_claims) (rule matchSimilar_claims)
  then show ?thesis
    by (simp add: stageSimilarity_def matchWithNameSimilarity_def claims.same)
qed

lemma stageExact_claims_any: "claims False (W_Reader W) (W_Reader (stageExact E Op W))"
  by (simp add: stageExact_def fold_claims matchExact_claims)

lemma later_stages_claims:
  "claims g (W_Reader W) (W_Reader (stageSimilarity E Op (stageResidual (stageLTO E Op (stageHash Op W)))))"
  using stageHash_claims [of g W Op]
    stageLTO_claims [of g "stageHash Op W" E Op]
    stageResidual_claims [of g "stageLTO E Op (stageHash Op W)"]
    stageSimilarity_claims [of g "stageResidual (stageLTO E Op (stageHash Op W))" E Op]
  by (meson claims_trans)

lemma matchProfiles_claims_any:
  "claims False (W_Reader (startMatching W)) (W_Reader (matchProfiles E Op W))"
  using stageExact_claims_any [of "computeHashes E Op (startMatching W)" E Op]
    later_stages_claims [of False "stageExact E Op (computeHashes E Op (startMatching W))" E Op]
  by (simp add: matchProfiles_def) (meson claims_trans)

lemma warnIgnored_Reader [simp]: "W_Reader (warnIgnored Op W) = W_Reader W"
  by (simp add: warnIgnored_def W_Reader_fold_same)

lemma propagateRecord_Reader: "W_Reader (fst (propagateRecord E Op Y P)) = W_Reader (fst P)"
  by (cases P) (simp add: propagateRecord_def split: option.splits prod.splits)

lemma propagateProfiles_Reader [simp]: "W_Reader (propagateProfiles E Op W) = W_Reader W"
proof -
  have "W_Reader (fst (fold (propagateRecord E Op) Ys P)) = W_Reader (fst P)" for Ys P
    by (rule fold_keeps [where g = "\<lambda>P. W_Reader (fst P)"]) (rule propagateRecord_Reader)
  from this [of "Functions W" "(W, 0)"] show ?thesis
    by (cases "fold (propagateRecord E Op) (Functions W) (W, 0)") (simp add: propagateProfiles_def)
qed

lemma ignoreUnprofiled_Reader [simp]: "W_Reader (ignoreUnprofiled E Op W) = W_Reader W"
  by (simp add: ignoreUnprofiled_def W_Reader_fold_same)

lemma readProfile_Reader:
  "W_Reader (readProfile E Op W) = W_Reader (setNormalizers (matchProfiles E Op W))"
  by (simp add: readProfile_def setNormalizers_def)

lemma matchProfiles_Header: "Header (matchProfiles E Op W) = Header W"
  using claims_frame(1) [OF matchProfiles_claims_any [of W E Op]]
  by (simp add: Header_def startMatching_def Let_def)

subsection \<open>Claim C10: usesEvent searches for a substring\<close>

text \<open>
  Claim C10. \<open>usesEvent Name\<close> holds exactly when \<open>Name\<close> occurs somewhere in the
  header's event names, as a substring. So after \<open>readProfile\<close> the flag
  \<open>NormalizeByInsnCount\<close> is set exactly when \<open>cycles\<close> or \<open>instructions\<close>
  occurs in the event names, and \<open>NormalizeByCalls\<close> exactly when \<open>branches\<close>
  does; the event name \<open>cpu-cycles:u\<close>, for one, uses the event \<open>cycles\<close>.
\<close>

theorem usesEvent_is_substring_search:
  "usesEvent R Name = occursIn Name (Hdr_EventNames (YamlBP_Header (YamlBP R))) \<and>
   NormalizeByInsnCount (W_Reader (readProfile E Op W)) =
     (occursIn ''cycles'' (Hdr_EventNames (Header W)) \<or>
      occursIn ''instructions'' (Hdr_EventNames (Header W))) \<and>
   NormalizeByCalls (W_Reader (readProfile E Op W)) = occursIn ''branches'' (Hdr_EventNames (Header W)) \<and>
   usesEvent ((W_Reader W)\<lparr>YamlBP := (YamlBP (W_Reader W))\<lparr>YamlBP_Header :=
       (Header W)\<lparr>Hdr_EventNames := ''cpu-cycles:u''\<rparr>\<rparr>\<rparr>) ''cycles''"
proof -
  have u: "usesEvent R N = occursIn N (Hdr_EventNames (YamlBP_Header (YamlBP R)))" for R N
    by (simp only: usesEvent_def find_str_iff occursIn_def)
  have h: "YamlBP_Header (YamlBP (W_Reader (matchProfiles E Op W))) = Header W"
    using matchProfiles_Header [of E Op W] by (simp add: Header_def)
  have "''cpu-cycles:u'' = ''cpu-'' @ ''cycles'' @ '':u''" by simp
  then have "occursIn ''cycles'' ''cpu-cycles:u''" unfolding occursIn_def by blast
  then show ?thesis
    by (simp add: readProfile_Reader setNormalizers_def u h)
qed

subsection \<open>The first pass\<close>

lemma getFunction_simps [simp]:
  "getFunction (warnW Op l Wn W) b = getFunction W b"
  "getFunction (claim I BF W) b = getFunction W b"
  "getFunction (W\<lparr>MatchedWithExactName := n\<rparr>) b = getFunction W b"
  by (simp_all add: getFunction_def warnW_def claim_def)

lemma sameButUsed_length: "sameButUsed Fs' Fs \<Longrightarrow> length Fs' = length Fs"
  using map_eq_imp_length_eq by (auto simp add: sameButUsed_def)

lemma sameButUsed_nth:
  assumes "sameButUsed Fs' Fs" "I < length Fs"
  shows "YBF_Hash (Fs' ! I) = YBF_Hash (Fs ! I)"
    and "YBF_NumBasicBlocks (Fs' ! I) = YBF_NumBasicBlocks (Fs ! I)"
    and "YBF_Id (Fs' ! I) = YBF_Id (Fs ! I)"
    and "YBF_Used (Fs ! I) \<Longrightarrow> YBF_Used (Fs' ! I)"
proof -
  from assms have l: "I < length Fs'" by (simp add: sameButUsed_length)
  from assms have "map (\<lambda>F. F\<lparr>YBF_Used := False\<rparr>) Fs' ! I = map (\<lambda>F. F\<lparr>YBF_Used := False\<rparr>) Fs ! I"
    by (simp add: sameButUsed_def)
  with l assms(2) have e: "(Fs' ! I)\<lparr>YBF_Used := False\<rparr> = (Fs ! I)\<lparr>YBF_Used := False\<rparr>" by simp
  from arg_cong [OF e, of YBF_Hash] show "YBF_Hash (Fs' ! I) = YBF_Hash (Fs ! I)" by simp
  from arg_cong [OF e, of YBF_NumBasicBlocks]
  show "YBF_NumBasicBlocks (Fs' ! I) = YBF_NumBasicBlocks (Fs ! I)" by simp
  from arg_cong [OF e, of YBF_Id] show "YBF_Id (Fs' ! I) = YBF_Id (Fs ! I)" by simp
  from assms show "YBF_Used (Fs ! I) \<Longrightarrow> YBF_Used (Fs' ! I)" by (simp add: sameButUsed_def)
qed

lemma claims_isUsed:
  assumes "claims g (W_Reader W) (W_Reader W')" "I < length (Functions W)" "isUsed W I"
  shows "isUsed W' I"
  using sameButUsed_nth(4) [OF claims_frame(5) [OF assms(1)]] assms(2,3)
  by (simp add: isUsed_def Functions_def)

lemma setExecutionCount_shape:
  "BF_Hash (getFunction (setExecutionCount BF Cnt W) b) = BF_Hash (getFunction W b)"
  "BF_size (getFunction (setExecutionCount BF Cnt W) b) = BF_size (getFunction W b)"
  by (simp_all add: setExecutionCount_def updFunction_def getFunction_def BF_size_def)

lemma matchExact_sameShapes: "sameShapes (matchExact E Op J W) W"
  by (simp add: sameShapes_def matchExact_def Let_def setExecutionCount_shape split: option.splits)

lemma fold_matchExact_keeps:
  "claims False (W_Reader W) (W_Reader (fold (matchExact E Op) Is W)) \<and>
   sameShapes (fold (matchExact E Op) Is W) W"
proof (induction Is arbitrary: W)
  case Nil
  show ?case by (simp add: claims.same sameShapes_def)
next
  case (Cons J Is)
  have c: "claims False (W_Reader W) (W_Reader (matchExact E Op J W))"
    by (rule matchExact_claims) simp
  from Cons.IH [of "matchExact E Op J W"] c matchExact_sameShapes [of E Op J W]
  show ?case by (auto simp add: sameShapes_def intro: claims_trans)
qed

lemma profileMatches_cong:
  assumes "claims g (W_Reader W) (W_Reader W')" "sameShapes W' W" "I < length (Functions W)"
  shows "profileMatches Op (Functions W' ! I) (getFunction W' BF) =
         profileMatches Op (Functions W ! I) (getFunction W BF)"
  using sameButUsed_nth(1,2) [OF claims_frame(5) [OF assms(1)], of I] assms(2,3)
  by (simp add: profileMatches_def Functions_def sameShapes_def)

lemma matchExact_claimed:
  assumes i: "I < length (Functions W)"
    and s: "ProfileBFs (W_Reader W) ! I = Some BF"
    and m: "profileMatches Op (Functions W ! I) (getFunction W BF)"
  shows "matchExact E Op I W =
     (claim I BF (setExecutionCount BF (BF_COUNT_NO_PROFILE E) W))
       \<lparr>MatchedWithExactName := MatchedWithExactName W + 1\<rparr>"
proof -
  let ?W1 = "setExecutionCount BF (BF_COUNT_NO_PROFILE E) W"
  have "profileMatches Op (Functions ?W1 ! I) (getFunction ?W1 BF)"
    using m by (simp add: profileMatches_def Functions_def setExecutionCount_shape)
  moreover have "MatchedWithExactName ?W1 = MatchedWithExactName W"
    by (simp add: setExecutionCount_def updFunction_def)
  ultimately show ?thesis using s by (simp add: matchExact_def Let_def)
qed

lemma claim_isUsed: "I < length (Functions W) \<Longrightarrow> isUsed (claim I BF W) I"
  by (simp add: isUsed_def Functions_def claim_def matchProfileToFunction_def Let_def)

lemma stageExact_isUsed:
  assumes i: "I < length (Functions W)" and i': "I < length (ProfileBFs (W_Reader W))"
    and s: "ProfileBFs (W_Reader W) ! I = Some BF"
    and m: "profileMatches Op (Functions W ! I) (getFunction W BF)"
  shows "isUsed (stageExact E Op W) I"
    and "claims False (W_Reader W) (W_Reader (stageExact E Op W))"
proof -
  let ?n = "min (length (Functions W)) (length (ProfileBFs (W_Reader W)))"
  let ?Wa = "fold (matchExact E Op) [0..<I] W"
  let ?Wb = "matchExact E Op I ?Wa"
  from i i' have "I < ?n" by simp
  then have "[0..<?n] = [0..<I] @ I # [Suc I..<?n]"
    by (metis le_add1 less_imp_add_positive upt_add_eq_append upt_conv_Cons zero_le)
  then have e: "stageExact E Op W = fold (matchExact E Op) [Suc I..<?n] ?Wb"
    by (simp add: stageExact_def pairedIndices_def)
  note k = fold_matchExact_keeps [of W E Op "[0..<I]"]
  from k have ca: "claims False (W_Reader W) (W_Reader ?Wa)" and sa: "sameShapes ?Wa W" by simp_all
  have la: "I < length (Functions ?Wa)"
    using sameButUsed_length [OF claims_frame(5) [OF ca]] i by (simp add: Functions_def)
  have pa: "ProfileBFs (W_Reader ?Wa) ! I = Some BF" using claims_frame(2) [OF ca] s by simp
  have ma: "profileMatches Op (Functions ?Wa ! I) (getFunction ?Wa BF)"
    using profileMatches_cong [OF ca sa i] m by simp
  have ub: "isUsed ?Wb I"
    using la by (simp add: matchExact_claimed [OF la pa ma] isUsed_def Functions_def
        matchProfileToFunction_def Let_def)
  have lb: "I < length (Functions ?Wb)"
    using sameButUsed_length [OF claims_frame(5) [OF matchExact_claims [of ?Wa I False E Op]]] la
    by (simp add: Functions_def)
  have cb: "claims False (W_Reader ?Wb) (W_Reader (fold (matchExact E Op) [Suc I..<?n] ?Wb))"
    using fold_matchExact_keeps [of ?Wb E Op "[Suc I..<?n]"] by simp
  show "isUsed (stageExact E Op W) I"
    unfolding e by (rule claims_isUsed [OF cb lb ub])
  show "claims False (W_Reader W) (W_Reader (stageExact E Op W))"
    by (rule stageExact_claims_any)
qed

subsection \<open>The counters of the first two stages\<close>

lemma counters_simps [simp]:
  "counters (warnW Op l Wn W) = counters W"
  "counters (updFunction BF f W) = counters W"
  "counters (setExecutionCount BF Cnt W) = counters W"
  "counters (computeHashOf E BF W) = counters W"
  "counters (claim I BF W) = counters W"
  "counters (W\<lparr>MatchedWithLTOCommonName := n\<rparr>) = counters W"
  "counters (W\<lparr>MatchedWithNameSimilarity := n\<rparr>) = counters W"
  "counters (W\<lparr>W_BC := c\<rparr>) = counters W"
  "counters (W\<lparr>W_errs := e\<rparr>) = counters W"
  "counters (W\<lparr>W_Reader := r\<rparr>) = counters W"
  by (simp_all add: counters_def warnW_def updFunction_def setExecutionCount_def computeHashOf_def claim_def)

lemma computeHashes_counters: "counters (computeHashes E Op W) = counters W"
  by (simp add: computeHashes_def fold_keeps [where g = counters] split: option.splits)

lemma matchProfile_counters: "counters (snd (matchProfile Op Fns I W)) = counters W"
  by (simp add: matchProfile_def split: option.splits)

lemma any_of_counters: "counters (snd (any_of (matchProfile Op Fns) Is W)) = counters W"
proof (induction Is arbitrary: W)
  case Nil
  show ?case by simp
next
  case (Cons I Is)
  obtain b W' where p: "matchProfile Op Fns I W = (b, W')" by (cases "matchProfile Op Fns I W")
  then have c: "counters W' = counters W" using matchProfile_counters [of Op Fns I W] by simp
  show ?case using p c Cons.IH [of W'] by (cases b) simp_all
qed

lemma matchLTO_counters: "counters (matchLTO E Op P W) = counters W"
proof (cases P)
  case (Pair CommonName LTOProfiles)
  show ?thesis
  proof (cases "map_of (LTOCommonNameFunctionMap (W_Reader W)) CommonName")
    case None
    with Pair show ?thesis by (simp add: matchLTO_def)
  next
    case (Some FnSet)
    obtain b W1 where a: "any_of (matchProfile Op (UnorderedSetOrder E FnSet)) LTOProfiles W = (b, W1)"
      by (cases "any_of (matchProfile Op (UnorderedSetOrder E FnSet)) LTOProfiles W")
    then have c: "counters W1 = counters W"
      using any_of_counters [of Op "UnorderedSetOrder E FnSet" LTOProfiles W] by simp
    with Pair Some a show ?thesis by (simp add: matchLTO_def Let_def)
  qed
qed

lemma stageLTO_counters: "counters (stageLTO E Op W) = counters W"
  by (simp add: stageLTO_def fold_keeps [where g = counters] matchLTO_counters)

lemma matchResidual_counters: "counters (matchResidual I W) = counters W"
  by (simp add: matchResidual_def split: option.splits)

lemma stageResidual_counters: "counters (stageResidual W) = counters W"
  by (simp add: stageResidual_def fold_keeps [where g = counters] matchResidual_counters)

lemma matchSimilar_counters: "counters (matchSimilar E Op Ns Nss T I W) = counters W"
  by (simp add: matchSimilar_def split: option.splits prod.splits)

lemma stageSimilarity_counters: "counters (stageSimilarity E Op W) = counters W"
  by (simp add: stageSimilarity_def matchWithNameSimilarity_def fold_keeps [where g = counters]
      matchSimilar_counters)

lemma warnIgnored_counters: "counters (warnIgnored Op W) = counters W"
  by (simp add: warnIgnored_def fold_keeps [where g = counters])

lemma propagateRecord_counters: "counters (fst (propagateRecord E Op Y P)) = counters (fst P)"
  by (cases P) (simp add: propagateRecord_def split: option.splits prod.splits)

lemma propagateProfiles_counters: "counters (propagateProfiles E Op W) = counters W"
proof -
  have "counters (fst (fold (propagateRecord E Op) Ys P)) = counters (fst P)" for Ys P
    by (rule fold_keeps [where g = "\<lambda>P. counters (fst P)"]) (rule propagateRecord_counters)
  from this [of "Functions W" "(W, 0)"] show ?thesis
    by (cases "fold (propagateRecord E Op) (Functions W) (W, 0)") (simp add: propagateProfiles_def)
qed

lemma ignoreUnprofiled_counters: "counters (ignoreUnprofiled E Op W) = counters W"
  by (simp add: ignoreUnprofiled_def fold_keeps [where g = counters])

lemma readProfile_counters: "counters (readProfile E Op W) = counters (matchProfiles E Op W)"
  by (simp add: readProfile_def ignoreUnprofiled_counters propagateProfiles_counters
      warnIgnored_counters setNormalizers_def)

lemma claims_length:
  "claims g (W_Reader W) (W_Reader W') \<Longrightarrow> length (Functions W') = length (Functions W)"
  using sameButUsed_length [OF claims_frame(5)] by (simp add: Functions_def)

lemma matchesByName_cong:
  assumes "claims g (W_Reader W) (W_Reader W')" "sameShapes W' W" "I < length (Functions W)"
  shows "matchesByName Op W' I = matchesByName Op W I"
  using profileMatches_cong [OF assms] claims_frame(2) [OF assms(1)]
  by (simp add: matchesByName_def split: option.splits)

lemma matchExact_counters:
  "counters (matchExact E Op I W) =
     (MatchedWithExactName W + (if matchesByName Op W I then 1 else 0), MatchedWithHash W)"
proof (cases "ProfileBFs (W_Reader W) ! I")
  case None
  then show ?thesis by (simp add: matchExact_def matchesByName_def counters_def)
next
  case (Some BF)
  let ?W1 = "setExecutionCount BF (BF_COUNT_NO_PROFILE E) W"
  have p: "profileMatches Op (Functions ?W1 ! I) (getFunction ?W1 BF) =
           profileMatches Op (Functions W ! I) (getFunction W BF)"
    by (simp add: profileMatches_def Functions_def setExecutionCount_shape)
  have c: "MatchedWithExactName ?W1 = MatchedWithExactName W" "MatchedWithHash ?W1 = MatchedWithHash W"
    by (simp_all add: setExecutionCount_def updFunction_def)
  show ?thesis
    using Some by (simp add: matchExact_def matchesByName_def Let_def p counters_def c claim_def)
qed

lemma length_filter_mono:
  "(\<And>x. x \<in> set xs \<Longrightarrow> P x \<Longrightarrow> Q x) \<Longrightarrow> length (filter P xs) \<le> length (filter Q xs)"
  by (induction xs) auto

lemma filter_upt_min: "filter (\<lambda>I. I < n \<and> P I) [0..<m] = filter P [0..<min m n]"
proof (induction m)
  case 0
  show ?case by simp
next
  case (Suc m)
  show ?case
  proof (cases "m < n")
    case True
    then have "min (Suc m) n = Suc m" "min m n = m" by simp_all
    with Suc True show ?thesis by simp
  next
    case False
    then have "min (Suc m) n = n" "min m n = n" by simp_all
    with Suc False show ?thesis by simp
  qed
qed

lemma fold_matchExact_count:
  assumes "\<And>I. I \<in> set Is \<Longrightarrow> I < length (Functions W)"
  shows "counters (fold (matchExact E Op) Is W) =
     (MatchedWithExactName W + of_nat (length (filter (matchesByName Op W) Is)), MatchedWithHash W)"
  using assms
proof (induction Is arbitrary: W)
  case Nil
  show ?case by (simp add: counters_def)
next
  case (Cons J Is)
  let ?W' = "matchExact E Op J W"
  have c: "claims False (W_Reader W) (W_Reader ?W')" by (rule matchExact_claims) simp
  have l: "length (Functions ?W') = length (Functions W)" by (rule claims_length [OF c])
  have m: "matchesByName Op ?W' I = matchesByName Op W I" if "I \<in> set Is" for I
    by (rule matchesByName_cong [OF c matchExact_sameShapes]) (simp add: Cons.prems that)
  then have f: "filter (matchesByName Op ?W') Is = filter (matchesByName Op W) Is"
    by (simp cong: filter_cong)
  have "counters (fold (matchExact E Op) Is ?W') =
     (MatchedWithExactName ?W' + of_nat (length (filter (matchesByName Op ?W') Is)), MatchedWithHash ?W')"
    by (rule Cons.IH) (simp add: l Cons.prems)
  moreover from matchExact_counters [of E Op J W]
  have "MatchedWithExactName ?W' = MatchedWithExactName W + (if matchesByName Op W J then 1 else 0)"
    "MatchedWithHash ?W' = MatchedWithHash W" by (simp_all add: counters_def)
  ultimately show ?case by (simp add: f)
qed

lemma stageExact_count:
  "counters (stageExact E Op W) =
     (MatchedWithExactName W +
        of_nat (length (filter (\<lambda>I. I < length (ProfileBFs (W_Reader W)) \<and> matchesByName Op W I)
                  [0..<length (Functions W)])),
      MatchedWithHash W)"
  unfolding stageExact_def pairedIndices_def filter_upt_min
  by (rule fold_matchExact_count) simp

lemma matchHash_counters:
  "\<exists>d. d \<le> (if isUsed W I then 0 else 1) \<and>
       counters (matchHash T I W) = (MatchedWithExactName W, MatchedWithHash W + of_nat d)"
proof (cases "matchHash T I W = W")
  case True
  then have "0 \<le> (if isUsed W I then 0 else 1 :: nat) \<and>
       counters (matchHash T I W) = (MatchedWithExactName W, MatchedWithHash W + of_nat 0)"
    by (simp add: counters_def)
  then show ?thesis by blast
next
  case False
  then have u: "\<not> isUsed W I" by (auto simp add: matchHash_def)
  from False have "counters (matchHash T I W) = (MatchedWithExactName W, MatchedWithHash W + of_nat 1)"
    by (auto simp add: matchHash_def counters_def claim_def split: option.splits if_splits)
  with u have "1 \<le> (if isUsed W I then 0 else 1 :: nat) \<and>
       counters (matchHash T I W) = (MatchedWithExactName W, MatchedWithHash W + of_nat 1)"
    by simp
  then show ?thesis by blast
qed

lemma fold_matchHash_bound:
  assumes "\<And>I. I \<in> set Is \<Longrightarrow> I < length (Functions W)"
  shows "\<exists>k. k \<le> length (filter (\<lambda>I. \<not> isUsed W I) Is) \<and>
     counters (fold (matchHash T) Is W) = (MatchedWithExactName W, MatchedWithHash W + of_nat k)"
  using assms
proof (induction Is arbitrary: W)
  case Nil
  show ?case by (simp add: counters_def)
next
  case (Cons J Is)
  let ?W' = "matchHash T J W"
  have c: "claims False (W_Reader W) (W_Reader ?W')" by (rule matchHash_claims)
  have l: "length (Functions ?W') = length (Functions W)" by (rule claims_length [OF c])
  obtain d where d: "d \<le> (if isUsed W J then 0 else 1)"
    "counters ?W' = (MatchedWithExactName W, MatchedWithHash W + of_nat d)"
    using matchHash_counters [of W J T] by blast
  have "\<exists>k. k \<le> length (filter (\<lambda>I. \<not> isUsed ?W' I) Is) \<and>
     counters (fold (matchHash T) Is ?W') = (MatchedWithExactName ?W', MatchedWithHash ?W' + of_nat k)"
    by (rule Cons.IH) (simp add: l Cons.prems)
  then obtain k where k: "k \<le> length (filter (\<lambda>I. \<not> isUsed ?W' I) Is)"
    "counters (fold (matchHash T) Is ?W') = (MatchedWithExactName ?W', MatchedWithHash ?W' + of_nat k)"
    by blast
  have "length (filter (\<lambda>I. \<not> isUsed ?W' I) Is) \<le> length (filter (\<lambda>I. \<not> isUsed W I) Is)"
  proof (rule length_filter_mono)
    fix x assume "x \<in> set Is" "\<not> isUsed ?W' x"
    then show "\<not> isUsed W x" using claims_isUsed [OF c, of x] Cons.prems by auto
  qed
  with k(1) d(1) have b: "d + k \<le> length (filter (\<lambda>I. \<not> isUsed W I) (J # Is))"
    by (simp split: if_splits)
  from d(2) have "MatchedWithExactName ?W' = MatchedWithExactName W"
    "MatchedWithHash ?W' = MatchedWithHash W + of_nat d" by (simp_all add: counters_def)
  with k(2) have "counters (fold (matchHash T) (J # Is) W) =
      (MatchedWithExactName W, MatchedWithHash W + of_nat (d + k))"
    by (simp add: add.assoc)
  with b show ?case by blast
qed

lemma stageHash_bound:
  "\<exists>k. k \<le> length (filter (\<lambda>I. \<not> isUsed W I) [0..<length (Functions W)]) \<and>
     counters (stageHash Op W) = (MatchedWithExactName W, MatchedWithHash W + of_nat k)"
proof (cases "MatchProfileWithFunctionHash Op")
  case True
  have "\<exists>k. k \<le> length (filter (\<lambda>I. \<not> isUsed W I) [0..<length (Functions W)]) \<and>
     counters (fold (matchHash (StrictHashToBF W)) [0..<length (Functions W)] W) =
       (MatchedWithExactName W, MatchedWithHash W + of_nat k)"
    by (rule fold_matchHash_bound) simp
  with True show ?thesis by (simp add: stageHash_def)
next
  case False
  then have "0 \<le> length (filter (\<lambda>I. \<not> isUsed W I) [0..<length (Functions W)]) \<and>
     counters (stageHash Op W) = (MatchedWithExactName W, MatchedWithHash W + of_nat 0)"
    by (simp add: stageHash_def counters_def)
  then show ?thesis by blast
qed

lemma stageExact_isProfiled:
  assumes i: "I < length (Functions W)" and i': "I < length (ProfileBFs (W_Reader W))"
    and s: "ProfileBFs (W_Reader W) ! I = Some BF"
    and m: "profileMatches Op (Functions W ! I) (getFunction W BF)"
  shows "isProfiled (stageExact E Op W) BF"
proof -
  let ?n = "min (length (Functions W)) (length (ProfileBFs (W_Reader W)))"
  let ?Wa = "fold (matchExact E Op) [0..<I] W"
  let ?Wb = "matchExact E Op I ?Wa"
  from i i' have "I < ?n" by simp
  then have "[0..<?n] = [0..<I] @ I # [Suc I..<?n]"
    by (metis le_add1 less_imp_add_positive upt_add_eq_append upt_conv_Cons zero_le)
  then have e: "stageExact E Op W = fold (matchExact E Op) [Suc I..<?n] ?Wb"
    by (simp add: stageExact_def pairedIndices_def)
  note k = fold_matchExact_keeps [of W E Op "[0..<I]"]
  from k have ca: "claims False (W_Reader W) (W_Reader ?Wa)" and sa: "sameShapes ?Wa W" by simp_all
  have la: "I < length (Functions ?Wa)" using claims_length [OF ca] i by simp
  have pa: "ProfileBFs (W_Reader ?Wa) ! I = Some BF" using claims_frame(2) [OF ca] s by simp
  have ma: "profileMatches Op (Functions ?Wa ! I) (getFunction ?Wa BF)"
    using profileMatches_cong [OF ca sa i] m by simp
  have pb: "BF \<in> ProfiledFunctions (W_Reader ?Wb)"
    by (simp add: matchExact_claimed [OF la pa ma] matchProfileToFunction_def Let_def)
  have cb: "claims False (W_Reader ?Wb) (W_Reader (fold (matchExact E Op) [Suc I..<?n] ?Wb))"
    using fold_matchExact_keeps [of ?Wb E Op "[Suc I..<?n]"] by simp
  from claims_frame(6) [OF cb] pb show ?thesis
    unfolding e isProfiled_def by blast
qed

lemma startMatching_frame:
  "Functions (startMatching W) = Functions W"
  "ProfileBFs (W_Reader (startMatching W)) = ProfileBFs (W_Reader W)"
  "counters (startMatching W) = (0, 0)"
  by (simp_all add: startMatching_def Let_def Functions_def counters_def)

lemma matchProfiles_counts:
  "MatchedWithExactName (matchProfiles E Op W) =
     of_nat (length (filter (pairedAndMatching E Op W) [0..<length (Functions W)])) \<and>
   (\<exists>k. k \<le> length (filter (\<lambda>J. \<not> pairedAndMatching E Op W J) [0..<length (Functions W)]) \<and>
        MatchedWithHash (matchProfiles E Op W) = of_nat k) \<and>
   (I < length (Functions W) \<and> pairedAndMatching E Op W I \<longrightarrow>
      isUsed (matchProfiles E Op W) I \<and>
      (\<forall>BF. ProfileBFs (W_Reader W) ! I = Some BF \<longrightarrow> isProfiled (matchProfiles E Op W) BF))"
proof -
  define W0 where "W0 = computeHashes E Op (startMatching W)"
  define W1 where "W1 = stageExact E Op W0"
  define W2 where "W2 = stageHash Op W1"
  have f0: "Functions W0 = Functions W" "ProfileBFs (W_Reader W0) = ProfileBFs (W_Reader W)"
    by (simp_all add: W0_def Functions_def) (simp_all add: startMatching_def Let_def)
  have c0: "counters W0 = (0, 0)"
    by (simp add: W0_def computeHashes_counters startMatching_frame)
  have pm: "pairedAndMatching E Op W = (\<lambda>I. I < length (ProfileBFs (W_Reader W0)) \<and> matchesByName Op W0 I)"
    by (simp add: pairedAndMatching_def fun_eq_iff W0_def [symmetric] f0)
  have c1: "counters W1 = (of_nat (length (filter (pairedAndMatching E Op W) [0..<length (Functions W)])), 0)"
    using c0 stageExact_count [of E Op W0] by (simp add: W1_def pm f0 counters_def)
  have cl1: "claims False (W_Reader W0) (W_Reader W1)"
    unfolding W1_def by (rule stageExact_claims_any)
  have l1: "length (Functions W1) = length (Functions W)"
    using claims_length [OF cl1] f0 by simp
  have u1: "isUsed W1 J \<and> (\<forall>BF. ProfileBFs (W_Reader W) ! J = Some BF \<longrightarrow> isProfiled W1 BF)"
    if "J < length (Functions W)" "pairedAndMatching E Op W J" for J
  proof -
    from that(2) have a: "J < length (ProfileBFs (W_Reader W0))" and b: "matchesByName Op W0 J"
      by (simp_all add: pm)
    from b obtain BF where s: "ProfileBFs (W_Reader W0) ! J = Some BF"
      and m: "profileMatches Op (Functions W0 ! J) (getFunction W0 BF)"
      by (auto simp add: matchesByName_def split: option.splits)
    from that(1) have j: "J < length (Functions W0)" by (simp add: f0)
    from stageExact_isUsed(1) [OF j a s m, of E] stageExact_isProfiled [OF j a s m, of E] s
    show ?thesis by (simp add: W1_def f0)
  qed
  obtain k where k: "k \<le> length (filter (\<lambda>I. \<not> isUsed W1 I) [0..<length (Functions W1)])"
    "counters W2 = (MatchedWithExactName W1, MatchedWithHash W1 + of_nat k)"
    using stageHash_bound [of W1 Op] unfolding W2_def by blast
  have "length (filter (\<lambda>I. \<not> isUsed W1 I) [0..<length (Functions W)]) \<le>
        length (filter (\<lambda>J. \<not> pairedAndMatching E Op W J) [0..<length (Functions W)])"
    by (rule length_filter_mono) (use u1 in auto)
  with k(1) have kb: "k \<le> length (filter (\<lambda>J. \<not> pairedAndMatching E Op W J) [0..<length (Functions W)])"
    by (simp add: l1)
  have e: "matchProfiles E Op W = stageSimilarity E Op (stageResidual (stageLTO E Op W2))"
    by (simp add: matchProfiles_def W2_def W1_def W0_def)
  have cf: "counters (matchProfiles E Op W) = counters W2"
    by (simp add: e stageSimilarity_counters stageResidual_counters stageLTO_counters)
  from cf k(2) c1 have A: "MatchedWithExactName (matchProfiles E Op W) =
     of_nat (length (filter (pairedAndMatching E Op W) [0..<length (Functions W)]))"
    and B: "MatchedWithHash (matchProfiles E Op W) = of_nat k"
    by (simp_all add: counters_def)
  have cl: "claims False (W_Reader W1) (W_Reader (matchProfiles E Op W))"
    using later_stages_claims [of False W1 E Op] by (simp add: e W2_def)
  have C: "I < length (Functions W) \<and> pairedAndMatching E Op W I \<longrightarrow>
      isUsed (matchProfiles E Op W) I \<and>
      (\<forall>BF. ProfileBFs (W_Reader W) ! I = Some BF \<longrightarrow> isProfiled (matchProfiles E Op W) BF)"
  proof (intro impI, elim conjE)
    assume h: "I < length (Functions W)" "pairedAndMatching E Op W I"
    from u1 [OF h] have u: "isUsed W1 I"
      and p: "\<And>BF. ProfileBFs (W_Reader W) ! I = Some BF \<Longrightarrow> isProfiled W1 BF" by simp_all
    from h(1) have "I < length (Functions W1)" by (simp add: l1)
    from claims_isUsed [OF cl this u] have "isUsed (matchProfiles E Op W) I" .
    moreover have "isProfiled (matchProfiles E Op W) BF" if "ProfileBFs (W_Reader W) ! I = Some BF" for BF
      using p [OF that] claims_frame(6) [OF cl] by (auto simp add: isProfiled_def)
    ultimately show "isUsed (matchProfiles E Op W) I \<and>
      (\<forall>BF. ProfileBFs (W_Reader W) ! I = Some BF \<longrightarrow> isProfiled (matchProfiles E Op W) BF)"
      by blast
  qed
  from A B kb C show ?thesis by blast
qed

lemma readProfile_matching:
  "MatchedWithExactName (readProfile E Op W) = MatchedWithExactName (matchProfiles E Op W)"
  "MatchedWithHash (readProfile E Op W) = MatchedWithHash (matchProfiles E Op W)"
  "isUsed (readProfile E Op W) I = isUsed (matchProfiles E Op W) I"
  "isProfiled (readProfile E Op W) BF = isProfiled (matchProfiles E Op W) BF"
proof -
  from readProfile_counters [of E Op W]
  show "MatchedWithExactName (readProfile E Op W) = MatchedWithExactName (matchProfiles E Op W)"
    "MatchedWithHash (readProfile E Op W) = MatchedWithHash (matchProfiles E Op W)"
    by (simp_all add: counters_def)
  show "isUsed (readProfile E Op W) I = isUsed (matchProfiles E Op W) I"
    "isProfiled (readProfile E Op W) BF = isProfiled (matchProfiles E Op W) BF"
    by (simp_all add: isUsed_def isProfiled_def Functions_def readProfile_Reader setNormalizers_def)
qed

subsection \<open>Claim C6: the order of the stages\<close>

text \<open>
  Claim C6. After \<open>readProfile\<close> the counter \<open>MatchedWithExactName\<close> is the number
  of records that are paired by name with a binary function (a non-null \<open>ProfileBFs\<close>
  slot) and match it: equal hashes, or equal block counts under
  \<^verbatim>\<open>profile-ignore-hash\<close>. Each of them is claimed in the first pass. The counter
  \<open>MatchedWithHash\<close> is at most the number of the other records: no record claimed in
  the first pass is claimed by the hash-only stage, whatever the map from hashes to
  functions holds. Such a record is used at the end, and the function it is paired with
  is in \<open>ProfiledFunctions\<close>. The step of the hash-only stage for a used record
  changes nothing. Both counters are 64-bit.
\<close>

theorem exact_match_precedes_hash_match:
  "MatchedWithExactName (readProfile E Op W) =
     of_nat (length (filter (pairedAndMatching E Op W) [0..<length (Functions W)])) \<and>
   (\<exists>k. k \<le> length (filter (\<lambda>J. \<not> pairedAndMatching E Op W J) [0..<length (Functions W)]) \<and>
        MatchedWithHash (readProfile E Op W) = of_nat k) \<and>
   (I < length (Functions W) \<and> pairedAndMatching E Op W I \<longrightarrow>
      isUsed (readProfile E Op W) I \<and>
      (\<forall>BF. ProfileBFs (W_Reader W) ! I = Some BF \<longrightarrow> isProfiled (readProfile E Op W) BF)) \<and>
   (\<forall>Table V. isUsed V I \<longrightarrow> matchHash Table I V = V)"
proof -
  have "\<forall>Table V. isUsed V I \<longrightarrow> matchHash Table I V = V"
    by (simp add: matchHash_def)
  with matchProfiles_counts [of E Op W I] show ?thesis
    by (simp only: readProfile_matching) blast
qed

theorem exact_match_precedes_hash_match_witness:
  "length (Functions World7) = 1 \<and> pairedAndMatching Env0 OptsHash World7 0 \<and>
   ProfileBFs (W_Reader World7) ! 0 = Some 0 \<and>
   StrictHashToBF (computeHashes Env0 OptsHash (startMatching World7)) (YBF_Hash (Functions World7 ! 0)) = Some 1 \<and>
   MatchedWithExactName (readProfile Env0 OptsHash World7) = 1 \<and>
   MatchedWithHash (readProfile Env0 OptsHash World7) = 0 \<and>
   isUsed (readProfile Env0 OptsHash World7) 0 \<and>
   isProfiled (readProfile Env0 OptsHash World7) 0 \<and>
   \<not> isProfiled (readProfile Env0 OptsHash World7) 1"
proof -
  have l: "length (Functions World7) = 1" by code_simp
  have p: "pairedAndMatching Env0 OptsHash World7 0" by code_simp
  have s: "ProfileBFs (W_Reader World7) ! 0 = Some 0" by code_simp
  have t: "StrictHashToBF (computeHashes Env0 OptsHash (startMatching World7))
      (YBF_Hash (Functions World7 ! 0)) = Some 1" by code_simp
  have n1: "length (filter (pairedAndMatching Env0 OptsHash World7) [0..<length (Functions World7)]) = 1"
    using p by (simp add: l)
  have n0: "length (filter (\<lambda>J. \<not> pairedAndMatching Env0 OptsHash World7 J) [0..<length (Functions World7)]) = 0"
    using p by (simp add: l)
  have g: "\<not> isProfiled (readProfile Env0 OptsHash World7) 1" by code_simp
  from exact_match_precedes_hash_match [of Env0 OptsHash World7 0] l p s t g
  show ?thesis unfolding n1 n0 by auto
qed

subsection \<open>The table of targets\<close>

lemma grown_nth:
  "(if N \<ge> length T then T @ replicate (N + 1 - length T) None else T) ! K =
   (if K < length T then T ! K else None)" if "K < length (if N \<ge> length T then T @ replicate (N + 1 - length T) None else T)"
  using that by (auto simp add: nth_append)

lemma tableOK_match:
  assumes t: "tableOK R" and n: "BF \<notin> ProfiledFunctions R"
  shows "tableOK (matchProfileToFunction I BF R)"
proof -
  let ?Id = "YBF_Id (YamlBP_Functions (YamlBP R) ! I)"
  let ?T = "YamlProfileToFunction R"
  let ?G = "if ?Id \<ge> length ?T then ?T @ replicate (?Id + 1 - length ?T) None else ?T"
  have T': "YamlProfileToFunction (matchProfileToFunction I BF R) = ?G[?Id := Some BF]"
    and P': "ProfiledFunctions (matchProfileToFunction I BF R) = insert BF (ProfiledFunctions R)"
    by (simp_all add: matchProfileToFunction_def Let_def)
  have lg: "?Id < length ?G" by simp
  have old: "?G ! K = Some B \<Longrightarrow> K < length ?T \<and> ?T ! K = Some B" if "K < length ?G" for K B
    using grown_nth [OF that] by (auto split: if_splits)
  have get: "(?G[?Id := Some BF]) ! K = (if K = ?Id then Some BF else ?G ! K)" if "K < length ?G" for K
    using that by (simp add: nth_list_update)
  show ?thesis
    unfolding tableOK_def T' P'
  proof (intro conjI allI impI)
    fix K B
    assume k: "K < length (?G[?Id := Some BF])" and v: "?G[?Id := Some BF] ! K = Some B"
    then have k': "K < length ?G" by simp
    show "B \<in> insert BF (ProfiledFunctions R)"
    proof (cases "K = ?Id")
      case True
      with v get [OF k'] show ?thesis by simp
    next
      case False
      with v get [OF k'] old [OF k'] t show ?thesis by (auto simp add: tableOK_def)
    qed
  next
    fix K K' B
    assume a: "K < length (?G[?Id := Some BF]) \<and> K' < length (?G[?Id := Some BF]) \<and>
      ?G[?Id := Some BF] ! K = Some B \<and> ?G[?Id := Some BF] ! K' = Some B"
    then have k: "K < length ?G" and k': "K' < length ?G" by simp_all
    from a have v: "(if K = ?Id then Some BF else ?G ! K) = Some B"
      and v': "(if K' = ?Id then Some BF else ?G ! K') = Some B"
      using get [OF k] get [OF k'] by simp_all
    have notold: "\<not> (K'' < length ?T \<and> ?T ! K'' = Some BF)" for K''
      using t n by (auto simp add: tableOK_def)
    show "K = K'"
    proof (cases "K = ?Id")
      case True
      with v have b: "B = BF" by simp
      show ?thesis
      proof (cases "K' = ?Id")
        case True
        with \<open>K = ?Id\<close> show ?thesis by simp
      next
        case False
        with v' b old [OF k', of BF] notold [of K'] show ?thesis by simp
      qed
    next
      case False
      with v have o: "K < length ?T \<and> ?T ! K = Some B" using old [OF k, of B] by simp
      show ?thesis
      proof (cases "K' = ?Id")
        case True
        with v' have "B = BF" by simp
        with o notold [of K] show ?thesis by simp
      next
        case False
        with v' have "K' < length ?T \<and> ?T ! K' = Some B" using old [OF k', of B] by simp
        with o t show ?thesis by (auto simp add: tableOK_def)
      qed
    qed
  qed
qed

lemma claims_tableOK: "claims g R R' \<Longrightarrow> g \<Longrightarrow> tableOK R \<Longrightarrow> tableOK R'"
  by (induction rule: claims.induct) (auto intro: tableOK_match)

lemma tableOK_targets:
  assumes t: "tableOK R" and d: "distinct (map YBF_Id (YamlBP_Functions (YamlBP R)))"
    and i: "I < length (YamlBP_Functions (YamlBP R))" and j: "J < length (YamlBP_Functions (YamlBP R))"
    and ne: "I \<noteq> J" and a: "targetOf R I = Some BF"
  shows "targetOf R J \<noteq> Some BF"
proof
  assume b: "targetOf R J = Some BF"
  let ?Fs = "YamlBP_Functions (YamlBP R)"
  from a have "YBF_Id (?Fs ! I) < length (YamlProfileToFunction R) \<and>
      YamlProfileToFunction R ! YBF_Id (?Fs ! I) = Some BF"
    by (auto simp add: targetOf_def Let_def split: if_splits)
  moreover from b have "YBF_Id (?Fs ! J) < length (YamlProfileToFunction R) \<and>
      YamlProfileToFunction R ! YBF_Id (?Fs ! J) = Some BF"
    by (auto simp add: targetOf_def Let_def split: if_splits)
  ultimately have "YBF_Id (?Fs ! I) = YBF_Id (?Fs ! J)" using t by (auto simp add: tableOK_def)
  then have "map YBF_Id ?Fs ! I = map YBF_Id ?Fs ! J" using i j by simp
  moreover have "I < length (map YBF_Id ?Fs)" "J < length (map YBF_Id ?Fs)" using i j by simp_all
  ultimately have "I = J" using d nth_eq_iff_index_eq by blast
  with ne show False by simp
qed

subsection \<open>The name maps and the preliminary counts\<close>

lemma nameProfile_frame:
  "YamlBP (nameProfile E Ctx I R) = YamlBP R"
  "YamlProfileToFunction (nameProfile E Ctx I R) = YamlProfileToFunction R"
  "ProfiledFunctions (nameProfile E Ctx I R) = ProfiledFunctions R"
  "length (ProfileBFs (nameProfile E Ctx I R)) = Suc (length (ProfileBFs R))"
  by (simp_all add: nameProfile_def Let_def split: option.splits)

lemma nameFunction_frame:
  "YamlBP (nameFunction E P R) = YamlBP R"
  "YamlProfileToFunction (nameFunction E P R) = YamlProfileToFunction R"
  "ProfiledFunctions (nameFunction E P R) = ProfiledFunctions R"
  "ProfileBFs (nameFunction E P R) = ProfileBFs R"
  by (cases P; simp add: nameFunction_def split: option.splits)+

lemma fold_nameProfile_length:
  "length (ProfileBFs (fold (nameProfile E Ctx) Is R)) = length (ProfileBFs R) + length Is"
  by (induction Is arbitrary: R) (simp_all add: nameProfile_frame)

lemma buildNameMaps_frame:
  "YamlBP (buildNameMaps E Ctx R) = YamlBP R"
  "YamlProfileToFunction (buildNameMaps E Ctx R) = YamlProfileToFunction R"
  "ProfiledFunctions (buildNameMaps E Ctx R) = ProfiledFunctions R"
  "length (ProfileBFs (buildNameMaps E Ctx R)) =
     length (ProfileBFs R) + length (YamlBP_Functions (YamlBP R))"
proof -
  let ?R1 = "fold (nameProfile E Ctx) [0..<length (YamlBP_Functions (YamlBP R))] R"
  have a: "YamlBP ?R1 = YamlBP R"
    by (rule fold_keeps [where g = YamlBP]) (rule nameProfile_frame)
  have b: "YamlProfileToFunction ?R1 = YamlProfileToFunction R"
    by (rule fold_keeps [where g = YamlProfileToFunction]) (rule nameProfile_frame)
  have c: "ProfiledFunctions ?R1 = ProfiledFunctions R"
    by (rule fold_keeps [where g = ProfiledFunctions]) (rule nameProfile_frame)
  have d: "length (ProfileBFs ?R1) = length (ProfileBFs R) + length (YamlBP_Functions (YamlBP R))"
    by (simp add: fold_nameProfile_length)
  show "YamlBP (buildNameMaps E Ctx R) = YamlBP R"
    unfolding buildNameMaps_def using a
    by (simp add: fold_keeps [where g = YamlBP] nameFunction_frame)
  show "YamlProfileToFunction (buildNameMaps E Ctx R) = YamlProfileToFunction R"
    unfolding buildNameMaps_def using b
    by (simp add: fold_keeps [where g = YamlProfileToFunction] nameFunction_frame)
  show "ProfiledFunctions (buildNameMaps E Ctx R) = ProfiledFunctions R"
    unfolding buildNameMaps_def using c
    by (simp add: fold_keeps [where g = ProfiledFunctions] nameFunction_frame)
  show "length (ProfileBFs (buildNameMaps E Ctx R)) =
     length (ProfileBFs R) + length (YamlBP_Functions (YamlBP R))"
    unfolding buildNameMaps_def using d
    by (simp add: fold_keeps [where g = ProfileBFs] nameFunction_frame)
qed

lemma preliminaryCount_frame:
  "Functions (preliminaryCount E Op k W) = Functions W"
  "length (ProfileBFs (W_Reader (preliminaryCount E Op k W))) = length (ProfileBFs (W_Reader W))"
  "YamlProfileToFunction (W_Reader (preliminaryCount E Op k W)) = YamlProfileToFunction (W_Reader W)"
  "ProfiledFunctions (W_Reader (preliminaryCount E Op k W)) = ProfiledFunctions (W_Reader W)"
  by (simp_all add: preliminaryCount_def Functions_def split: option.splits)

lemma getFunction_setExecutionCount:
  "getFunction (setExecutionCount BF Cnt W) b =
     (if b = BF then (getFunction W BF)\<lparr>BF_ExecutionCount := Cnt\<rparr> else getFunction W b)"
  by (simp add: getFunction_def setExecutionCount_def updFunction_def)

lemma preliminaryCount_step:
  assumes inv: "slotsProfiled E k W" and k: "k < length (ProfileBFs (W_Reader W))"
    and c: "YBF_ExecCount (Functions W ! k) \<noteq> BF_COUNT_NO_PROFILE E"
  shows "slotsProfiled E (Suc k) (preliminaryCount E Op k W)"
proof (cases "ProfileBFs (W_Reader W) ! k")
  case None
  then have "preliminaryCount E Op k W = W" by (simp add: preliminaryCount_def)
  with inv None show ?thesis
    by (auto simp add: slotsProfiled_def less_Suc_eq)
next
  case (Some BF)
  show ?thesis
  proof (cases "hasProfile E (getFunction W BF)")
    case True
    let ?W' = "preliminaryCount E Op k W"
    from True Some have s: "ProfileBFs (W_Reader ?W') = (ProfileBFs (W_Reader W))[k := None]"
      and g: "getFunction ?W' = getFunction W"
      by (simp_all add: preliminaryCount_def getFunction_def warnW_def fun_eq_iff)
    have n: "ProfileBFs (W_Reader ?W') ! J = (if J = k then None else ProfileBFs (W_Reader W) ! J)" for J
      using k by (simp add: s nth_list_update)
    from inv show ?thesis
      unfolding slotsProfiled_def g n by (auto simp add: less_Suc_eq)
  next
    case False
    let ?W' = "preliminaryCount E Op k W"
    from False Some have e: "?W' = setExecutionCount BF (YBF_ExecCount (Functions W ! k)) W"
      by (simp add: preliminaryCount_def)
    have s: "ProfileBFs (W_Reader ?W') = ProfileBFs (W_Reader W)" by (simp add: e)
    have fresh: "ProfileBFs (W_Reader W) ! J \<noteq> Some BF" if "J < k" for J
      using inv False that by (auto simp add: slotsProfiled_def)
    have h: "hasProfile E (getFunction ?W' b) = (if b = BF then True else hasProfile E (getFunction W b))" for b
      using c by (simp add: e getFunction_setExecutionCount hasProfile_def)
    from inv Some fresh show ?thesis
      unfolding slotsProfiled_def s h by (auto simp add: less_Suc_eq)
  qed
qed

lemma fold_preliminaryCount:
  assumes n: "n \<le> length (ProfileBFs (W_Reader W))"
    and c: "\<forall>k < n. YBF_ExecCount (Functions W ! k) \<noteq> BF_COUNT_NO_PROFILE E"
  shows "slotsProfiled E n (fold (preliminaryCount E Op) [0..<n] W) \<and>
         Functions (fold (preliminaryCount E Op) [0..<n] W) = Functions W \<and>
         length (ProfileBFs (W_Reader (fold (preliminaryCount E Op) [0..<n] W)))
           = length (ProfileBFs (W_Reader W))"
  using n c
proof (induction n)
  case 0
  show ?case by (simp add: slotsProfiled_def)
next
  case (Suc n)
  let ?Wn = "fold (preliminaryCount E Op) [0..<n] W"
  from Suc have IH: "slotsProfiled E n ?Wn" "Functions ?Wn = Functions W"
    "length (ProfileBFs (W_Reader ?Wn)) = length (ProfileBFs (W_Reader W))" by simp_all
  have "slotsProfiled E (Suc n) (preliminaryCount E Op n ?Wn)"
    by (rule preliminaryCount_step [OF IH(1)]) (use Suc.prems IH in simp_all)
  then show ?case by (simp add: preliminaryCount_frame IH)
qed

lemma fold_preliminaryCount_frame:
  "YamlProfileToFunction (W_Reader (fold (preliminaryCount E Op) Is W)) = YamlProfileToFunction (W_Reader W)"
  "ProfiledFunctions (W_Reader (fold (preliminaryCount E Op) Is W)) = ProfiledFunctions (W_Reader W)"
  by (rule fold_keeps [where g = "\<lambda>W. YamlProfileToFunction (W_Reader W)"], rule preliminaryCount_frame,
      rule fold_keeps [where g = "\<lambda>W. ProfiledFunctions (W_Reader W)"], rule preliminaryCount_frame)

lemma preprocessProfile_success:
  assumes ok: "preprocessProfile E Op MB W0 = (None, W1)"
  obtains Buffer W2 where "MB = Inr Buffer"
    and "W2 = W0\<lparr>W_Reader := buildNameMaps E (W_BC W0)
                  ((W_Reader W0)\<lparr>YamlBP := fst (yamlInput E Buffer)\<rparr>)\<rparr>"
    and "W1 = fold (preliminaryCount E Op) (pairedIndices W2) W2"
proof (cases MB)
  case (Inl EC)
  with ok show ?thesis by (simp add: preprocessProfile_def)
next
  case (Inr Buffer)
  obtain Doc YamlError where y: "yamlInput E Buffer = (Doc, YamlError)" by (cases "yamlInput E Buffer")
  from ok Inr y have "W1 = fold (preliminaryCount E Op)
       (pairedIndices (W0\<lparr>W_Reader := buildNameMaps E (W_BC W0) ((W_Reader W0)\<lparr>YamlBP := Doc\<rparr>)\<rparr>))
       (W0\<lparr>W_Reader := buildNameMaps E (W_BC W0) ((W_Reader W0)\<lparr>YamlBP := Doc\<rparr>)\<rparr>)"
    by (auto simp add: preprocessProfile_def Let_def split: option.splits if_splits)
  with Inr y that show ?thesis by simp
qed

lemma preprocessProfile_slots:
  assumes f: "ProfileBFs (W_Reader W0) = []" "ProfiledFunctions (W_Reader W0) = {}"
      "YamlProfileToFunction (W_Reader W0) = []"
    and ok: "preprocessProfile E Op MB W0 = (None, W1)"
    and c: "\<forall>F \<in> set (Functions W1). YBF_ExecCount F \<noteq> BF_COUNT_NO_PROFILE E"
  shows "noDuplicateSlots (ProfileBFs (W_Reader W1))"
    and "length (ProfileBFs (W_Reader W1)) = length (Functions W1)"
    and "ProfiledFunctions (W_Reader W1) = {}"
    and "YamlProfileToFunction (W_Reader W1) = []"
proof -
  from ok obtain Buffer W2 where m: "MB = Inr Buffer"
    and w2: "W2 = W0\<lparr>W_Reader := buildNameMaps E (W_BC W0)
                  ((W_Reader W0)\<lparr>YamlBP := fst (yamlInput E Buffer)\<rparr>)\<rparr>"
    and w1: "W1 = fold (preliminaryCount E Op) (pairedIndices W2) W2"
    by (rule preprocessProfile_success)
  let ?n = "length (Functions W2)"
  have l2: "length (ProfileBFs (W_Reader W2)) = ?n"
    by (simp add: w2 buildNameMaps_frame f Functions_def)
  then have p: "pairedIndices W2 = [0..<?n]" by (simp add: pairedIndices_def)
  have k: "slotsProfiled E ?n W1 \<and> Functions W1 = Functions W2 \<and>
      length (ProfileBFs (W_Reader W1)) = length (ProfileBFs (W_Reader W2))"
  proof -
    have "Functions W1 = Functions W2"
      unfolding w1 by (rule fold_keeps [where g = Functions]) (rule preliminaryCount_frame)
    with c have "\<forall>k < ?n. YBF_ExecCount (Functions W2 ! k) \<noteq> BF_COUNT_NO_PROFILE E" by simp
    with fold_preliminaryCount [of ?n W2 E Op] l2 show ?thesis by (simp add: w1 p)
  qed
  with l2 show "noDuplicateSlots (ProfileBFs (W_Reader W1))"
    by (simp add: slotsProfiled_def noDuplicateSlots_def)
  from k l2 show "length (ProfileBFs (W_Reader W1)) = length (Functions W1)" by simp
  show "ProfiledFunctions (W_Reader W1) = {}"
    by (simp add: w1 fold_preliminaryCount_frame w2 buildNameMaps_frame f)
  show "YamlProfileToFunction (W_Reader W1) = []"
    by (simp add: w1 fold_preliminaryCount_frame w2 buildNameMaps_frame f)
qed

subsection \<open>The first pass on slots without duplicates\<close>

lemma matchExact_slots:
  "ProfileBFs (W_Reader (matchExact E Op I W)) = ProfileBFs (W_Reader W)"
  by (rule claims_frame(2) [OF matchExact_claims [where g = False]]) simp

lemma matchExact_profiled:
  "isProfiled (matchExact E Op I W) b \<Longrightarrow> isProfiled W b \<or> ProfileBFs (W_Reader W) ! I = Some b"
  by (auto simp add: matchExact_def isProfiled_def matchProfileToFunction_def Let_def
      split: option.splits if_splits)

lemma fold_matchExact_fresh:
  assumes "noDuplicateSlots (ProfileBFs (W_Reader W))" and "distinct Is"
    and "\<forall>I \<in> set Is. I < length (ProfileBFs (W_Reader W))"
    and "\<forall>I \<in> set Is. \<forall>b. ProfileBFs (W_Reader W) ! I = Some b \<longrightarrow> \<not> isProfiled W b"
  shows "claims True (W_Reader W) (W_Reader (fold (matchExact E Op) Is W))"
  using assms
proof (induction Is arbitrary: W)
  case Nil
  show ?case by (simp add: claims.same)
next
  case (Cons I Is)
  let ?W' = "matchExact E Op I W"
  have c: "claims True (W_Reader W) (W_Reader ?W')"
    by (rule matchExact_claims) (use Cons.prems in simp)
  have s: "ProfileBFs (W_Reader ?W') = ProfileBFs (W_Reader W)" by (rule matchExact_slots)
  have "\<not> isProfiled ?W' b" if j: "J \<in> set Is" and b: "ProfileBFs (W_Reader W) ! J = Some b" for J b
  proof
    assume "isProfiled ?W' b"
    then have "isProfiled W b \<or> ProfileBFs (W_Reader W) ! I = Some b" by (rule matchExact_profiled)
    moreover from Cons.prems j b have "\<not> isProfiled W b" by simp
    moreover have "ProfileBFs (W_Reader W) ! I \<noteq> Some b"
    proof
      assume "ProfileBFs (W_Reader W) ! I = Some b"
      with Cons.prems(1,3) j b have "I = J" by (auto simp add: noDuplicateSlots_def)
      with Cons.prems(2) j show False by simp
    qed
    ultimately show False by simp
  qed
  with Cons.prems s have "claims True (W_Reader ?W') (W_Reader (fold (matchExact E Op) Is ?W'))"
    by (intro Cons.IH) simp_all
  with c show ?case by (simp add: claims_trans)
qed

lemma sameButUsed_Ids: "sameButUsed Fs' Fs \<Longrightarrow> map YBF_Id Fs' = map YBF_Id Fs"
proof -
  assume a: "sameButUsed Fs' Fs"
  then have "map YBF_Id (map (\<lambda>F. F\<lparr>YBF_Used := False\<rparr>) Fs') = map YBF_Id (map (\<lambda>F. F\<lparr>YBF_Used := False\<rparr>) Fs)"
    by (simp add: sameButUsed_def)
  then show ?thesis by (simp add: comp_def)
qed

lemma startMatching_Reader:
  "YamlProfileToFunction (W_Reader W) = [] \<Longrightarrow>
   W_Reader (startMatching W) = (W_Reader W)\<lparr>YamlProfileToFunction := replicate (length (Functions W) + 1) None\<rparr>"
  by (simp add: startMatching_def Let_def)

lemma tableOK_empty: "tableOK (R\<lparr>YamlProfileToFunction := replicate n None\<rparr>)"
  by (auto simp add: tableOK_def)

lemma matchProfiles_fresh:
  assumes n: "noDuplicateSlots (ProfileBFs (W_Reader W))"
    and p: "ProfiledFunctions (W_Reader W) = {}"
    and t: "YamlProfileToFunction (W_Reader W) = []"
  shows "tableOK (W_Reader (matchProfiles E Op W))"
    and "map YBF_Id (Functions (matchProfiles E Op W)) = map YBF_Id (Functions W)"
proof -
  let ?Ws = "startMatching W"
  let ?Wh = "computeHashes E Op ?Ws"
  let ?Wx = "stageExact E Op ?Wh"
  have rs: "W_Reader ?Wh = (W_Reader W)\<lparr>YamlProfileToFunction := replicate (length (Functions W) + 1) None\<rparr>"
    by (simp add: startMatching_Reader [OF t])
  have ok: "tableOK (W_Reader ?Wh)"
    unfolding rs by (rule tableOK_empty)
  have "claims True (W_Reader ?Wh) (W_Reader (fold (matchExact E Op) (pairedIndices ?Wh) ?Wh))"
    by (rule fold_matchExact_fresh)
       (use n p in \<open>simp_all add: startMatching_Reader [OF t] pairedIndices_def isProfiled_def\<close>)
  then have cx: "claims True (W_Reader ?Wh) (W_Reader ?Wx)" by (simp add: stageExact_def)
  have cl: "claims True (W_Reader ?Wx) (W_Reader (matchProfiles E Op W))"
    using later_stages_claims [of True ?Wx E Op] by (simp add: matchProfiles_def)
  have c: "claims True (W_Reader ?Wh) (W_Reader (matchProfiles E Op W))"
    using cx cl by (meson claims_trans)
  show "tableOK (W_Reader (matchProfiles E Op W))"
    using claims_tableOK [OF c] ok by simp
  show "map YBF_Id (Functions (matchProfiles E Op W)) = map YBF_Id (Functions W)"
    using sameButUsed_Ids [OF claims_frame(5) [OF c]]
    by (simp add: Functions_def startMatching_Reader [OF t])
qed

lemma targetOf_setNormalizers:
  "targetOf (W_Reader (setNormalizers W)) I = targetOf (W_Reader W) I"
  by (simp add: targetOf_def setNormalizers_def Let_def)

subsection \<open>Claim C1: no function is the target of two records\<close>

text \<open>
  Claim C1, as stated, fails when two records carry the same \<open>Id\<close>: the table is
  indexed by \<open>Id\<close>, nothing in the reader asks that the identifiers of a profile
  differ, and the second claim overwrites the slot of the first. Here the records
  \<open>f\<close> and \<open>g\<close> both have the \<open>Id\<close> 1 and match the functions at the addresses
  0 and 1; after \<open>readProfile\<close> the entry of both records is the function at 1.
\<close>

theorem duplicate_ids_share_target_counterexample:
  "fst (preprocessProfile (EnvDoc (twoRecords ''g'' 1 5)) Opts0 (Inr ''---'') newWorld) = None \<and>
   targetOf (run (twoRecords ''g'' 1 5)) 0 = Some 1 \<and>
   targetOf (run (twoRecords ''g'' 1 5)) 1 = Some 1"
  by code_simp

text \<open>
  The first pass is the one stage that does not look at \<open>ProfiledFunctions\<close>: it
  relies on \<open>preprocessProfile\<close> having emptied the slot of a second record for the
  same function, which \<open>preprocessProfile\<close> does when \<open>hasProfile\<close> holds after
  the first record's count was set. A first record whose \<open>ExecCount\<close> is the sentinel
  \<open>COUNT_NO_PROFILE\<close> leaves \<open>hasProfile\<close> false, and then two records with
  different identifiers and the name \<open>f\<close> both claim the function at 0.
\<close>

lemma sentinel_count_keeps_duplicate_slot:
  "distinct (map YBF_Id (YamlBP_Functions (twoRecords ''f'' 2 (- 1)))) \<and>
   targetOf (run (twoRecords ''f'' 2 (- 1))) 0 = Some 0 \<and>
   targetOf (run (twoRecords ''f'' 2 (- 1))) 1 = Some 0"
  by code_simp

text \<open>
  Claim C1, amended. Start from a new reader (no \<open>ProfileBFs\<close>, no claimed function,
  an empty table), let \<open>preprocessProfile\<close> succeed, and let the records have
  pairwise different \<open>Id\<close>s and execution counts other than the sentinel
  \<open>COUNT_NO_PROFILE\<close>. Then, after \<open>readProfile\<close>, the entries of two different
  records are never the same binary function, and an entry is always a function in
  \<open>ProfiledFunctions\<close>. On the way, \<open>preprocessProfile\<close> leaves no function in
  two slots of \<open>ProfileBFs\<close>, and every later stage claims only functions that are
  not in \<open>ProfiledFunctions\<close>.
\<close>

theorem profile_targets_unique:
  assumes f: "ProfileBFs (W_Reader W0) = []" "ProfiledFunctions (W_Reader W0) = {}"
      "YamlProfileToFunction (W_Reader W0) = []"
    and ok: "preprocessProfile E Op MB W0 = (None, W1)"
    and d: "distinct (map YBF_Id (Functions W1))"
    and c: "\<forall>F \<in> set (Functions W1). YBF_ExecCount F \<noteq> BF_COUNT_NO_PROFILE E"
    and i: "I < length (Functions W1)" and j: "J < length (Functions W1)" and ne: "I \<noteq> J"
    and a: "targetOf (W_Reader (readProfile E Op W1)) I = Some BF"
  shows "targetOf (W_Reader (readProfile E Op W1)) J \<noteq> Some BF \<and>
         BF \<in> ProfiledFunctions (W_Reader (readProfile E Op W1)) \<and>
         noDuplicateSlots (ProfileBFs (W_Reader W1))"
proof -
  note s = preprocessProfile_slots [OF f ok c]
  note m = matchProfiles_fresh [OF s(1) s(3) s(4), of E Op]
  let ?R = "W_Reader (matchProfiles E Op W1)"
  have ids: "map YBF_Id (YamlBP_Functions (YamlBP ?R)) = map YBF_Id (Functions W1)"
    using m(2) by (simp add: Functions_def)
  then have l: "length (YamlBP_Functions (YamlBP ?R)) = length (Functions W1)"
    using map_eq_imp_length_eq by blast
  have t: "targetOf (W_Reader (readProfile E Op W1)) K = targetOf ?R K" for K
    by (simp add: readProfile_Reader targetOf_setNormalizers)
  have p: "ProfiledFunctions (W_Reader (readProfile E Op W1)) = ProfiledFunctions ?R"
    by (simp add: readProfile_Reader setNormalizers_def)
  from a have a': "targetOf ?R I = Some BF" by (simp add: t)
  have "targetOf ?R J \<noteq> Some BF"
    by (rule tableOK_targets [OF m(1) _ _ _ ne a']) (use d i j ids l in simp_all)
  moreover from a' m(1) have "BF \<in> ProfiledFunctions ?R"
    by (auto simp add: targetOf_def tableOK_def Let_def split: if_splits)
  ultimately show ?thesis using s(1) by (simp add: t p)
qed

theorem profile_targets_unique_witness:
  "ProfileBFs (W_Reader newWorld) = [] \<and> ProfiledFunctions (W_Reader newWorld) = {} \<and>
   YamlProfileToFunction (W_Reader newWorld) = [] \<and>
   preprocessProfile (EnvDoc (twoRecords ''g'' 2 5)) Opts0 (Inr ''---'') newWorld
     = (None, loadedWorld (twoRecords ''g'' 2 5)) \<and>
   distinct (map YBF_Id (Functions (loadedWorld (twoRecords ''g'' 2 5)))) \<and>
   map YBF_ExecCount (Functions (loadedWorld (twoRecords ''g'' 2 5))) = [5, 5] \<and>
   BF_COUNT_NO_PROFILE (EnvDoc (twoRecords ''g'' 2 5)) = - 1 \<and>
   length (Functions (loadedWorld (twoRecords ''g'' 2 5))) = 2 \<and>
   targetOf (run (twoRecords ''g'' 2 5)) 0 = Some 0 \<and>
   targetOf (run (twoRecords ''g'' 2 5)) 1 \<noteq> Some 0 \<and>
   0 \<in> ProfiledFunctions (run (twoRecords ''g'' 2 5))"
proof -
  let ?D = "twoRecords ''g'' 2 5"
  have f: "ProfileBFs (W_Reader newWorld) = []" "ProfiledFunctions (W_Reader newWorld) = {}"
    "YamlProfileToFunction (W_Reader newWorld) = []"
    by (simp_all add: newWorld_def World0_def Reader0_def)
  have "fst (preprocessProfile (EnvDoc ?D) Opts0 (Inr ''---'') newWorld) = None" by code_simp
  then have ok: "preprocessProfile (EnvDoc ?D) Opts0 (Inr ''---'') newWorld = (None, loadedWorld ?D)"
    by (simp add: loadedWorld_def prod_eq_iff)
  have d: "distinct (map YBF_Id (Functions (loadedWorld ?D)))" by code_simp
  have c: "\<forall>F \<in> set (Functions (loadedWorld ?D)). YBF_ExecCount F \<noteq> BF_COUNT_NO_PROFILE (EnvDoc ?D)"
    by code_simp
  have l: "length (Functions (loadedWorld ?D)) = 2" by code_simp
  have a: "targetOf (W_Reader (readProfile (EnvDoc ?D) Opts0 (loadedWorld ?D))) 0 = Some 0"
    by code_simp
  have e: "map YBF_ExecCount (Functions (loadedWorld ?D)) = [5, 5]"
    "BF_COUNT_NO_PROFILE (EnvDoc ?D) = - 1" by code_simp+
  from profile_targets_unique [OF f ok d c _ _ _ a, of 1] l f ok d e a
  show ?thesis by (simp add: run_def)
qed

end
